(* ===== verification/Prelude.thy ===== *)
theory Prelude
  imports Main "HOL-Library.Word" "HOL-Library.Char_ord" "HOL-Library.List_Lexorder"
begin

text \<open>
  What the components share: Go strings as byte lists (\<^typ>\<open>string\<close>, ordered
  bytewise as Go orders them), the validators the code writes as anchored regular
  expressions, \<open>strings.TrimSpace\<close> and \<open>strings.ToLower\<close>, hexadecimal output,
  \<open>time.Time\<close> and \<open>time.Duration\<close> as nanoseconds, and generic lemmas on lists.
\<close>

named_theorems pattern_defs "definitions of the anchored validators"

subsection \<open>Time\<close>

text \<open>
  A \<open>time.Time\<close> is its offset from the Unix epoch in nanoseconds; the zero value
  of the type is midnight of 1 January of year 1. Clock readings lie in the range
  (years 1678 to 2262) in which \<open>UnixNano\<close> is exact, so a stored time and the
  time read back from it are the same number.
\<close>

type_synonym gotime = int
type_synonym duration = int

definition zeroTime :: gotime where
  "zeroTime = - 62135596800000000000"

definition second :: duration where
  "second = 1000000000"

definition minute :: duration where
  "minute = 60 * second"

definition hour :: duration where
  "hour = 60 * minute"

subsection \<open>Character classes and anchored patterns\<close>

definition isDigit :: "char \<Rightarrow> bool" where
  "isDigit c \<longleftrightarrow> CHR ''0'' \<le> c \<and> c \<le> CHR ''9''"

definition isLower :: "char \<Rightarrow> bool" where
  "isLower c \<longleftrightarrow> CHR ''a'' \<le> c \<and> c \<le> CHR ''z''"

definition isUpper :: "char \<Rightarrow> bool" where
  "isUpper c \<longleftrightarrow> CHR ''A'' \<le> c \<and> c \<le> CHR ''Z''"

definition isHex :: "char \<Rightarrow> bool" where
  "isHex c \<longleftrightarrow> isDigit c \<or> CHR ''a'' \<le> c \<and> c \<le> CHR ''f''"

definition isLowerNum :: "char \<Rightarrow> bool" where
  "isLowerNum c \<longleftrightarrow> isLower c \<or> isDigit c"

definition isAlnum :: "char \<Rightarrow> bool" where
  "isAlnum c \<longleftrightarrow> isLower c \<or> isUpper c \<or> isDigit c"

text \<open>The characters of aliases and of keys.\<close>

definition aliasChar :: "char \<Rightarrow> bool" where
  "aliasChar c \<longleftrightarrow> isLowerNum c \<or> c = CHR ''.'' \<or> c = CHR ''_'' \<or> c = CHR ''-''"

definition keyChar :: "char \<Rightarrow> bool" where
  "keyChar c \<longleftrightarrow> isAlnum c \<or> c = CHR ''.'' \<or> c = CHR ''_'' \<or> c = CHR '':'' \<or> c = CHR ''-''"

text \<open>
  \<open>^[f][r]{lo,hi}$\<close> is \<open>headPattern f r lo hi\<close> and \<open>^prefix[r]{lo,hi}$\<close> is
  \<open>prefixPattern prefix r lo hi\<close>.
\<close>

definition headPattern :: "(char \<Rightarrow> bool) \<Rightarrow> (char \<Rightarrow> bool) \<Rightarrow> nat \<Rightarrow> nat \<Rightarrow> string \<Rightarrow> bool" where
  "headPattern f r lo hi s =
     (case s of [] \<Rightarrow> False
      | c # cs \<Rightarrow> f c \<and> list_all r cs \<and> lo \<le> length cs \<and> length cs \<le> hi)"

definition prefixPattern :: "string \<Rightarrow> (char \<Rightarrow> bool) \<Rightarrow> nat \<Rightarrow> nat \<Rightarrow> string \<Rightarrow> bool" where
  "prefixPattern p r lo hi s =
     (let cs = drop (length p) s
      in take (length p) s = p \<and> list_all r cs \<and> lo \<le> length cs \<and> length cs \<le> hi)"

text \<open>\<open>^[f](?:[m]{0,n}[f])?$\<close>: the names that may not end in a separator.\<close>

definition enclosedPattern :: "(char \<Rightarrow> bool) \<Rightarrow> (char \<Rightarrow> bool) \<Rightarrow> nat \<Rightarrow> string \<Rightarrow> bool" where
  "enclosedPattern f m n s =
     (case s of [] \<Rightarrow> False
      | c # cs \<Rightarrow> f c \<and> (cs = [] \<or> f (last cs) \<and> list_all m (butlast cs) \<and> length (butlast cs) \<le> n))"

lemmas charClass_defs =
  isDigit_def isLower_def isUpper_def isHex_def isLowerNum_def isAlnum_def

lemma headPattern_not_empty [simp]: "\<not> headPattern f r lo hi []"
  by (simp add: headPattern_def)

lemma headPattern_not_emptyD: "headPattern f r lo hi s \<Longrightarrow> s \<noteq> []"
  by auto

lemma headPattern_mono:
  "headPattern f r lo hi s \<Longrightarrow> lo' \<le> lo \<Longrightarrow> hi \<le> hi' \<Longrightarrow> headPattern f r lo' hi' s"
  by (auto simp: headPattern_def split: list.splits)

lemma prefixPattern_append:
  "prefixPattern p r lo hi (p @ cs) \<longleftrightarrow> list_all r cs \<and> lo \<le> length cs \<and> length cs \<le> hi"
  by (simp add: prefixPattern_def)

lemma prefixPattern_all:
  assumes "prefixPattern p r lo hi s" and "list_all Q p" and "\<And>c. r c \<Longrightarrow> Q c"
  shows "list_all Q s"
proof -
  have "s = p @ drop (length p) s"
    using assms(1) by (metis append_take_drop_id prefixPattern_def)
  moreover have "list_all Q (drop (length p) s)"
    using assms(1,3) by (auto simp: prefixPattern_def Let_def list_all_iff)
  ultimately show ?thesis
    using assms(2) by (metis list_all_append)
qed

lemma prefixPattern_not_empty: "prefixPattern p r lo hi s \<Longrightarrow> p \<noteq> [] \<Longrightarrow> s \<noteq> []"
  by (auto simp: prefixPattern_def)

subsection \<open>Hexadecimal output and random identifiers\<close>

type_synonym byte = "8 word"

definition hexDigit :: "nat \<Rightarrow> char" where
  "hexDigit n = ''0123456789abcdef'' ! (n mod 16)"

definition hexEncode :: "byte list \<Rightarrow> string" where
  "hexEncode bs = concat (map (\<lambda>b. [hexDigit (unat b div 16), hexDigit (unat b mod 16)]) bs)"

lemma isHex_hexDigit: "isHex (hexDigit n)"
proof -
  have "list_all isHex ''0123456789abcdef''"
    by (simp add: charClass_defs)
  moreover have "n mod 16 < length ''0123456789abcdef''"
    by simp
  ultimately show ?thesis
    unfolding hexDigit_def list_all_length by blast
qed

lemma length_hexEncode [simp]: "length (hexEncode bs) = 2 * length bs"
  by (induction bs) (auto simp: hexEncode_def)

lemma list_all_hexEncode [simp]: "list_all isHex (hexEncode bs)"
  by (induction bs) (auto simp: hexEncode_def isHex_hexDigit)

end
