(* ===== verification/Go_Strings.thy ===== *)
theory Go_Strings
  imports Prelude "HOL-Library.Sublist"
begin

text \<open>
  The operations of Go's \<open>strings\<close> package that the sources call, on byte lists.
  \<open>TrimSpace\<close> removes the six ASCII white-space bytes and the UTF-8 encodings of the
  other code points of \<open>unicode.IsSpace\<close>. \<open>ToLower\<close> lowers the ASCII letters and the
  two other code points whose lower case is an ASCII letter (U+0130 and U+212A);
  every other multi-byte sequence is kept, and every caller then matches the result
  against ASCII patterns or ASCII table keys, which such a sequence never satisfies.
\<close>

subsection \<open>Prefixes and white space\<close>

definition stripPrefix :: "string \<Rightarrow> string \<Rightarrow> string option" where
  "stripPrefix p s = (if take (length p) s = p then Some (drop (length p) s) else None)"

fun firstStrip :: "string list \<Rightarrow> string \<Rightarrow> string option" where
  "firstStrip [] s = None"
| "firstStrip (p # ps) s =
     (case stripPrefix p s of Some r \<Rightarrow> Some r | None \<Rightarrow> firstStrip ps s)"

definition spaces :: "string list" where
  "spaces =
     [[CHR 0x09], [CHR 0x0A], [CHR 0x0B], [CHR 0x0C], [CHR 0x0D], [CHR 0x20],
      [CHR 0xC2, CHR 0x85], [CHR 0xC2, CHR 0xA0], [CHR 0xE1, CHR 0x9A, CHR 0x80],
      [CHR 0xE2, CHR 0x80, CHR 0x80], [CHR 0xE2, CHR 0x80, CHR 0x81],
      [CHR 0xE2, CHR 0x80, CHR 0x82], [CHR 0xE2, CHR 0x80, CHR 0x83],
      [CHR 0xE2, CHR 0x80, CHR 0x84], [CHR 0xE2, CHR 0x80, CHR 0x85],
      [CHR 0xE2, CHR 0x80, CHR 0x86], [CHR 0xE2, CHR 0x80, CHR 0x87],
      [CHR 0xE2, CHR 0x80, CHR 0x88], [CHR 0xE2, CHR 0x80, CHR 0x89],
      [CHR 0xE2, CHR 0x80, CHR 0x8A], [CHR 0xE2, CHR 0x80, CHR 0xA8],
      [CHR 0xE2, CHR 0x80, CHR 0xA9], [CHR 0xE2, CHR 0x80, CHR 0xAF],
      [CHR 0xE2, CHR 0x81, CHR 0x9F], [CHR 0xE3, CHR 0x80, CHR 0x80]]"

function trimWith :: "string list \<Rightarrow> string \<Rightarrow> string" where
  "trimWith ps s =
     (case firstStrip ps s of
        None \<Rightarrow> s
      | Some r \<Rightarrow> if length r < length s then trimWith ps r else s)"
  by pat_completeness auto
termination
  by (relation "measure (\<lambda>(ps, s). length s)") auto

declare trimWith.simps [simp del]

definition TrimSpace :: "string \<Rightarrow> string" where
  "TrimSpace s = rev (trimWith (map rev spaces) (rev (trimWith spaces s)))"

text \<open>Printable ASCII without the blank: what every validated identifier consists of.\<close>

definition plain :: "char \<Rightarrow> bool" where
  "plain c \<longleftrightarrow> CHR ''!'' \<le> c \<and> c \<le> CHR ''~''"

lemma stripPrefix_plain:
  "p \<noteq> [] \<Longrightarrow> \<not> plain (hd p) \<Longrightarrow> list_all plain s \<Longrightarrow> stripPrefix p s = None"
  by (cases p; cases s) (auto simp: stripPrefix_def)

lemma firstStrip_plain:
  "list_all (\<lambda>p. p \<noteq> [] \<and> \<not> plain (hd p)) ps \<Longrightarrow> list_all plain s \<Longrightarrow> firstStrip ps s = None"
  by (induction ps) (auto simp: stripPrefix_plain)

lemma trimWith_plain:
  "list_all (\<lambda>p. p \<noteq> [] \<and> \<not> plain (hd p)) ps \<Longrightarrow> list_all plain s \<Longrightarrow> trimWith ps s = s"
  by (subst trimWith.simps) (simp add: firstStrip_plain)

lemma spaces_not_plain:
  "list_all (\<lambda>p. p \<noteq> [] \<and> \<not> plain (hd p)) spaces"
  "list_all (\<lambda>p. p \<noteq> [] \<and> \<not> plain (hd p)) (map rev spaces)"
  by (simp_all add: spaces_def plain_def)

lemma TrimSpace_plain [simp]: "list_all plain s \<Longrightarrow> TrimSpace s = s"
  by (simp add: TrimSpace_def trimWith_plain spaces_not_plain)

lemma plain_classes [simp]:
  "isDigit c \<Longrightarrow> plain c" "isLower c \<Longrightarrow> plain c" "isUpper c \<Longrightarrow> plain c"
  "isHex c \<Longrightarrow> plain c" "isLowerNum c \<Longrightarrow> plain c" "isAlnum c \<Longrightarrow> plain c"
  by (auto simp: plain_def charClass_defs less_eq_char_def)

lemma headPattern_plain:
  "headPattern f r lo hi s \<Longrightarrow> (\<And>c. f c \<Longrightarrow> plain c) \<Longrightarrow> (\<And>c. r c \<Longrightarrow> plain c) \<Longrightarrow> list_all plain s"
  by (cases s) (auto simp: headPattern_def list_all_iff)

lemma prefixPattern_plain:
  "prefixPattern p r lo hi s \<Longrightarrow> list_all plain p \<Longrightarrow> (\<And>c. r c \<Longrightarrow> plain c) \<Longrightarrow> list_all plain s"
  by (rule prefixPattern_all)

subsection \<open>Case\<close>

definition lowerChar :: "char \<Rightarrow> char" where
  "lowerChar c = (if isUpper c then char_of ((of_char c :: nat) + 32) else c)"

lemma stripPrefix_length: "stripPrefix p s = Some r \<Longrightarrow> p \<noteq> [] \<Longrightarrow> length r < length s"
  by (cases s) (auto simp: stripPrefix_def split: if_splits)

function ToLower :: "string \<Rightarrow> string" where
  "ToLower s =
     (case s of [] \<Rightarrow> []
      | c # cs \<Rightarrow>
         (case stripPrefix [CHR 0xC4, CHR 0xB0] s of
            Some r \<Rightarrow> CHR ''i'' # ToLower r
          | None \<Rightarrow>
             (case stripPrefix [CHR 0xE2, CHR 0x84, CHR 0xAA] s of
                Some r \<Rightarrow> CHR ''k'' # ToLower r
              | None \<Rightarrow> lowerChar c # ToLower cs)))"
  by pat_completeness auto
termination
  by (relation "measure length") (auto dest: stripPrefix_length)

declare ToLower.simps [simp del]

lemma ToLower_plain: "list_all plain s \<Longrightarrow> ToLower s = map lowerChar s"
proof (induction s)
  case Nil
  show ?case by (subst ToLower.simps) simp
next
  case (Cons c cs)
  have "\<not> plain (CHR 0xC4)" and "\<not> plain (CHR 0xE2)"
    by (simp_all add: plain_def)
  then have "stripPrefix [CHR 0xC4, CHR 0xB0] (c # cs) = None"
    and "stripPrefix [CHR 0xE2, CHR 0x84, CHR 0xAA] (c # cs) = None"
    using Cons.prems by (auto intro!: stripPrefix_plain)
  with Cons show ?case
    by (subst ToLower.simps) simp
qed

lemma lowerChar_id: "\<not> isUpper c \<Longrightarrow> lowerChar c = c"
  by (simp add: lowerChar_def)

lemma ToLower_lower [simp]:
  "list_all (\<lambda>c. plain c \<and> \<not> isUpper c) s \<Longrightarrow> ToLower s = s"
proof -
  assume *: "list_all (\<lambda>c. plain c \<and> \<not> isUpper c) s"
  then have "list_all plain s" by (simp add: list_all_iff)
  then have "ToLower s = map lowerChar s" by (rule ToLower_plain)
  also have "\<dots> = s"
    using * by (auto simp: list_all_iff lowerChar_id intro: map_idI)
  finally show ?thesis .
qed

subsection \<open>Splitting and joining\<close>

fun splitOn :: "char \<Rightarrow> string \<Rightarrow> string list" where
  "splitOn sep [] = [[]]"
| "splitOn sep (c # cs) =
     (if c = sep then [] # splitOn sep cs
      else (case splitOn sep cs of [] \<Rightarrow> [[c]] | w # ws \<Rightarrow> (c # w) # ws))"

fun joinWith :: "string \<Rightarrow> string list \<Rightarrow> string" where
  "joinWith sep [] = []"
| "joinWith sep [w] = w"
| "joinWith sep (w # ws) = w @ sep @ joinWith sep ws"

lemma splitOn_not_Nil [simp]: "splitOn sep s \<noteq> []"
  by (induction s) (auto split: list.splits)

lemma joinWith_Cons: "ws \<noteq> [] \<Longrightarrow> joinWith sep (w # ws) = w @ sep @ joinWith sep ws"
  by (cases ws) auto

lemma joinWith_splitOn: "joinWith [sep] (splitOn sep s) = s"
proof (induction s)
  case (Cons c cs)
  show ?case
  proof (cases "splitOn sep cs")
    case Nil
    then show ?thesis by simp
  next
    case (Cons w ws)
    with Cons.IH show ?thesis
      by (cases ws) auto
  qed
qed simp

lemma splitOn_no_sep: "w \<in> set (splitOn sep s) \<Longrightarrow> sep \<notin> set w"
  by (induction s arbitrary: w) (auto split: list.splits if_splits)

lemma splitOn_append: "splitOn sep (a @ [sep] @ b) = splitOn sep a @ splitOn sep b"
  by (induction a) (auto split: list.splits)

lemma splitOn_single: "sep \<notin> set w \<Longrightarrow> splitOn sep w = [w]"
  by (induction w) auto

lemma splitOn_joinWith:
  assumes "list_all (\<lambda>w. sep \<notin> set w) ws" and "ws \<noteq> []"
  shows "splitOn sep (joinWith [sep] ws) = ws"
  using assms(2,1)
proof (induction ws rule: list_nonempty_induct)
  case (cons w ws)
  then have "splitOn sep (joinWith [sep] (w # ws)) = splitOn sep w @ splitOn sep (joinWith [sep] ws)"
    by (simp add: joinWith_Cons splitOn_append [of sep w, simplified])
  with cons show ?case by (simp add: splitOn_single)
qed (simp_all add: splitOn_single)

lemma joinWith_snoc: "ws \<noteq> [] \<Longrightarrow> joinWith sep (ws @ [w]) = joinWith sep ws @ sep @ w"
proof (induction ws)
  case (Cons a ws)
  then show ?case by (cases "ws = []") (simp_all add: joinWith_Cons)
qed simp

subsection \<open>Substrings\<close>

definition Contains :: "string \<Rightarrow> string \<Rightarrow> bool" where
  "Contains s p = list_ex (\<lambda>i. prefix p (drop i s)) [0..<length s + 1]"

definition HasPrefix :: "string \<Rightarrow> string \<Rightarrow> bool" where
  "HasPrefix s p \<longleftrightarrow> prefix p s"

definition HasSuffix :: "string \<Rightarrow> string \<Rightarrow> bool" where
  "HasSuffix s p \<longleftrightarrow> suffix p s"

lemma Contains_iff: "Contains s p \<longleftrightarrow> sublist p s"
proof
  assume "Contains s p"
  then obtain i where "prefix p (drop i s)" by (auto simp: Contains_def list_ex_iff)
  then show "sublist p s" by (metis append_take_drop_id prefix_def sublist_def)
next
  assume "sublist p s"
  then obtain xs ys where "s = xs @ p @ ys" by (auto simp: sublist_def)
  then show "Contains s p"
    by (auto simp: Contains_def list_ex_iff prefix_def intro!: bexI [of _ "length xs"])
qed

end
