(* ===== verification/Policy_Redact.thy ===== *)
theory Policy_Redact
  imports Go_Strings
begin

text \<open>
  Content scanning (\<open>internal/policy/scan.go\<close>): the secret rules and \<open>Redact\<close>. The
  rules are regular expressions of Go's \<open>regexp\<close> package; \<open>runRe\<close> lists the matches
  of an expression at one position in the order of preference of that package
  (leftmost-first), so the head of the list is the match \<open>regexp\<close> reports.
\<close>

subsection \<open>Matching\<close>

text \<open>
  A matcher position: the offset, the byte before it (none at the start of the text),
  the text that remains, and the captured group of the rule, if it was entered.
\<close>

record cursor =
  offset :: nat
  prev :: "char option"
  rest :: string
  captured :: "(nat \<times> nat) option"

datatype re =
    Step "string \<Rightarrow> nat option"
  | Eps
  | WordBoundary
  | TextStart
  | Seq re re
  | Alt re re
  | Star bool re
  | Group re

definition advance :: "nat \<Rightarrow> cursor \<Rightarrow> cursor" where
  "advance n c = c\<lparr>offset := offset c + n, prev := Some (rest c ! (n - 1)), rest := drop n (rest c)\<rparr>"

definition isWordChar :: "char \<Rightarrow> bool" where
  "isWordChar c \<longleftrightarrow> isAlnum c \<or> c = CHR ''_''"

definition atWordBoundary :: "cursor \<Rightarrow> bool" where
  "atWordBoundary c \<longleftrightarrow>
     (case prev c of None \<Rightarrow> False | Some p \<Rightarrow> isWordChar p) \<noteq>
     (case rest c of [] \<Rightarrow> False | n # _ \<Rightarrow> isWordChar n)"

function runRe :: "re \<Rightarrow> cursor \<Rightarrow> cursor list" where
  "runRe (Step f) c =
     (case f (rest c) of
        None \<Rightarrow> []
      | Some n \<Rightarrow> if 0 < n \<and> n \<le> length (rest c) then [advance n c] else [])"
| "runRe Eps c = [c]"
| "runRe WordBoundary c = (if atWordBoundary c then [c] else [])"
| "runRe TextStart c = (if prev c = None then [c] else [])"
| "runRe (Seq a b) c = concat (map (runRe b) (runRe a c))"
| "runRe (Alt a b) c = runRe a c @ runRe b c"
| "runRe (Star greedy a) c =
     (let more = concat (map (\<lambda>d. if length (rest d) < length (rest c) then runRe (Star greedy a) d else [])
                            (runRe a c))
      in if greedy then more @ [c] else c # more)"
| "runRe (Group a) c = map (\<lambda>d. d\<lparr>captured := Some (offset c, offset d)\<rparr>) (runRe a c)"
  by pat_completeness auto
termination
  by (relation "inv_image (less_than <*lex*> less_than) (\<lambda>(r, c). (size r, length (rest c)))") auto

text \<open>The leftmost match: skipped text, the cursor at its end, and the matched text.\<close>

fun searchRe :: "re \<Rightarrow> char option \<Rightarrow> string \<Rightarrow> (string \<times> cursor \<times> string) option" where
  "searchRe r p [] =
     (case runRe r \<lparr>offset = 0, prev = p, rest = [], captured = None\<rparr> of
        [] \<Rightarrow> None | e # _ \<Rightarrow> Some ([], e, []))"
| "searchRe r p (x # xs) =
     (case runRe r \<lparr>offset = 0, prev = p, rest = x # xs, captured = None\<rparr> of
        e # _ \<Rightarrow> Some ([], e, take (offset e) (x # xs))
      | [] \<Rightarrow> (case searchRe r (Some x) xs of
                None \<Rightarrow> None
              | Some (skipped, e, m) \<Rightarrow> Some (x # skipped, e, m)))"

definition MatchString :: "re \<Rightarrow> string \<Rightarrow> bool" where
  "MatchString r s \<longleftrightarrow> searchRe r None s \<noteq> None"

text \<open>
  \<open>ReplaceAllStringFunc\<close>: every match from left to right, without overlap; the
  replacement function also says whether it replaced anything.
\<close>

function replaceAll :: "re \<Rightarrow> (string \<Rightarrow> string \<times> bool) \<Rightarrow> char option \<Rightarrow> string \<Rightarrow> string \<times> bool" where
  "replaceAll r f p s =
     (case searchRe r p s of
        None \<Rightarrow> (s, False)
      | Some (skipped, e, m) \<Rightarrow>
         if m = [] then (s, False)
         else (let (m', b) = f m; s' = drop (length skipped + length m) s;
                   (t, b') = (if length s' < length s then replaceAll r f (Some (last m)) s' else (s', False))
               in (skipped @ m' @ t, b \<or> b')))"
  by pat_completeness auto
termination
  by (relation "measure (\<lambda>(r, f, p, s). length s)") auto

declare replaceAll.simps [simp del]

subsection \<open>Building blocks of the rules\<close>

definition oneOf :: "(char \<Rightarrow> bool) \<Rightarrow> re" where
  "oneOf cls = Step (\<lambda>s. case s of [] \<Rightarrow> None | c # _ \<Rightarrow> if cls c then Some 1 else None)"

text \<open>
  Under \<open>(?i)\<close> a class closed under ASCII case also holds U+017F when it holds the
  letter s and U+212A when it holds the letter k.
\<close>

definition oneOfFold :: "(char \<Rightarrow> bool) \<Rightarrow> re" where
  "oneOfFold cls =
     Step (\<lambda>s. case s of [] \<Rightarrow> None
       | c # _ \<Rightarrow>
          if cls (lowerChar c) then Some 1
          else if cls (CHR ''s'') \<and> prefix [CHR 0xC5, CHR 0xBF] s then Some 2
          else if cls (CHR ''k'') \<and> prefix [CHR 0xE2, CHR 0x84, CHR 0xAA] s then Some 3
          else None)"

text \<open>The width of the first rune, as \<open>utf8.DecodeRuneInString\<close> computes it.\<close>

definition cont :: "nat \<Rightarrow> nat \<Rightarrow> nat \<Rightarrow> bool" where
  "cont lo hi b \<longleftrightarrow> lo \<le> b \<and> b \<le> hi"

definition runeWidth :: "string \<Rightarrow> nat" where
  "runeWidth s =
     (case map of_char s :: nat list of
        b0 # b1 # bs \<Rightarrow>
          if cont 194 223 b0 then (if cont 128 191 b1 then 2 else 1)
          else if cont 224 239 b0 then
            (if cont (if b0 = 224 then 160 else 128) (if b0 = 237 then 159 else 191) b1 \<and>
                (case bs of b2 # _ \<Rightarrow> cont 128 191 b2 | [] \<Rightarrow> False) then 3 else 1)
          else if cont 240 244 b0 then
            (if cont (if b0 = 240 then 144 else 128) (if b0 = 244 then 143 else 191) b1 \<and>
                (case bs of b2 # b3 # _ \<Rightarrow> cont 128 191 b2 \<and> cont 128 191 b3 | _ \<Rightarrow> False) then 4 else 1)
          else 1
      | _ \<Rightarrow> 1)"

definition noneOf :: "(char \<Rightarrow> bool) \<Rightarrow> re" where
  "noneOf cls = Step (\<lambda>s. case s of [] \<Rightarrow> None | c # _ \<Rightarrow> if cls c then None else Some (runeWidth s))"

fun lit :: "string \<Rightarrow> re" where
  "lit [] = Eps"
| "lit (c # cs) = Seq (oneOf (\<lambda>d. d = c)) (lit cs)"

fun litFold :: "string \<Rightarrow> re" where
  "litFold [] = Eps"
| "litFold (c # cs) = Seq (oneOfFold (\<lambda>d. d = c)) (litFold cs)"

fun times :: "nat \<Rightarrow> re \<Rightarrow> re" where
  "times 0 r = Eps"
| "times (Suc n) r = Seq r (times n r)"

definition atLeast :: "nat \<Rightarrow> re \<Rightarrow> re" where
  "atLeast n r = Seq (times n r) (Star True r)"

definition optional :: "re \<Rightarrow> re" where
  "optional r = Alt r Eps"

fun altOf :: "re list \<Rightarrow> re" where
  "altOf [] = Step (\<lambda>_. None)"
| "altOf [r] = r"
| "altOf (r # rs) = Alt r (altOf rs)"

fun seqOf :: "re list \<Rightarrow> re" where
  "seqOf [] = Eps"
| "seqOf [r] = r"
| "seqOf (r # rs) = Seq r (seqOf rs)"

definition isReSpace :: "char \<Rightarrow> bool" where
  "isReSpace c \<longleftrightarrow> c = CHR 0x09 \<or> c = CHR 0x0A \<or> c = CHR 0x0C \<or> c = CHR 0x0D \<or> c = CHR '' ''"

definition quote :: char where
  "quote = CHR 0x22"

definition apostrophe :: char where
  "apostrophe = CHR 0x27"

subsection \<open>The rules\<close>

record secretRule =
  ruleName :: string
  ruleRe :: re
  ruleGroup :: nat

definition redactPlaceholder :: string where
  "redactPlaceholder = ''***REDACTED-SECRET***''"

definition keyLabel :: re where
  "keyLabel = seqOf [Star True (oneOf (\<lambda>c. isUpper c \<or> isDigit c \<or> c = CHR '' '')), lit ''PRIVATE KEY-----'']"

definition privateKeyRe :: re where
  "privateKeyRe =
     seqOf [lit ''-----BEGIN '', keyLabel, Star False (oneOf (\<lambda>_. True)), lit ''-----END '', keyLabel]"

definition awsRe :: re where
  "awsRe = seqOf [WordBoundary, Alt (lit ''AKIA'') (lit ''ASIA''),
     times 16 (oneOf (\<lambda>c. isDigit c \<or> isUpper c)), WordBoundary]"

definition githubTokenSearchPattern :: re where
  "githubTokenSearchPattern =
     seqOf [WordBoundary, lit ''gh'', oneOf (\<lambda>c. c \<in> set ''pousr''), lit ''_'',
            atLeast 36 (oneOf isAlnum), WordBoundary]"

definition githubPatRe :: re where
  "githubPatRe = seqOf [WordBoundary, lit ''github_pat_'', atLeast 20 (oneOf isWordChar), WordBoundary]"

definition slackTokenRe :: re where
  "slackTokenRe =
     seqOf [WordBoundary, lit ''xox'', oneOf (\<lambda>c. c \<in> set ''baprs''), lit ''-'',
            atLeast 10 (oneOf (\<lambda>c. isAlnum c \<or> c = CHR ''-'')), WordBoundary]"

definition googleKeyRe :: re where
  "googleKeyRe =
     seqOf [WordBoundary, lit ''AIza'', times 35 (oneOf (\<lambda>c. isWordChar c \<or> c = CHR ''-'')), WordBoundary]"

definition stripeKeyRe :: re where
  "stripeKeyRe =
     seqOf [WordBoundary, Alt (lit ''sk'') (lit ''rk''), lit ''_live_'', atLeast 16 (oneOf isAlnum), WordBoundary]"

definition slackWebhookRe :: re where
  "slackWebhookRe =
     seqOf [lit ''https://hooks.slack.com/services/'', atLeast 1 (oneOf (\<lambda>c. isAlnum c \<or> c = CHR ''/''))]"

definition jwtPart :: re where
  "jwtPart = atLeast 8 (oneOf (\<lambda>c. isWordChar c \<or> c = CHR ''-''))"

definition jwtRe :: re where
  "jwtRe =
     seqOf [WordBoundary, lit ''eyJ'', jwtPart, lit ''.eyJ'', jwtPart, lit ''.'', jwtPart, WordBoundary]"

definition assignment :: re where
  "assignment = seqOf [Star True (oneOf isReSpace), oneOf (\<lambda>c. c = CHR '':'' \<or> c = CHR ''=''),
     Star True (oneOf isReSpace)]"

definition bearerRe :: re where
  "bearerRe =
     seqOf [WordBoundary, optional (Seq (litFold ''authorization'') assignment), litFold ''bearer'',
            atLeast 1 (oneOf isReSpace),
            Group (atLeast 12 (oneOfFold (\<lambda>c. isLowerNum c \<or> c = CHR ''.'' \<or> c = CHR ''_'' \<or> c = CHR ''-'')))]"

definition separator :: re where
  "separator = optional (oneOf (\<lambda>c. c = CHR ''_'' \<or> c = CHR ''-''))"

definition genericAssignRe :: re where
  "genericAssignRe =
     seqOf [Alt TextStart
              (oneOf (\<lambda>c. isReSpace c \<or> c = quote \<or> c = apostrophe \<or> c \<in> set '',{}[]()_-'')),
            altOf [seqOf [litFold ''api'', separator, litFold ''key''], litFold ''apikey'',
                   seqOf [litFold ''secret'', separator, litFold ''key''], litFold ''secret'',
                   seqOf [litFold ''access'', separator, litFold ''key''],
                   seqOf [litFold ''auth'', separator, litFold ''token''],
                   seqOf [litFold ''client'', separator, litFold ''secret''],
                   litFold ''password'', litFold ''passwd'', litFold ''pwd'', litFold ''token''],
            assignment, optional (oneOf (\<lambda>c. c = quote \<or> c = apostrophe)),
            Group (atLeast 8 (noneOf (\<lambda>c. isReSpace c \<or> c = quote \<or> c = apostrophe \<or> c = CHR '','' \<or> c = CHR '';''))),
            optional (oneOf (\<lambda>c. c = quote \<or> c = apostrophe))]"

definition secretRules :: "secretRule list" where
  "secretRules =
     [\<lparr>ruleName = ''private-key-block'', ruleRe = privateKeyRe, ruleGroup = 0\<rparr>,
      \<lparr>ruleName = ''aws-access-key-id'', ruleRe = awsRe, ruleGroup = 0\<rparr>,
      \<lparr>ruleName = ''github-token'', ruleRe = githubTokenSearchPattern, ruleGroup = 0\<rparr>,
      \<lparr>ruleName = ''github-pat'', ruleRe = githubPatRe, ruleGroup = 0\<rparr>,
      \<lparr>ruleName = ''slack-token'', ruleRe = slackTokenRe, ruleGroup = 0\<rparr>,
      \<lparr>ruleName = ''google-api-key'', ruleRe = googleKeyRe, ruleGroup = 0\<rparr>,
      \<lparr>ruleName = ''stripe-key'', ruleRe = stripeKeyRe, ruleGroup = 0\<rparr>,
      \<lparr>ruleName = ''slack-webhook'', ruleRe = slackWebhookRe, ruleGroup = 0\<rparr>,
      \<lparr>ruleName = ''jwt'', ruleRe = jwtRe, ruleGroup = 0\<rparr>,
      \<lparr>ruleName = ''bearer'', ruleRe = bearerRe, ruleGroup = 1\<rparr>,
      \<lparr>ruleName = ''generic-secret-assign'', ruleRe = genericAssignRe, ruleGroup = 2\<rparr>]"

subsection \<open>Redact\<close>

definition trimCutset :: "(char \<Rightarrow> bool) \<Rightarrow> string \<Rightarrow> string" where
  "trimCutset cls s = rev (dropWhile cls (rev (dropWhile cls s)))"

definition isBenignSecretAssignmentValue :: "string \<Rightarrow> bool" where
  "isBenignSecretAssignmentValue value =
     (let v = trimCutset (\<lambda>c. c = quote \<or> c = apostrophe) (TrimSpace value); low = ToLower v
      in prefix ''$('' v \<or> prefix [CHR 0x60] v \<or>
         prefix ''$'' v \<or> prefix ''%'' low \<and> suffix ''%'' low \<or>
         prefix ''<'' v \<and> suffix ''>'' v \<or>
         list_ex (\<lambda>word. sublist word low)
           [''placeholder'', ''replace'', ''changeme'', ''change-me'', ''your-'', ''paste'', ''todo''])"

definition redactGroup :: "secretRule \<Rightarrow> string \<Rightarrow> string \<times> bool" where
  "redactGroup rule m =
     (case searchRe (ruleRe rule) None m of
        None \<Rightarrow> (m, False)
      | Some (skipped, e, _) \<Rightarrow>
         (case captured e of
            None \<Rightarrow> (m, False)
          | Some (a, b) \<Rightarrow>
             let start = length skipped + a; end = length skipped + b
             in if ruleName rule = ''generic-secret-assign'' \<and>
                   isBenignSecretAssignmentValue (take (end - start) (drop start m))
                then (m, False)
                else (take start m @ redactPlaceholder @ drop end m, True)))"

definition applyRule :: "secretRule \<Rightarrow> string \<times> bool \<Rightarrow> string \<times> bool" where
  "applyRule rule st =
     (case st of (out, redacted) \<Rightarrow>
        if ruleGroup rule = 0 then
          (if MatchString (ruleRe rule) out
           then (fst (replaceAll (ruleRe rule) (\<lambda>_. (redactPlaceholder, True)) None out), True)
           else (out, redacted))
        else (let (out', b) = replaceAll (ruleRe rule) (redactGroup rule) None out
              in (out', redacted \<or> b)))"

definition Redact :: "string \<Rightarrow> string \<times> bool" where
  "Redact content = foldl (\<lambda>st rule. applyRule rule st) (content, False) secretRules"

subsection \<open>What scanning guarantees\<close>

lemma searchRe_split:
  "searchRe r p s = Some (skipped, e, m) \<Longrightarrow> take (length skipped + length m) s = skipped @ m"
proof (induction r p s arbitrary: skipped rule: searchRe.induct)
  case (1 r p)
  then show ?case by (auto split: list.splits)
next
  case (2 r p x xs)
  then show ?case by (auto simp: min_def split: list.splits option.splits)
qed

lemma searchRe_drop:
  "searchRe r p s = Some (skipped, e, m) \<Longrightarrow> skipped @ m @ drop (length skipped + length m) s = s"
  by (metis append.assoc append_take_drop_id searchRe_split)

lemma replaceAll_unchanged:
  "\<not> snd (replaceAll r f p s) \<Longrightarrow> (\<And>m. \<not> snd (f m) \<Longrightarrow> fst (f m) = m) \<Longrightarrow>
   fst (replaceAll r f p s) = s"
proof (induction r f p s rule: replaceAll.induct)
  case (1 r f p s)
  show ?case
  proof (cases "searchRe r p s")
    case None
    then show ?thesis by (simp add: replaceAll.simps)
  next
    case (Some t)
    then obtain skipped e m where t: "searchRe r p s = Some (skipped, e, m)"
      by (cases t) auto
    let ?s = "drop (length skipped + length m) s"
    have split: "skipped @ m @ ?s = s" by (rule searchRe_drop [OF t])
    obtain m' b where f: "f m = (m', b)" by (cases "f m")
    obtain u b' where rec: "replaceAll r f (Some (last m)) ?s = (u, b')"
      by (cases "replaceAll r f (Some (last m)) ?s")
    show ?thesis
    proof (cases "m = []")
      case True
      with t show ?thesis by (simp add: replaceAll.simps)
    next
      case False
      have less: "length ?s < length s"
        using False split by (metis length_append length_greater_0_conv less_add_same_cancel2 trans_less_add2)
      have eq: "replaceAll r f p s = (skipped @ m' @ u, b \<or> b')"
        using t False less f rec by (simp add: replaceAll.simps [of r f p s])
      with "1.prems"(1) have "\<not> b" and "\<not> b'" by auto
      have "m' = m" using "1.prems"(2) [of m] f \<open>\<not> b\<close> by simp
      moreover have "u = ?s"
        using "1.IH" [OF t refl refl False refl f [symmetric] refl less] "1.prems"(2) rec \<open>\<not> b'\<close> by simp
      ultimately show ?thesis using eq split by simp
    qed
  qed
qed

lemma redactGroup_unchanged: "\<not> snd (redactGroup rule m) \<Longrightarrow> fst (redactGroup rule m) = m"
  by (auto simp: redactGroup_def Let_def split: option.splits if_splits prod.splits)

lemma applyRule_unchanged:
  assumes "\<not> snd (applyRule rule (out, b))"
  shows "applyRule rule (out, b) = (out, b) \<and> \<not> b \<and> (ruleGroup rule = 0 \<longrightarrow> \<not> MatchString (ruleRe rule) out)"
proof (cases "ruleGroup rule = 0")
  case True
  with assms show ?thesis by (auto simp: applyRule_def split: if_splits)
next
  case False
  obtain out' b' where r: "replaceAll (ruleRe rule) (redactGroup rule) None out = (out', b')"
    by (cases "replaceAll (ruleRe rule) (redactGroup rule) None out")
  with False assms have "\<not> b" "\<not> b'" by (auto simp: applyRule_def)
  with r redactGroup_unchanged [of rule] have "out' = out"
    using replaceAll_unchanged [of "ruleRe rule" "redactGroup rule" None out] by simp
  with r False \<open>\<not> b\<close> \<open>\<not> b'\<close> show ?thesis by (simp add: applyRule_def)
qed

lemma applyRules_unchanged:
  "\<not> snd (foldl (\<lambda>st rule. applyRule rule st) (out, b) rules) \<Longrightarrow>
   foldl (\<lambda>st rule. applyRule rule st) (out, b) rules = (out, b) \<and> \<not> b \<and>
   (\<forall>rule \<in> set rules. ruleGroup rule = 0 \<longrightarrow> \<not> MatchString (ruleRe rule) out)"
proof (induction rules rule: rev_induct)
  case (snoc rule rules)
  let ?st = "foldl (\<lambda>st rule. applyRule rule st) (out, b) rules"
  have *: "\<not> snd (applyRule rule (fst ?st, snd ?st))" using snoc.prems by simp
  from applyRule_unchanged [OF this] have "applyRule rule ?st = ?st" "\<not> snd ?st"
    and m: "ruleGroup rule = 0 \<longrightarrow> \<not> MatchString (ruleRe rule) (fst ?st)" by simp_all
  with snoc.IH m show ?case by auto
qed simp

text \<open>
  Content scanning is all or nothing. When \<open>Redact\<close> reports that it redacted
  nothing, it returned the content byte for byte, and none of the whole-match rules
  (private keys, cloud and provider tokens, web hooks, JSON web tokens) matches
  anywhere in that content.
\<close>
theorem Redact_not_flagged:
  assumes "\<not> snd (Redact content)"
  shows "fst (Redact content) = content \<and>
    (\<forall>rule \<in> set secretRules. ruleGroup rule = 0 \<longrightarrow> \<not> MatchString (ruleRe rule) content)"
  using applyRules_unchanged [of content False secretRules] assms
  by (auto simp: Redact_def)

theorem Redact_not_flagged_witness:
  "\<not> snd (Redact ''exit status 1'') \<and> fst (Redact ''exit status 1'') = ''exit status 1'' \<and>
   \<not> MatchString awsRe ''exit status 1''"
proof -
  have h: "\<not> snd (Redact ''exit status 1'')" by code_simp
  have "\<lparr>ruleName = ''aws-access-key-id'', ruleRe = awsRe, ruleGroup = 0\<rparr> \<in> set secretRules"
    by (simp add: secretRules_def)
  with Redact_not_flagged [OF h] h show ?thesis by fastforce
qed

end
