(* ===== verification/Wq_Types.thy ===== *)
theory Wq_Types
  imports Policy_Redact
begin

text \<open>
  The vocabulary of the durable work queue (\<open>internal/workqueue/types.go\<close> and the
  row readers of \<open>store.go\<close>): states, reasons, specifications, jobs and results, with
  the validators every operation runs on what it is given and on what it reads back.
  A state or reason outside the declared constants is \<open>StateOther\<close> or \<open>ReasonOther\<close>
  with its text; the empty state is \<open>StateOther []\<close>.
\<close>

subsection \<open>States, reasons and errors\<close>

datatype State =
    StateBlocked | StateQueued | StateLeased | StateSucceeded | StateFailed | StateCancelled
  | StateOther string

datatype Reason =
    ReasonNone | ReasonDependencyPending | ReasonDependencyFailed | ReasonLeaseExpired
  | ReasonRecoveryExhausted | ReasonTaskGoalUnavailable | ReasonCancelled | ReasonCancelRequested
  | ReasonOther string

text \<open>
  One constructor per error text of the operations modelled here. \<open>NilPanic\<close> is the
  run-time panic of a method called on a closed store by an operation that does not
  check for it.
\<close>

datatype wqError =
    NilPanic
  | StoreUnavailable
  | ConfigurationInvalid
  | SpecificationInvalid
  | DependencyInvalid
  | DuplicateDependency
  | DependencyNotFound
  | DependencyPersistenceFailed
  | IdempotencyConflict
  | GlobalBoundReached
  | WorkspaceBoundReached
  | IdentityUnavailable
  | JobPersistenceFailed
  | JobReadFailed
  | JobNotFound
  | JobIdInvalid
  | LeaseRequestInvalid
  | NoJobAvailable
  | LeaseSelectionFailed
  | LeaseLostRace
  | LeasedJobUnavailable
  | HeartbeatInvalid
  | ActiveLeaseNotFound
  | HeartbeatStateUnavailable
  | CompletionInvalid
  | TerminalCompletionConflict
  | StaleCompletion
  | CancelledResultRequired
  | IllegalTransition
  | DependentUnavailable
  | ListLimitInvalid
  | ListResultFailed
  | CleanupRequestInvalid
  | SemanticIntegrityFailed
  | RowBoundExceeded
  | WorkspaceRowBoundExceeded
  | DependencyBoundExceeded
  | ForeignKeyIntegrityFailed
  | OutcomeInvalid
  | ResultInvalid
  | SecretMaterial
  | StoredJobInvalid
  | FairConfigurationInvalid
  | FairSelectionInvalid
  | FairCandidateInvalid
  | DuplicateFairCandidate
  | NoFairCandidate

definition MaxDependencies :: nat where "MaxDependencies = 16"
definition MaxListResults :: int where "MaxListResults = 100"
definition MaxLeaseAttempts :: int where "MaxLeaseAttempts = 4"
definition MinLeaseTTL :: duration where "MinLeaseTTL = 15 * second"
definition MaxLeaseTTL :: duration where "MaxLeaseTTL = 10 * minute"

lemmas limit_defs =
  MaxDependencies_def MaxListResults_def MaxLeaseAttempts_def MinLeaseTTL_def MaxLeaseTTL_def
  second_def minute_def hour_def

subsection \<open>Patterns\<close>

definition controllerPattern :: "string \<Rightarrow> bool" where
  [pattern_defs]: "controllerPattern = headPattern isLowerNum aliasChar 0 63"

definition workspacePattern :: "string \<Rightarrow> bool" where
  [pattern_defs]: "workspacePattern = headPattern isLowerNum aliasChar 0 63"

definition poolPattern :: "string \<Rightarrow> bool" where
  [pattern_defs]: "poolPattern = headPattern isLowerNum aliasChar 0 63"

definition profilePattern :: "string \<Rightarrow> bool" where
  [pattern_defs]: "profilePattern = headPattern isLowerNum aliasChar 0 63"

definition idempotencyPattern :: "string \<Rightarrow> bool" where
  [pattern_defs]: "idempotencyPattern = headPattern isAlnum keyChar 7 127"

definition jobIDPattern :: "string \<Rightarrow> bool" where
  [pattern_defs]: "jobIDPattern = prefixPattern ''wj_'' isHex 32 32"

definition leaseIDPattern :: "string \<Rightarrow> bool" where
  [pattern_defs]: "leaseIDPattern = prefixPattern ''wl_'' isHex 32 32"

definition resultRefPattern :: "string \<Rightarrow> bool" where
  [pattern_defs]: "resultRefPattern = prefixPattern ''rs_'' isHex 32 64"

definition payloadHashPattern :: "string \<Rightarrow> bool" where
  [pattern_defs]: "payloadHashPattern = prefixPattern ''sha256:'' isHex 64 64"

definition holderPattern :: "string \<Rightarrow> bool" where
  [pattern_defs]: "holderPattern = headPattern isAlnum keyChar 7 95"

text \<open>
  \<open>randomID\<close>: sixteen bytes of \<open>crypto/rand\<close> in hexadecimal behind a prefix. The
  bytes are the operation's random input; \<^const>\<open>None\<close> is a failed read.
\<close>

definition randomID :: "string \<Rightarrow> byte list option \<Rightarrow> string option" where
  "randomID p body = map_option (\<lambda>bs. p @ hexEncode bs) body"

text \<open>What \<open>rand.Read\<close> on a sixteen-byte buffer gives back.\<close>

definition randomBody :: "byte list option \<Rightarrow> bool" where
  "randomBody body \<longleftrightarrow> (\<forall>bs. body = Some bs \<longrightarrow> length bs = 16)"

lemma randomID_pattern:
  "randomBody body \<Longrightarrow> randomID p body = Some i \<Longrightarrow> prefixPattern p isHex 32 32 i"
  by (auto simp: randomID_def randomBody_def prefixPattern_append)

lemma leaseIDPattern_not_empty: "leaseIDPattern s \<Longrightarrow> s \<noteq> []"
  by (auto simp: pattern_defs prefixPattern_def)

lemma holderPattern_not_empty: "holderPattern s \<Longrightarrow> s \<noteq> []"
  by (auto simp: pattern_defs)

subsection \<open>Configuration, specification, result\<close>

record Config =
  cfgRoot :: string
  cfgControllerID :: string
  cfgWriters :: int
  cfgMaxJobs :: int
  cfgMaxJobsPerWorkspace :: int

record Spec =
  spIdempotencyKey :: string
  spWorkspace :: string
  spPool :: string
  spProfile :: string
  spPayloadHash :: string
  spDependencies :: "string list"

record Result =
  rsOutcome :: State
  rsSummary :: string
  rsResultRef :: string

definition terminal :: "State \<Rightarrow> bool" where
  "terminal s \<longleftrightarrow> s = StateSucceeded \<or> s = StateFailed \<or> s = StateCancelled"

fun legalTransition :: "State \<Rightarrow> State \<Rightarrow> bool" where
  "legalTransition StateBlocked to = (to = StateQueued \<or> to = StateFailed \<or> to = StateCancelled)"
| "legalTransition StateQueued to = (to = StateLeased \<or> to = StateCancelled)"
| "legalTransition StateLeased to =
     (to = StateQueued \<or> to = StateSucceeded \<or> to = StateFailed \<or> to = StateCancelled)"
| "legalTransition _ to = False"

definition validateConfig :: "Config \<Rightarrow> wqError + Config" where
  "validateConfig config =
     (let c1 = (if cfgWriters config = 0 then config\<lparr>cfgWriters := 1\<rparr> else config);
          c2 = (if cfgMaxJobs c1 = 0 then c1\<lparr>cfgMaxJobs := 1024\<rparr> else c1);
          c3 = (if cfgMaxJobsPerWorkspace c2 = 0 then c2\<lparr>cfgMaxJobsPerWorkspace := 64\<rparr> else c2)
      in if \<not> controllerPattern (cfgControllerID c3) \<or> cfgWriters c3 \<noteq> 1 \<or> cfgMaxJobs c3 < 1 \<or>
            cfgMaxJobs c3 > 4096 \<or> cfgMaxJobsPerWorkspace c3 < 1 \<or>
            cfgMaxJobsPerWorkspace c3 > cfgMaxJobs c3
         then Inl ConfigurationInvalid else Inr c3)"

fun checkDependencies :: "string list \<Rightarrow> string list \<Rightarrow> wqError option" where
  "checkDependencies seen [] = None"
| "checkDependencies seen (d # ds) =
     (if \<not> jobIDPattern d then Some DependencyInvalid
      else if d \<in> set seen then Some DuplicateDependency
      else checkDependencies (d # seen) ds)"

definition validateSpec :: "Spec \<Rightarrow> wqError option" where
  "validateSpec spec =
     (if \<not> idempotencyPattern (spIdempotencyKey spec) \<or> \<not> workspacePattern (spWorkspace spec) \<or>
         \<not> poolPattern (spPool spec) \<or> \<not> profilePattern (spProfile spec) \<or>
         \<not> payloadHashPattern (spPayloadHash spec) \<or> length (spDependencies spec) > MaxDependencies
      then Some SpecificationInvalid
      else checkDependencies [] (spDependencies spec))"

definition canonicalSpec :: "Spec \<Rightarrow> Spec" where
  "canonicalSpec spec =
     (if spDependencies spec = [] then spec
      else spec\<lparr>spDependencies := sort (spDependencies spec)\<rparr>)"

definition validateResult :: "Result \<Rightarrow> wqError option" where
  "validateResult result =
     (if rsOutcome result \<noteq> StateSucceeded \<and> rsOutcome result \<noteq> StateFailed \<and>
         rsOutcome result \<noteq> StateCancelled
      then Some OutcomeInvalid
      else if length (rsSummary result) < 1 \<or> length (rsSummary result) > 2048 \<or>
              (rsResultRef result \<noteq> [] \<and> \<not> resultRefPattern (rsResultRef result))
      then Some ResultInvalid
      else let (redacted, changed) = Redact (rsSummary result)
           in if changed \<or> redacted \<noteq> rsSummary result then Some SecretMaterial else None)"

lemma checkDependencies_None:
  "checkDependencies seen ds = None \<longleftrightarrow>
     list_all jobIDPattern ds \<and> distinct ds \<and> set seen \<inter> set ds = {}"
  by (induction seen ds rule: checkDependencies.induct) auto

lemma terminal_simps [simp]:
  "terminal StateSucceeded" "terminal StateFailed" "terminal StateCancelled"
  "\<not> terminal StateBlocked" "\<not> terminal StateQueued" "\<not> terminal StateLeased"
  "\<not> terminal (StateOther x)"
  by (auto simp: terminal_def)

lemma legalTransition_from_terminal: "terminal s \<Longrightarrow> \<not> legalTransition s to"
  by (auto simp: terminal_def)

end
