(* ===== verification/Wq_Rows.thy ===== *)
theory Wq_Rows
  imports Wq_Types "HOL-Library.Product_Lexorder"
begin

text \<open>
  The tables of the queue and the functions of \<open>internal/workqueue/store.go\<close> that read
  them. A table is the list of its rows; a nullable column is an option; a timestamp column
  holds the nanoseconds of \<open>UnixNano\<close>, which are the time itself in this development.
  The record \<open>queueDB\<close> is extensible, so that an operation on the queue leaves every other
  table of the database as it is.
\<close>

subsection \<open>Rows and jobs\<close>

record jobRow =
  rwID :: string
  rwKey :: string
  rwWorkspace :: string
  rwPool :: string
  rwProfile :: string
  rwPayload :: string
  rwState :: State
  rwReason :: Reason
  rwCreated :: gotime
  rwUpdated :: gotime
  rwCancel :: bool
  rwAttempt :: int
  rwFence :: int
  rwLeaseID :: "string option"
  rwHolder :: "string option"
  rwLeaseUntil :: "gotime option"
  rwOutcome :: "State option"
  rwSummary :: "string option"
  rwResultRef :: "string option"

record queueDB =
  qdJobs :: "jobRow list"
  qdDeps :: "(string \<times> string) list"

record Job =
  jID :: string
  jKey :: string
  jWorkspace :: string
  jPool :: string
  jProfile :: string
  jPayload :: string
  jState :: State
  jReason :: Reason
  jCreated :: gotime
  jUpdated :: gotime
  jCancel :: bool
  jAttempt :: int
  jFence :: nat
  jLeaseID :: string
  jHolder :: string
  jLeaseExpires :: gotime
  jOutcome :: State
  jSummary :: string
  jResultRef :: string

text \<open>The \<open>String\<close> field of a \<open>sql.NullString\<close>: the empty string when NULL.\<close>

definition nullString :: "string option \<Rightarrow> string" where
  "nullString s = (case s of None \<Rightarrow> [] | Some v \<Rightarrow> v)"

definition nullableString :: "string \<Rightarrow> string option" where
  "nullableString value = (if value = [] then None else Some value)"

subsection \<open>Validation of a stored job\<close>

definition jobSpec :: "Job \<Rightarrow> Spec" where
  "jobSpec job = \<lparr>spIdempotencyKey = jKey job, spWorkspace = jWorkspace job, spPool = jPool job,
     spProfile = jProfile job, spPayloadHash = jPayload job, spDependencies = []\<rparr>"

definition jobResult :: "Job \<Rightarrow> Result" where
  "jobResult job = \<lparr>rsOutcome = jOutcome job, rsSummary = jSummary job, rsResultRef = jResultRef job\<rparr>"

definition noLease :: "Job \<Rightarrow> bool" where
  "noLease job \<longleftrightarrow> jLeaseID job = [] \<and> jHolder job = [] \<and> jLeaseExpires job = zeroTime"

definition wholeLease :: "Job \<Rightarrow> bool" where
  "wholeLease job \<longleftrightarrow> leaseIDPattern (jLeaseID job) \<and> holderPattern (jHolder job) \<and>
     jLeaseExpires job \<noteq> zeroTime \<and> jFence job \<noteq> 0"

definition terminalReason :: "State \<Rightarrow> Reason \<Rightarrow> bool" where
  "terminalReason st r =
     (if st = StateSucceeded then r = ReasonNone
      else if st = StateFailed
      then r = ReasonNone \<or> r = ReasonDependencyFailed \<or> r = ReasonRecoveryExhausted \<or>
           r = ReasonTaskGoalUnavailable
      else r = ReasonNone \<or> r = ReasonCancelled)"

definition validateStoredJob :: "Job \<Rightarrow> bool" where
  "validateStoredJob job \<longleftrightarrow>
     jobIDPattern (jID job) \<and> validateSpec (jobSpec job) = None \<and>
     jCreated job \<noteq> zeroTime \<and> jUpdated job \<noteq> zeroTime \<and> jCreated job \<le> jUpdated job \<and>
     0 \<le> jAttempt job \<and>
     (case jState job of
        StateBlocked \<Rightarrow>
          jReason job = ReasonDependencyPending \<and> \<not> jCancel job \<and> noLease job \<and> jOutcome job = StateOther []
      | StateQueued \<Rightarrow>
          (jReason job = ReasonNone \<or> jReason job = ReasonLeaseExpired) \<and> \<not> jCancel job \<and> noLease job \<and>
          jOutcome job = StateOther []
      | StateLeased \<Rightarrow>
          wholeLease job \<and> jOutcome job = StateOther [] \<and>
          jCancel job = (jReason job = ReasonCancelRequested) \<and>
          (jReason job = ReasonNone \<or> jReason job = ReasonCancelRequested)
      | StateOther _ \<Rightarrow> False
      | st \<Rightarrow>
          jOutcome job = st \<and> validateResult (jobResult job) = None \<and>
          (noLease job \<or> wholeLease job) \<and> (st = StateCancelled \<or> \<not> jCancel job) \<and>
          terminalReason st (jReason job))"

definition rowJob :: "jobRow \<Rightarrow> Job" where
  "rowJob r =
     \<lparr>jID = rwID r, jKey = rwKey r, jWorkspace = rwWorkspace r, jPool = rwPool r, jProfile = rwProfile r,
      jPayload = rwPayload r, jState = rwState r, jReason = rwReason r, jCreated = rwCreated r,
      jUpdated = rwUpdated r, jCancel = rwCancel r, jAttempt = rwAttempt r, jFence = nat (rwFence r),
      jLeaseID = nullString (rwLeaseID r), jHolder = nullString (rwHolder r),
      jLeaseExpires = (case rwLeaseUntil r of None \<Rightarrow> zeroTime | Some t \<Rightarrow> t),
      jOutcome = (case rwOutcome r of None \<Rightarrow> StateOther [] | Some st \<Rightarrow> st),
      jSummary = nullString (rwSummary r), jResultRef = nullString (rwResultRef r)\<rparr>"

definition scanJob :: "jobRow \<Rightarrow> wqError + Job" where
  "scanJob r =
     (if rwFence r < 0 then Inl StoredJobInvalid
      else if validateStoredJob (rowJob r) then Inr (rowJob r) else Inl StoredJobInvalid)"

subsection \<open>Reading the tables\<close>

definition jobBy :: "(jobRow \<Rightarrow> bool) \<Rightarrow> 'm queueDB_scheme \<Rightarrow> wqError + Job option" where
  "jobBy p db =
     (case find p (qdJobs db) of
        None \<Rightarrow> Inr None
      | Some r \<Rightarrow> (case scanJob r of Inl _ \<Rightarrow> Inl JobReadFailed | Inr job \<Rightarrow> Inr (Some job)))"

definition jobByID :: "'m queueDB_scheme \<Rightarrow> string \<Rightarrow> wqError + Job option" where
  "jobByID db i = jobBy (\<lambda>r. rwID r = i) db"

definition jobByIdempotency :: "'m queueDB_scheme \<Rightarrow> string \<Rightarrow> wqError + Job option" where
  "jobByIdempotency db key = jobBy (\<lambda>r. rwKey r = key) db"

definition dependencyIDs :: "'m queueDB_scheme \<Rightarrow> string \<Rightarrow> string list" where
  "dependencyIDs db i = sort (map snd (filter (\<lambda>d. fst d = i) (qdDeps db)))"

definition dependentsOf :: "'m queueDB_scheme \<Rightarrow> string \<Rightarrow> string list" where
  "dependentsOf db i = sort (map fst (filter (\<lambda>d. snd d = i) (qdDeps db)))"

definition sameStrings :: "string list \<Rightarrow> string list \<Rightarrow> bool" where
  "sameStrings left right \<longleftrightarrow> length left = length right \<and> sort left = sort right"

definition activeState :: "State \<Rightarrow> bool" where
  "activeState st \<longleftrightarrow> st = StateBlocked \<or> st = StateQueued \<or> st = StateLeased"

text \<open>\<open>UPDATE jobs SET ... WHERE ...\<close>: the number of rows it changes is \<open>rowsAffected\<close>.\<close>

definition updateJobs ::
  "(jobRow \<Rightarrow> bool) \<Rightarrow> (jobRow \<Rightarrow> jobRow) \<Rightarrow> 'm queueDB_scheme \<Rightarrow> 'm queueDB_scheme" where
  "updateJobs p f db = db\<lparr>qdJobs := map (\<lambda>r. if p r then f r else r) (qdJobs db)\<rparr>"

definition rowsAffected :: "(jobRow \<Rightarrow> bool) \<Rightarrow> 'm queueDB_scheme \<Rightarrow> nat" where
  "rowsAffected p db = length (filter p (qdJobs db))"

text \<open>The state in which a job with the given dependencies starts or continues.\<close>

fun dependencyScan :: "'m queueDB_scheme \<Rightarrow> bool \<Rightarrow> string list \<Rightarrow> wqError + (State \<times> Reason)" where
  "dependencyScan db blocked [] =
     Inr (if blocked then (StateBlocked, ReasonDependencyPending) else (StateQueued, ReasonNone))"
| "dependencyScan db blocked (d # ds) =
     (case jobByID db d of
        Inl e \<Rightarrow> Inl e
      | Inr None \<Rightarrow> Inl DependencyNotFound
      | Inr (Some job) \<Rightarrow>
          if jState job = StateSucceeded then dependencyScan db blocked ds
          else if jState job = StateFailed \<or> jState job = StateCancelled
          then Inr (StateFailed, ReasonDependencyFailed)
          else dependencyScan db True ds)"

definition dependencyState :: "'m queueDB_scheme \<Rightarrow> string list \<Rightarrow> wqError + (State \<times> Reason)" where
  "dependencyState db dependencies =
     (if dependencies = [] then Inr (StateQueued, ReasonNone) else dependencyScan db False dependencies)"

end
