(* ===== verification/Wq_Fairness.thy ===== *)
theory Wq_Fairness
  imports Wq_Types "HOL-Library.Product_Lexorder"
begin

text \<open>
  The fair scheduler (\<open>internal/workqueue/fairness.go\<close>): deficit round robin over the
  workspaces that have a queued job, with an aging rule that serves the oldest
  candidate first once it has waited for the aging limit.
\<close>

subsection \<open>State and candidates\<close>

record FairConfig =
  fcfgQuantum :: int
  fcfgAgingLimit :: duration

record FairCandidate =
  fcJobID :: string
  fcWorkspace :: string
  fcCost :: int
  fcCreatedAt :: gotime

record FairScheduler =
  fsConfig :: FairConfig
  fsDeficits :: "string \<Rightarrow> int option"
  fsCursor :: string

definition maxResourceValue :: int where
  "maxResourceValue = 1000000000"

definition NewFairScheduler :: "FairConfig \<Rightarrow> wqError + FairScheduler" where
  "NewFairScheduler config =
     (if fcfgQuantum config < 1 \<or> fcfgQuantum config > maxResourceValue \<or>
         fcfgAgingLimit config < second \<or> fcfgAgingLimit config > 24 * hour
      then Inl FairConfigurationInvalid
      else Inr \<lparr>fsConfig = config, fsDeficits = Map.empty, fsCursor = []\<rparr>)"

subsection \<open>Select\<close>

definition validCandidate :: "gotime \<Rightarrow> FairCandidate \<Rightarrow> bool" where
  "validCandidate now c \<longleftrightarrow>
     jobIDPattern (fcJobID c) \<and> workspacePattern (fcWorkspace c) \<and> 1 \<le> fcCost c \<and>
     fcCost c \<le> maxResourceValue \<and> fcCreatedAt c \<noteq> zeroTime \<and> fcCreatedAt c \<le> now"

fun checkCandidates :: "gotime \<Rightarrow> string list \<Rightarrow> FairCandidate list \<Rightarrow> wqError option" where
  "checkCandidates now seen [] = None"
| "checkCandidates now seen (c # cs) =
     (if \<not> validCandidate now c then Some FairCandidateInvalid
      else if fcJobID c \<in> set seen then Some DuplicateFairCandidate
      else checkCandidates now (fcJobID c # seen) cs)"

definition candidateKey :: "FairCandidate \<Rightarrow> gotime \<times> string" where
  "candidateKey c = (fcCreatedAt c, fcJobID c)"

text \<open>The queue of one workspace, oldest first, ties broken by the job identifier.\<close>

definition queueOf :: "FairCandidate list \<Rightarrow> string \<Rightarrow> FairCandidate list" where
  "queueOf cs w = sort_key candidateKey (filter (\<lambda>c. fcWorkspace c = w) cs)"

definition workspacesOf :: "FairCandidate list \<Rightarrow> string list" where
  "workspacesOf cs = sort (remdups (map fcWorkspace cs))"

definition older :: "FairCandidate \<Rightarrow> FairCandidate \<Rightarrow> bool" where
  "older c d \<longleftrightarrow> fcCreatedAt c < fcCreatedAt d \<or> fcCreatedAt c = fcCreatedAt d \<and> fcJobID c < fcJobID d"

text \<open>The aging pass over the heads of the queues, in workspace order.\<close>

fun agedCandidate ::
  "gotime \<Rightarrow> duration \<Rightarrow> FairCandidate option \<Rightarrow> FairCandidate list \<Rightarrow> FairCandidate option" where
  "agedCandidate now limit aged [] = aged"
| "agedCandidate now limit aged (c # heads) =
     (if now - fcCreatedAt c < limit then agedCandidate now limit aged heads
      else case aged of
        None \<Rightarrow> agedCandidate now limit (Some c) heads
      | Some a \<Rightarrow> agedCandidate now limit (if older c a then Some c else Some a) heads)"

definition startIndex :: "string list \<Rightarrow> string \<Rightarrow> nat" where
  "startIndex ws cursor =
     (if cursor = [] then 0
      else let i = length (takeWhile (\<lambda>w. w < cursor) ws)
           in if i < length ws \<and> ws ! i = cursor then (i + 1) mod length ws else 0)"

definition credit :: "int \<Rightarrow> int \<Rightarrow> int" where
  "credit quantum deficit =
     (if deficit > maxResourceValue - quantum then maxResourceValue else deficit + quantum)"

text \<open>Reading a missing key of the Go map gives 0.\<close>

definition deficitOf :: "(string \<Rightarrow> int option) \<Rightarrow> string \<Rightarrow> int" where
  "deficitOf ds w = (case ds w of None \<Rightarrow> 0 | Some d \<Rightarrow> d)"

fun offerRound ::
  "int \<Rightarrow> (string \<Rightarrow> FairCandidate) \<Rightarrow> (string \<Rightarrow> int option) \<Rightarrow> string list \<Rightarrow>
   (string \<Rightarrow> int option) \<times> FairCandidate option" where
  "offerRound quantum head ds [] = (ds, None)"
| "offerRound quantum head ds (w # ws) =
     (let deficit = credit quantum (deficitOf ds w); c = head w
      in if fcCost c \<le> deficit then (ds(w \<mapsto> deficit - fcCost c), Some c)
         else offerRound quantum head (ds(w \<mapsto> deficit)) ws)"

fun offerRounds ::
  "nat \<Rightarrow> int \<Rightarrow> (string \<Rightarrow> FairCandidate) \<Rightarrow> (string \<Rightarrow> int option) \<Rightarrow> string list \<Rightarrow>
   (string \<Rightarrow> int option) \<times> FairCandidate option" where
  "offerRounds 0 quantum head ds ws = (ds, None)"
| "offerRounds (Suc n) quantum head ds ws =
     (case offerRound quantum head ds ws of
        (ds', Some c) \<Rightarrow> (ds', Some c)
      | (ds', None) \<Rightarrow> offerRounds n quantum head ds' ws)"

definition Select ::
  "FairScheduler \<Rightarrow> gotime \<Rightarrow> FairCandidate list \<Rightarrow> FairScheduler \<times> (wqError + FairCandidate)" where
  "Select s now cs =
     (if now = zeroTime \<or> cs = [] \<or> length cs > 4096 then (s, Inl FairSelectionInvalid)
      else case checkCandidates now [] cs of
        Some e \<Rightarrow> (s, Inl e)
      | None \<Rightarrow>
         (let ws = workspacesOf cs;
              s1 = s\<lparr>fsDeficits := (\<lambda>w. if w \<in> set ws then fsDeficits s w else None)\<rparr>;
              head = (\<lambda>w. hd (queueOf cs w))
          in case agedCandidate now (fcfgAgingLimit (fsConfig s)) None (map head ws) of
               Some a \<Rightarrow> (s1\<lparr>fsCursor := fcWorkspace a\<rparr>, Inr a)
             | None \<Rightarrow>
                (case offerRounds (length ws + 1) (fcfgQuantum (fsConfig s)) head (fsDeficits s1)
                        (rotate (startIndex ws (fsCursor s)) ws) of
                   (ds, Some c) \<Rightarrow> (s1\<lparr>fsDeficits := ds, fsCursor := fcWorkspace c\<rparr>, Inr c)
                 | (ds, None) \<Rightarrow> (s1\<lparr>fsDeficits := ds\<rparr>, Inl NoFairCandidate))))"

subsection \<open>Queues and the aging pass\<close>

lemma checkCandidates_None:
  "checkCandidates now seen cs = None \<longleftrightarrow>
     (\<forall>c \<in> set cs. validCandidate now c) \<and> distinct (map fcJobID cs) \<and> set seen \<inter> fcJobID ` set cs = {}"
  by (induction now seen cs rule: checkCandidates.induct) auto

lemma set_workspacesOf [simp]: "set (workspacesOf cs) = fcWorkspace ` set cs"
  by (simp add: workspacesOf_def)

lemma distinct_workspacesOf [simp]: "distinct (workspacesOf cs)"
  by (simp add: workspacesOf_def)

lemma sorted_workspacesOf [simp]: "sorted (workspacesOf cs)"
  by (simp add: workspacesOf_def)

lemma queueOf_hd:
  assumes "w \<in> fcWorkspace ` set cs"
  shows "hd (queueOf cs w) \<in> set cs \<and> fcWorkspace (hd (queueOf cs w)) = w \<and>
    (\<forall>d \<in> set cs. fcWorkspace d = w \<longrightarrow> candidateKey (hd (queueOf cs w)) \<le> candidateKey d)"
proof -
  have set: "set (queueOf cs w) = {c \<in> set cs. fcWorkspace c = w}"
    by (auto simp: queueOf_def)
  with assms have "queueOf cs w \<noteq> []" by fastforce
  then obtain c q where q: "queueOf cs w = c # q"
    by (cases "queueOf cs w") auto
  have "sorted (map candidateKey (queueOf cs w))"
    by (simp add: queueOf_def)
  with q have "\<forall>d \<in> set (queueOf cs w). candidateKey c \<le> candidateKey d"
    by auto
  with q set show ?thesis by auto
qed

lemma older_key: "older c d \<longleftrightarrow> candidateKey c < candidateKey d"
  by (auto simp: older_def candidateKey_def less_prod_def)

lemma agedCandidate_spec:
  "agedCandidate now limit aged heads = r \<Longrightarrow>
   (case r of
      None \<Rightarrow> aged = None \<and> (\<forall>c \<in> set heads. now - fcCreatedAt c < limit)
    | Some a \<Rightarrow>
        (aged = Some a \<or> a \<in> set heads \<and> limit \<le> now - fcCreatedAt a) \<and>
        (\<forall>c \<in> set heads. limit \<le> now - fcCreatedAt c \<longrightarrow> candidateKey a \<le> candidateKey c) \<and>
        (\<forall>b. aged = Some b \<longrightarrow> candidateKey a \<le> candidateKey b))"
proof (induction now limit aged heads arbitrary: r rule: agedCandidate.induct)
  case (1 now limit aged)
  then show ?case by (auto split: option.splits)
next
  case (2 now limit aged c heads)
  show ?case
  proof (cases "now - fcCreatedAt c < limit")
    case True
    with 2 show ?thesis by (auto split: option.splits)
  next
    case False
    show ?thesis
    proof (cases aged)
      case None
      have *: "agedCandidate now limit (Some c) heads = r"
        using "2.prems" False None by simp
      show ?thesis
        using "2.IH"(2) [OF False None *] False None by (auto split: option.splits)
    next
      case (Some b)
      have *: "agedCandidate now limit (if older c b then Some c else Some b) heads = r"
        using "2.prems" False Some by simp
      show ?thesis
        using "2.IH"(3) [OF False Some *] False Some
        by (auto simp: older_key split: option.splits if_splits)
    qed
  qed
qed

subsection \<open>Offering rounds\<close>

definition deficitsOk :: "(string \<Rightarrow> int option) \<Rightarrow> bool" where
  "deficitsOk ds \<longleftrightarrow> (\<forall>w d. ds w = Some d \<longrightarrow> 0 \<le> d \<and> d \<le> maxResourceValue)"

definition fairOk :: "FairScheduler \<Rightarrow> bool" where
  "fairOk s \<longleftrightarrow> 1 \<le> fcfgQuantum (fsConfig s) \<and> fcfgQuantum (fsConfig s) \<le> maxResourceValue \<and>
     deficitsOk (fsDeficits s)"

lemma credit_bounds:
  "1 \<le> q \<Longrightarrow> q \<le> maxResourceValue \<Longrightarrow> 0 \<le> d \<Longrightarrow> d \<le> maxResourceValue \<Longrightarrow>
   credit q d \<le> maxResourceValue \<and> min maxResourceValue (d + q) \<le> credit q d \<and> 0 \<le> credit q d"
  by (auto simp: credit_def)

lemma deficitOf_bounds:
  "deficitsOk ds \<Longrightarrow> 0 \<le> deficitOf ds w \<and> deficitOf ds w \<le> maxResourceValue"
  by (auto simp: deficitsOk_def deficitOf_def maxResourceValue_def split: option.splits)

lemma deficitsOk_upd:
  "deficitsOk ds \<Longrightarrow> 0 \<le> d \<Longrightarrow> d \<le> maxResourceValue \<Longrightarrow> deficitsOk (ds(w \<mapsto> d))"
  by (auto simp: deficitsOk_def)

lemma deficitOf_upd: "deficitOf (ds(w \<mapsto> d)) v = (if v = w then d else deficitOf ds v)"
  by (simp add: deficitOf_def)

lemma offerRound_deficitsOk:
  "offerRound q head ds ws = (ds', r) \<Longrightarrow> deficitsOk ds \<Longrightarrow> 1 \<le> q \<Longrightarrow> q \<le> maxResourceValue \<Longrightarrow>
   (\<And>w. w \<in> set ws \<Longrightarrow> 1 \<le> fcCost (head w)) \<Longrightarrow> deficitsOk ds'"
proof (induction q head ds ws rule: offerRound.induct)
  case (2 q head ds w ws)
  let ?d = "credit q (deficitOf ds w)"
  have d: "0 \<le> ?d" "?d \<le> maxResourceValue"
    using credit_bounds deficitOf_bounds "2.prems"(2,3,4) by blast+
  have cost: "1 \<le> fcCost (head w)" using "2.prems"(5) by simp
  show ?case
  proof (cases "fcCost (head w) \<le> ?d")
    case True
    then have "ds' = ds(w \<mapsto> ?d - fcCost (head w))"
      using "2.prems"(1) by (simp add: Let_def)
    moreover have "deficitsOk (ds(w \<mapsto> ?d - fcCost (head w)))"
      by (rule deficitsOk_upd) (use True d cost "2.prems"(2) in linarith)+
    ultimately show ?thesis by (simp only:)
  next
    case False
    then have rec: "offerRound q head (ds(w \<mapsto> ?d)) ws = (ds', r)"
      using "2.prems"(1) by (simp add: Let_def)
    have ok: "deficitsOk (ds(w \<mapsto> ?d))"
      using d "2.prems"(2) by (intro deficitsOk_upd)
    show ?thesis
      by (rule "2.IH" [OF refl refl False rec ok "2.prems"(3,4)]) (simp add: "2.prems"(5))
  qed
qed simp

lemma offerRound_Some:
  "offerRound q head ds ws = (ds', Some c) \<Longrightarrow> \<exists>w \<in> set ws. c = head w"
  by (induction q head ds ws rule: offerRound.induct) (auto simp: Let_def split: if_splits)

lemma offerRound_None:
  "offerRound q head ds ws = (ds', None) \<Longrightarrow> distinct ws \<Longrightarrow>
   (\<forall>w \<in> set ws. deficitOf ds' w = credit q (deficitOf ds w) \<and> deficitOf ds' w < fcCost (head w)) \<and>
   (\<forall>w. w \<notin> set ws \<longrightarrow> ds' w = ds w)"
proof (induction q head ds ws rule: offerRound.induct)
  case (2 q head ds w ws)
  let ?d = "credit q (deficitOf ds w)"
  have less: "\<not> fcCost (head w) \<le> ?d"
    and rec: "offerRound q head (ds(w \<mapsto> ?d)) ws = (ds', None)"
    using "2.prems"(1) by (auto simp: Let_def split: if_splits)
  note IH = "2.IH" [OF refl refl less rec]
  have ws: "w \<notin> set ws" "distinct ws" using "2.prems"(2) by auto
  have w: "ds' w = Some ?d" using IH [OF ws(2)] ws(1) by simp
  then have "deficitOf ds' w = ?d" by (simp add: deficitOf_def)
  moreover have "\<forall>v \<in> set ws. deficitOf ds' v = credit q (deficitOf ds v) \<and> deficitOf ds' v < fcCost (head v)"
    using IH [OF ws(2), THEN conjunct1] ws(1) unfolding deficitOf_upd by metis
  moreover have "\<forall>v. v \<notin> set (w # ws) \<longrightarrow> ds' v = ds v"
    using IH [OF ws(2), THEN conjunct2] by simp
  ultimately show ?case using less by auto
qed simp

lemma offerRounds_Some:
  "offerRounds n q head ds ws = (ds', Some c) \<Longrightarrow> \<exists>w \<in> set ws. c = head w"
  by (induction n q head ds ws rule: offerRounds.induct)
    (auto split: prod.splits option.splits dest: offerRound_Some)

lemma offerRounds_deficitsOk:
  "offerRounds n q head ds ws = (ds', r) \<Longrightarrow> deficitsOk ds \<Longrightarrow> 1 \<le> q \<Longrightarrow> q \<le> maxResourceValue \<Longrightarrow>
   (\<And>w. w \<in> set ws \<Longrightarrow> 1 \<le> fcCost (head w)) \<Longrightarrow> deficitsOk ds'"
proof (induction n q head ds ws rule: offerRounds.induct)
  case (2 n q head ds ws)
  obtain ds1 r1 where r1: "offerRound q head ds ws = (ds1, r1)" by (cases "offerRound q head ds ws")
  have ok: "deficitsOk ds1"
    using offerRound_deficitsOk [OF r1] "2.prems" by blast
  show ?case
  proof (cases r1)
    case None
    then show ?thesis using 2 r1 ok by auto
  next
    case (Some c)
    then show ?thesis using "2.prems"(1) r1 ok by auto
  qed
qed simp

text \<open>Every unsuccessful round adds one quantum to each deficit, up to the cap.\<close>

lemma offerRounds_None:
  "offerRounds n q head ds ws = (ds', None) \<Longrightarrow> distinct ws \<Longrightarrow> deficitsOk ds \<Longrightarrow>
   1 \<le> q \<Longrightarrow> q \<le> maxResourceValue \<Longrightarrow> (\<And>w. w \<in> set ws \<Longrightarrow> 1 \<le> fcCost (head w)) \<Longrightarrow>
   w \<in> set ws \<Longrightarrow> 0 < n \<Longrightarrow>
   min maxResourceValue (deficitOf ds w + int n * q) < fcCost (head w)"
proof (induction n q head ds ws rule: offerRounds.induct)
  case (2 n q head ds ws)
  obtain ds1 where r1: "offerRound q head ds ws = (ds1, None)"
    and rest: "offerRounds n q head ds1 ws = (ds', None)"
    using "2.prems"(1) by (auto split: prod.splits option.splits)
  have ok: "deficitsOk ds1"
    using offerRound_deficitsOk [OF r1] "2.prems"(3-6) by blast
  have one: "deficitOf ds1 w = credit q (deficitOf ds w)" "deficitOf ds1 w < fcCost (head w)"
    using offerRound_None [OF r1 "2.prems"(2)] "2.prems"(7) by auto
  have bnd: "min maxResourceValue (deficitOf ds w + q) \<le> deficitOf ds1 w"
    using credit_bounds deficitOf_bounds one(1) "2.prems"(3-5) by metis
  show ?case
  proof (cases n)
    case 0
    with bnd one(2) show ?thesis by simp
  next
    case (Suc m)
    have "min maxResourceValue (deficitOf ds1 w + int n * q) < fcCost (head w)"
      using "2.IH" [OF r1 [symmetric] refl rest "2.prems"(2) ok "2.prems"(4,5,6,7)] Suc by simp
    moreover have "0 \<le> int n * q" using "2.prems"(4) by simp
    moreover have "int (Suc n) * q = q + int n * q" by (simp add: algebra_simps)
    ultimately show ?thesis using bnd by linarith
  qed
qed simp

subsection \<open>What Select promises\<close>

definition selectable :: "gotime \<Rightarrow> FairCandidate list \<Rightarrow> bool" where
  "selectable now cs \<longleftrightarrow> now \<noteq> zeroTime \<and> cs \<noteq> [] \<and> length cs \<le> 4096 \<and>
     (\<forall>c \<in> set cs. validCandidate now c) \<and> distinct (map fcJobID cs)"

lemma selectable_check:
  "selectable now cs \<longleftrightarrow> \<not> (now = zeroTime \<or> cs = [] \<or> length cs > 4096) \<and> checkCandidates now [] cs = None"
  by (auto simp: selectable_def checkCandidates_None)

lemma head_in:
  "w \<in> set (workspacesOf cs) \<Longrightarrow> hd (queueOf cs w) \<in> set cs \<and> fcWorkspace (hd (queueOf cs w)) = w"
  using queueOf_hd [of w cs] by auto

lemma head_least:
  "w \<in> set (workspacesOf cs) \<Longrightarrow> d \<in> set cs \<Longrightarrow> fcWorkspace d = w \<Longrightarrow>
   candidateKey (hd (queueOf cs w)) \<le> candidateKey d"
  using queueOf_hd [of w cs] by auto

lemma head_cost:
  "selectable now cs \<Longrightarrow> w \<in> set (workspacesOf cs) \<Longrightarrow> 1 \<le> fcCost (hd (queueOf cs w))"
  using head_in [of w cs] by (auto simp: selectable_def validCandidate_def)

text \<open>The three ways a selection of valid candidates ends.\<close>

lemma Select_cases:
  assumes "selectable now cs"
  obtains (aged) a where
      "agedCandidate now (fcfgAgingLimit (fsConfig s)) None (map (\<lambda>w. hd (queueOf cs w)) (workspacesOf cs)) = Some a"
      "snd (Select s now cs) = Inr a" "fsCursor (fst (Select s now cs)) = fcWorkspace a"
  | (served) ds c where
      "agedCandidate now (fcfgAgingLimit (fsConfig s)) None (map (\<lambda>w. hd (queueOf cs w)) (workspacesOf cs)) = None"
      "offerRounds (length (workspacesOf cs) + 1) (fcfgQuantum (fsConfig s)) (\<lambda>w. hd (queueOf cs w))
         (\<lambda>w. if w \<in> set (workspacesOf cs) then fsDeficits s w else None)
         (rotate (startIndex (workspacesOf cs) (fsCursor s)) (workspacesOf cs)) = (ds, Some c)"
      "snd (Select s now cs) = Inr c" "fsCursor (fst (Select s now cs)) = fcWorkspace c"
  | (refused) ds where
      "agedCandidate now (fcfgAgingLimit (fsConfig s)) None (map (\<lambda>w. hd (queueOf cs w)) (workspacesOf cs)) = None"
      "offerRounds (length (workspacesOf cs) + 1) (fcfgQuantum (fsConfig s)) (\<lambda>w. hd (queueOf cs w))
         (\<lambda>w. if w \<in> set (workspacesOf cs) then fsDeficits s w else None)
         (rotate (startIndex (workspacesOf cs) (fsCursor s)) (workspacesOf cs)) = (ds, None)"
      "snd (Select s now cs) = Inl NoFairCandidate"
proof -
  have c: "\<not> (now = zeroTime \<or> cs = [] \<or> length cs > 4096)" "checkCandidates now [] cs = None"
    using assms by (simp_all add: selectable_check)
  show thesis
  proof (cases "agedCandidate now (fcfgAgingLimit (fsConfig s)) None
      (map (\<lambda>w. hd (queueOf cs w)) (workspacesOf cs))")
    case (Some a)
    with c show thesis by (intro aged [OF Some]) (simp_all add: Select_def Let_def)
  next
    case None
    obtain ds r where o: "offerRounds (length (workspacesOf cs) + 1) (fcfgQuantum (fsConfig s)) (\<lambda>w. hd (queueOf cs w))
         (\<lambda>w. if w \<in> set (workspacesOf cs) then fsDeficits s w else None)
         (rotate (startIndex (workspacesOf cs) (fsCursor s)) (workspacesOf cs)) = (ds, r)"
      by fastforce
    show thesis
    proof (cases r)
      case None': None
      from o None' None c show thesis
        by (intro refused [OF None]) (simp_all add: Select_def Let_def)
    next
      case (Some c')
      from o Some None c show thesis
        by (intro served [OF None]) (simp_all add: Select_def Let_def)
    qed
  qed
qed

lemma Select_head:
  assumes "selectable now cs" and "snd (Select s now cs) = Inr c"
  obtains w where "w \<in> set (workspacesOf cs)" and "c = hd (queueOf cs w)"
proof (cases rule: Select_cases [OF assms(1), of s])
  case (1 a)
  have "a \<in> set (map (\<lambda>w. hd (queueOf cs w)) (workspacesOf cs))"
    using agedCandidate_spec [OF 1(1)] by auto
  with 1 assms(2) that show thesis by auto
next
  case (2 ds d)
  with offerRounds_Some [OF 2(2)] assms(2) that show thesis by auto
next
  case 3
  with assms(2) show thesis by simp
qed

lemma Select_refused:
  assumes "selectable now cs" "fairOk s" "w \<in> set (workspacesOf cs)" "snd (Select s now cs) = Inl e"
  shows "min maxResourceValue (int (length (workspacesOf cs) + 1) * fcfgQuantum (fsConfig s))
    < fcCost (hd (queueOf cs w))"
proof (cases rule: Select_cases [OF assms(1), of s])
  case (3 ds)
  let ?ds = "\<lambda>w. if w \<in> set (workspacesOf cs) then fsDeficits s w else None"
  have ok: "deficitsOk ?ds" using assms(2) by (auto simp: fairOk_def deficitsOk_def)
  have "min maxResourceValue (deficitOf ?ds w + int (length (workspacesOf cs) + 1) * fcfgQuantum (fsConfig s))
    < fcCost (hd (queueOf cs w))"
    by (rule offerRounds_None [OF 3(2)])
      (use assms ok head_cost [OF assms(1)] in \<open>auto simp: fairOk_def\<close>)
  with deficitOf_bounds [OF ok, of w] show ?thesis by linarith
qed (use assms in auto)

text \<open>
  a selection among valid candidates never reorders the jobs of one workspace: the job it
  returns is one of the candidates and no candidate of the same workspace comes before it in
  the order of creation time and identifier.
\<close>

theorem Select_fifo:
  assumes "selectable now cs" and "snd (Select s now cs) = Inr c"
  shows "c \<in> set cs \<and> (\<forall>d \<in> set cs. fcWorkspace d = fcWorkspace c \<longrightarrow> candidateKey c \<le> candidateKey d)"
proof -
  obtain w where "w \<in> set (workspacesOf cs)" "c = hd (queueOf cs w)"
    using Select_head [OF assms] .
  then show ?thesis using queueOf_hd [of w cs] by simp
qed

text \<open>
  C25: once a candidate has waited for the aging limit, the selection serves the candidate that
  is first of all in the order of creation time and identifier, whatever the deficits and the
  cursor are. From then on a job can be overtaken only by candidates created before it, or
  at the same time with a smaller identifier.
\<close>

theorem Select_aged_first:
  assumes "selectable now cs" and "d \<in> set cs" and "fcfgAgingLimit (fsConfig s) \<le> now - fcCreatedAt d"
  shows "\<exists>a \<in> set cs. snd (Select s now cs) = Inr a \<and> (\<forall>c \<in> set cs. candidateKey a \<le> candidateKey c)"
proof (cases rule: Select_cases [OF assms(1), of s])
  case (1 a)
  let ?heads = "map (\<lambda>w. hd (queueOf cs w)) (workspacesOf cs)"
  have a: "a \<in> set ?heads" and limit: "fcfgAgingLimit (fsConfig s) \<le> now - fcCreatedAt a"
    and least: "\<forall>c \<in> set ?heads. fcfgAgingLimit (fsConfig s) \<le> now - fcCreatedAt c \<longrightarrow> candidateKey a \<le> candidateKey c"
    using agedCandidate_spec [OF 1(1)] by auto
  have "candidateKey a \<le> candidateKey c" if c: "c \<in> set cs" for c
  proof -
    let ?h = "hd (queueOf cs (fcWorkspace c))"
    have h: "candidateKey ?h \<le> candidateKey c" "?h \<in> set ?heads"
      using queueOf_hd [of "fcWorkspace c" cs] c by auto
    then show ?thesis
      using least limit by (fastforce simp: candidateKey_def less_eq_prod_def)
  qed
  with 1 a head_in show ?thesis by auto
next
  case (2 ds c)
  then show ?thesis using agedCandidate_spec [OF 2(1)] assms(2,3) queueOf_hd [of "fcWorkspace d" cs]
    by (fastforce simp: candidateKey_def less_eq_prod_def)
next
  case (3 ds)
  then show ?thesis using agedCandidate_spec [OF 3(1)] assms(2,3) queueOf_hd [of "fcWorkspace d" cs]
    by (fastforce simp: candidateKey_def less_eq_prod_def)
qed

text \<open>
  C26: with a scheduler whose deficits are within their bounds, a selection among valid
  candidates returns one whenever the oldest job of some workspace costs at most one quantum for
  each of the rounds the loop makes.
\<close>

theorem Select_serves:
  assumes "selectable now cs" and "fairOk s" and "w \<in> set (workspacesOf cs)"
    and "fcCost (hd (queueOf cs w)) \<le> int (length (workspacesOf cs) + 1) * fcfgQuantum (fsConfig s)"
  shows "\<exists>c. snd (Select s now cs) = Inr c"
proof (cases "snd (Select s now cs)")
  case (Inl e)
  have "fcCost (hd (queueOf cs w)) \<le> maxResourceValue"
    using assms(1) head_in [OF assms(3)] by (auto simp: selectable_def validCandidate_def)
  with Select_refused [OF assms(1-3) Inl] assms(4) show ?thesis by linarith
qed auto

lemma fairOk_upd:
  "fairOk s \<Longrightarrow> deficitsOk ds \<Longrightarrow> fairOk (s\<lparr>fsDeficits := ds\<rparr>)"
  by (simp add: fairOk_def)

lemma fairOk_cursor [simp]: "fairOk (s\<lparr>fsCursor := c\<rparr>) = fairOk s"
  by (simp add: fairOk_def)

lemma deficitsOk_restrict: "deficitsOk ds \<Longrightarrow> deficitsOk (\<lambda>w. if P w then ds w else None)"
  by (simp add: deficitsOk_def)

lemma Select_config [simp]: "fsConfig (fst (Select s now cs)) = fsConfig s"
  by (auto simp: Select_def Let_def split: option.splits prod.splits)

lemma Select_fairOk:
  assumes ok: "fairOk s"
  shows "fairOk (fst (Select s now cs))"
proof (cases "selectable now cs")
  case True
  let ?ds = "\<lambda>w. if w \<in> set (workspacesOf cs) then fsDeficits s w else None"
  have ds: "deficitsOk ?ds" using ok by (intro deficitsOk_restrict) (simp add: fairOk_def)
  have rounds: "deficitsOk ds'"
    if "offerRounds n (fcfgQuantum (fsConfig s)) (\<lambda>w. hd (queueOf cs w)) ?ds (rotate i (workspacesOf cs)) = (ds', r)"
    for n i ds' r
    by (rule offerRounds_deficitsOk [OF that ds]) (use ok head_cost [OF True] in \<open>auto simp: fairOk_def\<close>)
  show ?thesis
    using ok ds rounds True
    by (auto simp: Select_def Let_def selectable_check fairOk_upd simp del: offerRounds.simps
        split: option.splits prod.splits)
next
  case False
  then show ?thesis using ok by (auto simp: Select_def selectable_check split: option.splits)
qed

text \<open>
  C27: every scheduler the constructor returns has its deficits within their bounds, and every
  selection, successful or not, keeps them so: a deficit stays between 0 and the resource
  maximum, and the configuration never changes.
\<close>

theorem Select_deficits_bounded:
  "(NewFairScheduler config = Inr s0 \<longrightarrow> fairOk s0) \<and>
   (fairOk s \<longrightarrow> fairOk (fst (Select s now cs))) \<and> fsConfig (fst (Select s now cs)) = fsConfig s"
proof (intro conjI impI)
  show "fairOk s0" if "NewFairScheduler config = Inr s0"
    using that by (auto simp: NewFairScheduler_def fairOk_def deficitsOk_def split: if_splits)
qed (simp_all add: Select_fairOk)

subsection \<open>Round robin\<close>

lemma startIndex_less: "ws \<noteq> [] \<Longrightarrow> startIndex ws cursor < length ws"
  by (simp add: startIndex_def Let_def)

lemma takeWhile_less_nth:
  fixes ws :: "string list"
  assumes "sorted ws" "distinct ws" "i < length ws"
  shows "length (takeWhile (\<lambda>w. w < ws ! i) ws) = i"
proof -
  have "takeWhile (\<lambda>w. w < ws ! i) ws = take i ws"
  proof (rule takeWhile_eq_take_P_nth)
    fix j assume j: "j < i" "j < length ws"
    have "ws ! j \<le> ws ! i" using assms(1,3) j by (simp add: sorted_nth_mono)
    moreover have "ws ! j \<noteq> ws ! i" using assms(2,3) j by (simp add: nth_eq_iff_index_eq)
    ultimately show "ws ! j < ws ! i" by simp
  qed simp
  then show ?thesis using assms(3) by simp
qed

lemma startIndex_nth:
  assumes "sorted ws" "distinct ws" "i < length ws" "ws ! i \<noteq> []"
  shows "startIndex ws (ws ! i) = (i + 1) mod length ws"
  using assms takeWhile_less_nth [OF assms(1-3)] by (simp add: startIndex_def)

lemma offerRounds_first:
  assumes "ws \<noteq> []" "fcCost (head (hd ws)) \<le> credit q (deficitOf ds (hd ws))"
  shows "snd (offerRounds (Suc n) q head ds ws) = Some (head (hd ws))"
  using assms by (cases ws) (auto simp: Let_def)

definition freshUnit :: "FairScheduler \<Rightarrow> gotime \<Rightarrow> FairCandidate list \<Rightarrow> bool" where
  "freshUnit s now cs \<longleftrightarrow> (\<forall>c \<in> set cs. now - fcCreatedAt c < fcfgAgingLimit (fsConfig s) \<and>
     fcCost c \<le> fcfgQuantum (fsConfig s))"

lemma Select_next:
  assumes "selectable now cs" and "fairOk s" and "freshUnit s now cs"
  shows "\<exists>c. snd (Select s now cs) = Inr c \<and> fsCursor (fst (Select s now cs)) = fcWorkspace c \<and>
    fcWorkspace c = workspacesOf cs ! startIndex (workspacesOf cs) (fsCursor s)"
proof -
  let ?ws = "workspacesOf cs" let ?i = "startIndex ?ws (fsCursor s)"
  let ?ds = "\<lambda>w. if w \<in> set ?ws then fsDeficits s w else None"
  have "cs \<noteq> []" using assms(1) by (simp add: selectable_def)
  then have "set ?ws \<noteq> {}" by simp
  then have ws: "?ws \<noteq> []" by force
  then have hd: "hd (rotate ?i ?ws) = ?ws ! ?i"
    using startIndex_less [OF ws] by (simp add: hd_rotate_conv_nth)
  have in_ws: "?ws ! ?i \<in> set ?ws" using startIndex_less [OF ws] nth_mem by blast
  have cost: "fcCost (hd (queueOf cs (?ws ! ?i))) \<le> credit (fcfgQuantum (fsConfig s)) (deficitOf ?ds (?ws ! ?i))"
  proof -
    have "deficitsOk ?ds" using assms(2) by (intro deficitsOk_restrict) (simp add: fairOk_def)
    then have "min maxResourceValue (fcfgQuantum (fsConfig s)) \<le> credit (fcfgQuantum (fsConfig s)) (deficitOf ?ds (?ws ! ?i))"
      using credit_bounds [of "fcfgQuantum (fsConfig s)" "deficitOf ?ds (?ws ! ?i)"]
        deficitOf_bounds [of ?ds "?ws ! ?i"] assms(2) unfolding fairOk_def by linarith
    moreover have "fcCost (hd (queueOf cs (?ws ! ?i))) \<le> min maxResourceValue (fcfgQuantum (fsConfig s))"
      using assms(1,3) head_in [OF in_ws] by (auto simp: selectable_def validCandidate_def freshUnit_def)
    ultimately show ?thesis by linarith
  qed
  have round: "snd (offerRounds (length ?ws + 1) (fcfgQuantum (fsConfig s)) (\<lambda>w. hd (queueOf cs w)) ?ds (rotate ?i ?ws))
      = Some (hd (queueOf cs (?ws ! ?i)))"
    using offerRounds_first [of "rotate ?i ?ws" "\<lambda>w. hd (queueOf cs w)" "fcfgQuantum (fsConfig s)" ?ds "length ?ws"]
      ws hd cost by (simp del: offerRounds.simps)
  show ?thesis
  proof (cases rule: Select_cases [OF assms(1), of s])
    case (1 a)
    then obtain w where w: "w \<in> set ?ws" "a = hd (queueOf cs w)" using agedCandidate_spec [OF 1(1)] by auto
    have "fcfgAgingLimit (fsConfig s) \<le> now - fcCreatedAt a" using agedCandidate_spec [OF 1(1)] by simp
    moreover have "now - fcCreatedAt a < fcfgAgingLimit (fsConfig s)"
      using assms(3) head_in [OF w(1)] w(2) by (simp add: freshUnit_def)
    ultimately show ?thesis by linarith
  next
    case (2 ds c)
    then show ?thesis using round head_in [OF in_ws] by (simp del: offerRounds.simps)
  next
    case (3 ds)
    then show ?thesis using round by (simp del: offerRounds.simps)
  qed
qed

text \<open>A run of the scheduler over a sequence of candidate lists, and the workspaces it serves.\<close>

fun selectRun :: "FairScheduler \<Rightarrow> (gotime \<times> FairCandidate list) list \<Rightarrow> string list" where
  "selectRun s [] = []"
| "selectRun s ((now, cs) # steps) =
     (case Select s now cs of
        (s', Inl e) \<Rightarrow> selectRun s' steps
      | (s', Inr c) \<Rightarrow> fcWorkspace c # selectRun s' steps)"

text \<open>
  C28: round robin. While every selection is among valid candidates that have not aged and cost
  at most one quantum, and the workspaces with queued jobs stay the same, consecutive
  selections serve those workspaces cyclically in their order, starting after the
  cursor: in every window of as many selections as there are workspaces each is served
  exactly once.
\<close>

theorem selectRun_round_robin:
  assumes "fairOk s" and "ws \<noteq> []"
    and "\<forall>(now, cs) \<in> set steps. selectable now cs \<and> freshUnit s now cs \<and> workspacesOf cs = ws"
  shows "selectRun s steps = map (\<lambda>k. ws ! ((startIndex ws (fsCursor s) + k) mod length ws)) [0..<length steps]"
  using assms
proof (induction steps arbitrary: s)
  case (Cons step steps)
  obtain now cs where step: "step = (now, cs)" by (cases step)
  let ?i = "startIndex ws (fsCursor s)" and ?s = "fst (Select s now cs)"
  have sel: "selectable now cs" "freshUnit s now cs" and ws: "workspacesOf cs = ws"
    using Cons.prems(3) step by auto
  obtain c where c: "snd (Select s now cs) = Inr c" "fsCursor ?s = ws ! ?i" "fcWorkspace c = ws ! ?i"
    using Select_next [OF sel(1) Cons.prems(1) sel(2)] ws by auto
  have i: "?i < length ws" by (rule startIndex_less [OF Cons.prems(2)])
  have "ws ! ?i \<in> fcWorkspace ` set cs" using set_workspacesOf [of cs] nth_mem [OF i] ws by simp
  then have "ws ! ?i \<noteq> []"
    using sel(1) by (auto simp: selectable_def validCandidate_def pattern_defs)
  then have succ: "startIndex ws (ws ! ?i) = (?i + 1) mod length ws"
    using startIndex_nth [OF sorted_workspacesOf [of cs] distinct_workspacesOf, unfolded ws, OF i] by simp
  have "selectRun ?s steps = map (\<lambda>k. ws ! ((startIndex ws (fsCursor ?s) + k) mod length ws)) [0..<length steps]"
    by (rule Cons.IH [OF Select_fairOk [OF Cons.prems(1)] Cons.prems(2)])
      (use Cons.prems(3) in \<open>auto simp: freshUnit_def\<close>)
  also have "\<dots> = map (\<lambda>k. ws ! ((?i + Suc k) mod length ws)) [0..<length steps]"
    unfolding c(2) succ by (simp add: mod_add_left_eq)
  finally have "selectRun s (step # steps) = ws ! ?i # map (\<lambda>k. ws ! ((?i + Suc k) mod length ws)) [0..<length steps]"
    using step c by (cases "Select s now cs") simp
  moreover have "[0..<length (step # steps)] = 0 # map Suc [0..<length steps]"
    by (simp add: map_Suc_upt upt_conv_Cons del: upt_Suc)
  ultimately show ?case using i by (simp del: upt_Suc)
qed simp

subsection \<open>A worked selection\<close>

definition exampleCandidates :: "FairCandidate list" where
  "exampleCandidates =
     [\<lparr>fcJobID = ''wj_'' @ replicate 32 CHR ''b'', fcWorkspace = ''beta'', fcCost = 2, fcCreatedAt = 100\<rparr>,
      \<lparr>fcJobID = ''wj_'' @ replicate 32 CHR ''a'', fcWorkspace = ''alpha'', fcCost = 1, fcCreatedAt = 200\<rparr>,
      \<lparr>fcJobID = ''wj_'' @ replicate 32 CHR ''c'', fcWorkspace = ''alpha'', fcCost = 1, fcCreatedAt = 150\<rparr>]"

definition exampleScheduler :: FairScheduler where
  "exampleScheduler =
     \<lparr>fsConfig = \<lparr>fcfgQuantum = 5, fcfgAgingLimit = minute\<rparr>, fsDeficits = Map.empty, fsCursor = []\<rparr>"

lemma exampleCandidates_selectable:
  "selectable 300 exampleCandidates" "selectable (100 + minute) exampleCandidates"
  by code_simp+

lemma exampleScheduler_ok: "fairOk exampleScheduler"
  by (simp add: fairOk_def exampleScheduler_def deficitsOk_def maxResourceValue_def)

lemma exampleCandidates_workspaces: "workspacesOf exampleCandidates = [''alpha'', ''beta'']"
  by code_simp

theorem Select_fifo_witness:
  "let c = exampleCandidates ! 2 in
   selectable 300 exampleCandidates \<and> snd (Select exampleScheduler 300 exampleCandidates) = Inr c \<and>
   c \<in> set exampleCandidates \<and>
   (\<forall>d \<in> set exampleCandidates. fcWorkspace d = fcWorkspace c \<longrightarrow> candidateKey c \<le> candidateKey d)"
proof -
  have "snd (Select exampleScheduler 300 exampleCandidates) = Inr (exampleCandidates ! 2)" by code_simp
  with Select_fifo [OF exampleCandidates_selectable(1) this] exampleCandidates_selectable
  show ?thesis by (simp add: Let_def)
qed

theorem Select_aged_first_witness:
  "exampleCandidates ! 0 \<in> set exampleCandidates \<and>
   fcfgAgingLimit (fsConfig exampleScheduler) \<le> (100 + minute) - fcCreatedAt (exampleCandidates ! 0) \<and>
   (\<exists>a \<in> set exampleCandidates. snd (Select exampleScheduler (100 + minute) exampleCandidates) = Inr a \<and>
      (\<forall>c \<in> set exampleCandidates. candidateKey a \<le> candidateKey c))"
proof -
  have *: "exampleCandidates ! 0 \<in> set exampleCandidates"
    "fcfgAgingLimit (fsConfig exampleScheduler) \<le> (100 + minute) - fcCreatedAt (exampleCandidates ! 0)"
    by (simp_all add: exampleCandidates_def exampleScheduler_def)
  with Select_aged_first [OF exampleCandidates_selectable(2) *] show ?thesis by blast
qed

theorem Select_serves_witness:
  "\<exists>c. snd (Select exampleScheduler 300 exampleCandidates) = Inr c"
proof -
  have "''beta'' \<in> set (workspacesOf exampleCandidates)"
    by (simp only: exampleCandidates_workspaces) simp
  moreover have "fcCost (hd (queueOf exampleCandidates ''beta'')) \<le>
    int (length (workspacesOf exampleCandidates) + 1) * fcfgQuantum (fsConfig exampleScheduler)"
    by code_simp
  ultimately show ?thesis
    using Select_serves [OF exampleCandidates_selectable(1) exampleScheduler_ok] by blast
qed

theorem Select_deficits_bounded_witness:
  "NewFairScheduler (fsConfig exampleScheduler) = Inr exampleScheduler \<and> fairOk exampleScheduler \<and>
   fairOk (fst (Select exampleScheduler 300 exampleCandidates))"
  using Select_deficits_bounded [of "fsConfig exampleScheduler" exampleScheduler exampleScheduler 300 exampleCandidates]
    exampleScheduler_ok
  by (simp add: NewFairScheduler_def exampleScheduler_def maxResourceValue_def minute_def second_def hour_def)

theorem selectRun_round_robin_witness:
  "selectRun exampleScheduler (replicate 3 (300, exampleCandidates)) = [''alpha'', ''beta'', ''alpha'']"
proof -
  have "\<forall>(now, cs) \<in> set (replicate 3 (300, exampleCandidates)).
      selectable now cs \<and> freshUnit exampleScheduler now cs \<and> workspacesOf cs = [''alpha'', ''beta'']"
    using exampleCandidates_selectable exampleCandidates_workspaces
    by (simp add: freshUnit_def exampleCandidates_def exampleScheduler_def minute_def second_def)
  from selectRun_round_robin [OF exampleScheduler_ok _ this]
  show ?thesis by (simp add: exampleScheduler_def startIndex_def numeral_3_eq_3)
qed

subsection \<open>The scheduler as the queue uses it\<close>

text \<open>
  What the lease operation relies on: jobs of cost one, a selection among valid candidates that
  always succeeds, takes one of them, never overtakes an older job of the same workspace, and
  keeps the scheduler in its invariant.
\<close>

locale unit_selector =
  fixes select :: "'s \<Rightarrow> gotime \<Rightarrow> FairCandidate list \<Rightarrow> 's \<times> (wqError + FairCandidate)"
    and ok :: "'s \<Rightarrow> bool"
  assumes select_unit: "ok s \<Longrightarrow> selectable now cs \<Longrightarrow> \<forall>c \<in> set cs. fcCost c = 1 \<Longrightarrow>
      \<exists>c. snd (select s now cs) = Inr c"
    and select_member: "selectable now cs \<Longrightarrow> snd (select s now cs) = Inr c \<Longrightarrow> c \<in> set cs"
    and select_oldest: "selectable now cs \<Longrightarrow> snd (select s now cs) = Inr c \<Longrightarrow> d \<in> set cs \<Longrightarrow>
      fcWorkspace d = fcWorkspace c \<Longrightarrow> candidateKey c \<le> candidateKey d"
    and select_keeps: "ok s \<Longrightarrow> ok (fst (select s now cs))"
begin

lemma select_unit_oldest:
  assumes "ok s" "selectable now cs" "\<forall>c \<in> set cs. fcCost c = 1"
  obtains c where "snd (select s now cs) = Inr c" "c \<in> set cs"
    "\<forall>d \<in> set cs. fcWorkspace d = fcWorkspace c \<longrightarrow> candidateKey c \<le> candidateKey d"
  using select_unit [OF assms] select_member [OF assms(2)] select_oldest [OF assms(2)] by blast

end

lemma Select_unit:
  assumes ok: "fairOk s" and sel: "selectable now cs" and unit: "\<forall>c \<in> set cs. fcCost c = 1"
  shows "\<exists>c. snd (Select s now cs) = Inr c"
proof (cases "snd (Select s now cs)")
  case (Inl e)
  obtain c where c: "c \<in> set cs" using sel by (cases cs) (auto simp: selectable_def)
  then have w: "fcWorkspace c \<in> set (workspacesOf cs)" by simp
  have "min maxResourceValue (int (length (workspacesOf cs) + 1) * fcfgQuantum (fsConfig s)) < 1"
    using Select_refused [OF sel ok w Inl] head_in [OF w] unit by simp
  moreover have q: "1 \<le> fcfgQuantum (fsConfig s)" using ok by (simp add: fairOk_def)
  have "1 * 1 \<le> int (length (workspacesOf cs) + 1) * fcfgQuantum (fsConfig s)"
    using q by (intro mult_mono) auto
  ultimately show ?thesis by (simp add: maxResourceValue_def min_def split: if_splits)
qed blast

interpretation fair: unit_selector Select fairOk
proof unfold_locales
  show "c \<in> set cs" if "selectable now cs" "snd (Select s now cs) = Inr c" for now cs s c
    by (rule Select_head [OF that]) (use head_in in auto)
  show "candidateKey c \<le> candidateKey d"
    if "selectable now cs" "snd (Select s now cs) = Inr c" "d \<in> set cs" "fcWorkspace d = fcWorkspace c" for now cs s c d
    by (rule Select_head [OF that(1,2)]) (use head_in head_least that(3,4) in auto)
qed (auto intro: Select_unit Select_fairOk)

end
