(* ===== verification/Wq_Store.thy ===== *)
theory Wq_Store
  imports Wq_Rows Wq_Fairness
begin

text \<open>
  The operations of the durable queue (\<open>internal/workqueue/store.go\<close> and \<open>cleanup.go\<close>).
  Each takes the store and returns it with the result of the call. A transaction that
  returns before its commit leaves the database as it was; the fair scheduler is not part of
  the database and keeps what a selection did to it. The clock readings and the random bytes
  of an operation are arguments; the mutex makes the operations atomic. Failures of SQLite
  itself (I/O, busy) are outside the model, violations of its constraints are not.
\<close>

subsection \<open>The store\<close>

record 'd Store =
  stConfig :: Config
  stDB :: "'d option"
  stFair :: FairScheduler

record Lease =
  lsJob :: Job
  lsID :: string
  lsFence :: nat
  lsAttempt :: int
  lsExpires :: gotime

record HeartbeatStatus =
  hbExpires :: gotime
  hbCancel :: bool

text \<open>The zero \<open>Job\<close> a call returns when a job it has just written cannot be found.\<close>

definition zeroJob :: Job where
  "zeroJob = \<lparr>jID = [], jKey = [], jWorkspace = [], jPool = [], jProfile = [], jPayload = [],
     jState = StateOther [], jReason = ReasonNone, jCreated = zeroTime, jUpdated = zeroTime, jCancel = False,
     jAttempt = 0, jFence = 0, jLeaseID = [], jHolder = [], jLeaseExpires = zeroTime,
     jOutcome = StateOther [], jSummary = [], jResultRef = []\<rparr>"

definition getUnlocked :: "'m queueDB_scheme \<Rightarrow> string \<Rightarrow> wqError + Job" where
  "getUnlocked db i =
     (case jobByID db i of
        Inl e \<Rightarrow> Inl e
      | Inr None \<Rightarrow> Inr zeroJob
      | Inr (Some job) \<Rightarrow> Inr job)"

subsection \<open>Enqueue\<close>

definition newRow :: "Spec \<Rightarrow> string \<Rightarrow> State \<Rightarrow> Reason \<Rightarrow> gotime \<Rightarrow> jobRow" where
  "newRow spec i st reason now =
     \<lparr>rwID = i, rwKey = spIdempotencyKey spec, rwWorkspace = spWorkspace spec, rwPool = spPool spec,
      rwProfile = spProfile spec, rwPayload = spPayloadHash spec, rwState = st, rwReason = reason,
      rwCreated = now, rwUpdated = now, rwCancel = False, rwAttempt = 0, rwFence = 0,
      rwLeaseID = None, rwHolder = None, rwLeaseUntil = None,
      rwOutcome = (if st = StateFailed then Some StateFailed else None),
      rwSummary = (if st = StateFailed then Some ''dependency failed'' else None), rwResultRef = None\<rparr>"

definition insertJob :: "jobRow \<Rightarrow> 'm queueDB_scheme \<Rightarrow> 'm queueDB_scheme option" where
  "insertJob row db =
     (if list_ex (\<lambda>r. rwID r = rwID row \<or> rwKey r = rwKey row) (qdJobs db) then None
      else Some (db\<lparr>qdJobs := qdJobs db @ [row]\<rparr>))"

definition hasJob :: "'m queueDB_scheme \<Rightarrow> string \<Rightarrow> bool" where
  "hasJob db i \<longleftrightarrow> list_ex (\<lambda>r. rwID r = i) (qdJobs db)"

fun insertDependencies ::
  "string \<Rightarrow> string list \<Rightarrow> 'm queueDB_scheme \<Rightarrow> wqError + 'm queueDB_scheme" where
  "insertDependencies i [] db = Inr db"
| "insertDependencies i (d # ds) db =
     (if \<not> hasJob db i \<or> \<not> hasJob db d \<or> (i, d) \<in> set (qdDeps db)
      then Inl DependencyPersistenceFailed
      else insertDependencies i ds (db\<lparr>qdDeps := qdDeps db @ [(i, d)]\<rparr>))"

definition enqueueTx ::
  "'m queueDB_scheme \<Rightarrow> Spec \<Rightarrow> byte list option \<Rightarrow> gotime \<Rightarrow> wqError + ('m queueDB_scheme \<times> string)" where
  "enqueueTx db spec body now =
     (case dependencyState db (spDependencies spec) of
        Inl e \<Rightarrow> Inl e
      | Inr (st, reason) \<Rightarrow>
         (case randomID ''wj_'' body of
            None \<Rightarrow> Inl IdentityUnavailable
          | Some i \<Rightarrow>
             (case insertJob (newRow spec i st reason now) db of
                None \<Rightarrow> Inl JobPersistenceFailed
              | Some db1 \<Rightarrow>
                 (case insertDependencies i (spDependencies spec) db1 of
                    Inl e \<Rightarrow> Inl e
                  | Inr db2 \<Rightarrow> Inr (db2, i)))))"

definition specMatches :: "'m queueDB_scheme \<Rightarrow> Job \<Rightarrow> Spec \<Rightarrow> bool" where
  "specMatches db existing spec \<longleftrightarrow>
     jWorkspace existing = spWorkspace spec \<and> jPool existing = spPool spec \<and>
     jProfile existing = spProfile spec \<and> jPayload existing = spPayloadHash spec \<and>
     sameStrings (dependencyIDs db (jID existing)) (spDependencies spec)"

definition activeCount :: "(jobRow \<Rightarrow> bool) \<Rightarrow> 'm queueDB_scheme \<Rightarrow> int" where
  "activeCount p db = int (length (filter (\<lambda>r. p r \<and> activeState (rwState r)) (qdJobs db)))"

definition Enqueue ::
  "'m queueDB_scheme Store \<Rightarrow> Spec \<Rightarrow> byte list option \<Rightarrow> gotime \<Rightarrow>
   'm queueDB_scheme Store \<times> (wqError + Job \<times> bool)" where
  "Enqueue s spec0 body now =
     (case stDB s of
        None \<Rightarrow> (s, Inl StoreUnavailable)
      | Some db \<Rightarrow>
         (case validateSpec spec0 of
            Some e \<Rightarrow> (s, Inl e)
          | None \<Rightarrow>
             (let spec = canonicalSpec spec0 in
              case jobByIdempotency db (spIdempotencyKey spec) of
                Inl e \<Rightarrow> (s, Inl e)
              | Inr (Some existing) \<Rightarrow>
                  (s, if specMatches db existing spec then Inr (existing, False) else Inl IdempotencyConflict)
              | Inr None \<Rightarrow>
                  if activeCount (\<lambda>r. True) db \<ge> cfgMaxJobs (stConfig s) then (s, Inl GlobalBoundReached)
                  else if activeCount (\<lambda>r. rwWorkspace r = spWorkspace spec) db
                          \<ge> cfgMaxJobsPerWorkspace (stConfig s)
                  then (s, Inl WorkspaceBoundReached)
                  else case enqueueTx db spec body now of
                    Inl e \<Rightarrow> (s, Inl e)
                  | Inr (db', i) \<Rightarrow>
                      (s\<lparr>stDB := Some db'\<rparr>,
                       case getUnlocked db' i of Inl e \<Rightarrow> Inl e | Inr job \<Rightarrow> Inr (job, True)))))"

subsection \<open>Propagation to dependents\<close>

definition settle :: "State \<Rightarrow> Reason \<Rightarrow> gotime \<Rightarrow> jobRow \<Rightarrow> jobRow" where
  "settle st reason now r =
     r\<lparr>rwState := st, rwReason := reason, rwOutcome := (if terminal st then Some st else None),
       rwSummary := (if terminal st then Some ''dependency failed'' else None), rwUpdated := now\<rparr>"

definition settleDependent ::
  "'m queueDB_scheme \<Rightarrow> gotime \<Rightarrow> string \<Rightarrow> wqError + ('m queueDB_scheme \<times> bool)" where
  "settleDependent db now i =
     (case jobByID db i of
        Inl _ \<Rightarrow> Inl DependentUnavailable
      | Inr None \<Rightarrow> Inl DependentUnavailable
      | Inr (Some job) \<Rightarrow>
          if jState job \<noteq> StateBlocked then Inr (db, False)
          else case dependencyState db (dependencyIDs db i) of
            Inl e \<Rightarrow> Inl e
          | Inr (st, reason) \<Rightarrow>
              if st = StateBlocked then Inr (db, False)
              else if \<not> legalTransition StateBlocked st then Inl IllegalTransition
              else Inr (updateJobs (\<lambda>r. rwID r = i \<and> rwState r = StateBlocked) (settle st reason now) db,
                        terminal st))"

fun settleDependents ::
  "'m queueDB_scheme \<Rightarrow> gotime \<Rightarrow> string list \<Rightarrow> wqError + ('m queueDB_scheme \<times> string list)" where
  "settleDependents db now [] = Inr (db, [])"
| "settleDependents db now (i # is) =
     (case settleDependent db now i of
        Inl e \<Rightarrow> Inl e
      | Inr (db1, t) \<Rightarrow>
         (case settleDependents db1 now is of
            Inl e \<Rightarrow> Inl e
          | Inr (db2, added) \<Rightarrow> Inr (db2, if t then i # added else added)))"

text \<open>
  The breadth-first loop. Every dependent put on the queue has just left the blocked state, so
  the blocked rows and the queue together shrink at each turn.
\<close>

definition blockedRows :: "'m queueDB_scheme \<Rightarrow> nat" where
  "blockedRows db = length (filter (\<lambda>r. rwState r = StateBlocked) (qdJobs db))"

lemma jobByID_Some:
  "jobByID db i = Inr (Some job) \<Longrightarrow> \<exists>r \<in> set (qdJobs db). rwID r = i \<and> job = rowJob r \<and> validateStoredJob job"
  by (auto simp: jobByID_def jobBy_def scanJob_def find_Some_iff split: option.splits sum.splits if_splits)

lemma filter_map_shrink:
  "(\<And>r. P (f r) \<Longrightarrow> P r) \<Longrightarrow> length (filter P (map f xs)) \<le> length (filter P xs)"
  by (induction xs) auto

lemma filter_map_shrink_less:
  "(\<And>r. P (f r) \<Longrightarrow> P r) \<Longrightarrow> r \<in> set xs \<Longrightarrow> P r \<Longrightarrow> \<not> P (f r) \<Longrightarrow>
   length (filter P (map f xs)) < length (filter P xs)"
proof (induction xs)
  case (Cons x xs)
  then show ?case using filter_map_shrink [of P f xs] by fastforce
qed simp

lemma blockedRows_update:
  assumes "r \<in> set (qdJobs db)" "rwID r = i" "rwState r = StateBlocked" "st \<noteq> StateBlocked"
  shows "blockedRows (updateJobs (\<lambda>r. rwID r = i \<and> rwState r = StateBlocked) (settle st reason now) db) < blockedRows db"
proof -
  let ?f = "\<lambda>r. if rwID r = i \<and> rwState r = StateBlocked then settle st reason now r else r"
  have "length (filter (\<lambda>r. rwState r = StateBlocked) (map ?f (qdJobs db)))
    < length (filter (\<lambda>r. rwState r = StateBlocked) (qdJobs db))"
    by (rule filter_map_shrink_less [OF _ assms(1)]) (use assms in \<open>auto simp: settle_def split: if_splits\<close>)
  then show ?thesis by (simp add: blockedRows_def updateJobs_def)
qed

lemma settleDependent_cases:
  assumes "settleDependent db now i = Inr (db', t)"
  obtains (kept) "db' = db" and "\<not> t"
  | (settled) job st reason where "jobByID db i = Inr (Some job)" and "jState job = StateBlocked"
      and "dependencyState db (dependencyIDs db i) = Inr (st, reason)" and "st \<noteq> StateBlocked"
      and "legalTransition StateBlocked st" and "t = terminal st"
      and "db' = updateJobs (\<lambda>r. rwID r = i \<and> rwState r = StateBlocked) (settle st reason now) db"
  using assms unfolding settleDependent_def
  by (simp del: legalTransition.simps split: sum.splits option.splits prod.splits if_splits; metis)

lemma settleDependent_blockedRows:
  assumes "settleDependent db now i = Inr (db', t)"
  shows "blockedRows db' + (if t then 1 else 0) \<le> blockedRows db"
  using assms
proof (cases rule: settleDependent_cases)
  case (settled job st reason)
  from jobByID_Some [OF settled(1)] settled(2) obtain r where
    "r \<in> set (qdJobs db)" "rwID r = i" "rwState r = StateBlocked"
    by (auto simp: rowJob_def)
  from blockedRows_update [OF this settled(4), of reason now] settled(7) show ?thesis by simp
qed simp

lemma settleDependents_blockedRows:
  "settleDependents db now is = Inr (db', added) \<Longrightarrow> blockedRows db' + length added \<le> blockedRows db"
proof (induction db now "is" arbitrary: db' added rule: settleDependents.induct)
  case (2 db now i "is")
  then obtain db1 t ad where "settleDependent db now i = Inr (db1, t)"
    "settleDependents db1 now is = Inr (db', ad)" "added = (if t then i # ad else ad)"
    by (auto split: sum.splits prod.splits)
  with "2.IH" settleDependent_blockedRows [of db now i db1 t] show ?case by fastforce
qed simp

function propagateLoop ::
  "'m queueDB_scheme \<Rightarrow> gotime \<Rightarrow> string list \<Rightarrow> string list \<Rightarrow> wqError + 'm queueDB_scheme" where
  "propagateLoop db now seen [] = Inr db"
| "propagateLoop db now seen (d # queue) =
     (if d \<in> set seen then propagateLoop db now seen queue
      else case settleDependents db now (dependentsOf db d) of
        Inl e \<Rightarrow> Inl e
      | Inr (db', added) \<Rightarrow> propagateLoop db' now (d # seen) (queue @ added))"
  by pat_completeness auto

termination
  by (relation "measure (\<lambda>(db, now, seen, queue). blockedRows db + length queue)")
    (auto dest!: settleDependents_blockedRows)

definition propagate :: "'m queueDB_scheme \<Rightarrow> string \<Rightarrow> gotime \<Rightarrow> wqError + 'm queueDB_scheme" where
  "propagate db i now = propagateLoop db now [] [i]"

subsection \<open>Leases\<close>

definition expiredLease :: "gotime \<Rightarrow> jobRow \<Rightarrow> bool" where
  "expiredLease now r \<longleftrightarrow> rwState r = StateLeased \<and>
     (case rwLeaseUntil r of None \<Rightarrow> False | Some t \<Rightarrow> t \<le> now)"

definition recoveredState :: "bool \<Rightarrow> int \<Rightarrow> State \<times> Reason \<times> State option \<times> string option" where
  "recoveredState cancelled attempt =
     (if cancelled then (StateCancelled, ReasonCancelled, Some StateCancelled, Some ''cancelled'')
      else if attempt \<ge> MaxLeaseAttempts
      then (StateFailed, ReasonRecoveryExhausted, Some StateFailed, Some ''recovery_exhausted'')
      else (StateQueued, ReasonLeaseExpired, None, None))"

definition recoverRow :: "State \<times> Reason \<times> State option \<times> string option \<Rightarrow> gotime \<Rightarrow> jobRow \<Rightarrow> jobRow" where
  "recoverRow v now r = (case v of (st, reason, outcome, summary) \<Rightarrow>
     r\<lparr>rwState := st, rwReason := reason, rwLeaseID := None, rwHolder := None, rwLeaseUntil := None,
       rwOutcome := outcome, rwSummary := summary, rwUpdated := now\<rparr>)"

fun recoverItems ::
  "'m queueDB_scheme \<Rightarrow> gotime \<Rightarrow> (string \<times> bool \<times> int) list \<Rightarrow> wqError + 'm queueDB_scheme" where
  "recoverItems db now [] = Inr db"
| "recoverItems db now ((i, cancelled, attempt) # items) =
     (let v = recoveredState cancelled attempt;
          db1 = updateJobs (\<lambda>r. rwID r = i \<and> rwState r = StateLeased) (recoverRow v now) db
      in if terminal (fst v)
         then case propagate db1 i now of
                Inl e \<Rightarrow> Inl e
              | Inr db2 \<Rightarrow> recoverItems db2 now items
         else recoverItems db1 now items)"

definition recoverExpired :: "'m queueDB_scheme \<Rightarrow> gotime \<Rightarrow> wqError + 'm queueDB_scheme" where
  "recoverExpired db now =
     recoverItems db now
       (map (\<lambda>r. (rwID r, rwCancel r, rwAttempt r)) (filter (expiredLease now) (qdJobs db)))"

definition leaseCandidates :: "'m queueDB_scheme \<Rightarrow> string \<Rightarrow> int \<Rightarrow> FairCandidate list" where
  "leaseCandidates db pool limit =
     map (\<lambda>r. \<lparr>fcJobID = rwID r, fcWorkspace = rwWorkspace r, fcCost = 1, fcCreatedAt = rwUpdated r\<rparr>)
       (take (nat limit)
         (sort_key (\<lambda>r. (rwUpdated r, rwID r))
           (filter (\<lambda>r. rwPool r = pool \<and> rwState r = StateQueued \<and> \<not> rwCancel r) (qdJobs db))))"

definition leaseRow :: "string \<Rightarrow> string \<Rightarrow> gotime \<Rightarrow> gotime \<Rightarrow> jobRow \<Rightarrow> jobRow" where
  "leaseRow leaseID holder expires now r =
     r\<lparr>rwState := StateLeased, rwReason := ReasonNone, rwAttempt := rwAttempt r + 1,
       rwFence := rwFence r + 1, rwLeaseID := Some leaseID, rwHolder := Some holder,
       rwLeaseUntil := Some expires, rwUpdated := now\<rparr>"

definition leaseTx ::
  "'m queueDB_scheme \<Rightarrow> string \<Rightarrow> string \<Rightarrow> string \<Rightarrow> gotime \<Rightarrow> gotime \<Rightarrow> wqError + ('m queueDB_scheme \<times> Lease)" where
  "leaseTx db i leaseID holder expires now =
     (let p = (\<lambda>r. rwID r = i \<and> rwState r = StateQueued);
          db1 = updateJobs p (leaseRow leaseID holder expires now) db
      in if rowsAffected p db \<noteq> 1 then Inl LeaseLostRace
         else case jobByID db1 i of
           Inr (Some job) \<Rightarrow>
             Inr (db1, \<lparr>lsJob = job, lsID = leaseID, lsFence = jFence job, lsAttempt = jAttempt job,
                        lsExpires = expires\<rparr>)
         | _ \<Rightarrow> Inl LeasedJobUnavailable)"

definition LeaseNext ::
  "'m queueDB_scheme Store \<Rightarrow> string \<Rightarrow> string \<Rightarrow> duration \<Rightarrow> byte list option \<Rightarrow> gotime \<Rightarrow>
   'm queueDB_scheme Store \<times> (wqError + Lease)" where
  "LeaseNext s pool holder ttl body now =
     (case stDB s of
        None \<Rightarrow> (s, Inl LeaseRequestInvalid)
      | Some db \<Rightarrow>
          if \<not> poolPattern pool \<or> \<not> holderPattern holder \<or> ttl < MinLeaseTTL \<or> ttl > MaxLeaseTTL
          then (s, Inl LeaseRequestInvalid)
          else case recoverExpired db now of
            Inl e \<Rightarrow> (s, Inl e)
          | Inr db1 \<Rightarrow>
             (let candidates = leaseCandidates db1 pool (cfgMaxJobs (stConfig s)) in
              if candidates = [] then (s\<lparr>stDB := Some db1\<rparr>, Inl NoJobAvailable)
              else case Select (stFair s) now candidates of
                (fair, Inl e) \<Rightarrow> (s\<lparr>stFair := fair\<rparr>, Inl LeaseSelectionFailed)
              | (fair, Inr selected) \<Rightarrow>
                 (case randomID ''wl_'' body of
                    None \<Rightarrow> (s\<lparr>stFair := fair\<rparr>, Inl IdentityUnavailable)
                  | Some leaseID \<Rightarrow>
                     (case leaseTx db1 (fcJobID selected) leaseID holder (now + ttl) now of
                        Inl e \<Rightarrow> (s\<lparr>stFair := fair\<rparr>, Inl e)
                      | Inr (db2, lease) \<Rightarrow> (s\<lparr>stDB := Some db2, stFair := fair\<rparr>, Inr lease)))))"

definition RecoverExpired ::
  "'m queueDB_scheme Store \<Rightarrow> gotime \<Rightarrow> 'm queueDB_scheme Store \<times> (wqError + unit)" where
  "RecoverExpired s now =
     (case stDB s of
        None \<Rightarrow> (s, Inl StoreUnavailable)
      | Some db \<Rightarrow>
         (case recoverExpired db now of
            Inl e \<Rightarrow> (s, Inl e)
          | Inr db1 \<Rightarrow> (s\<lparr>stDB := Some db1\<rparr>, Inr ())))"

text \<open>
  \<open>Heartbeat\<close>, \<open>Complete\<close>, \<open>Cancel\<close> and \<open>Get\<close> check only that the store pointer is
  not nil: on a closed store they call a method of a nil database handle.
\<close>

definition heldLease :: "string \<Rightarrow> string \<Rightarrow> nat \<Rightarrow> jobRow \<Rightarrow> bool" where
  "heldLease i leaseID fence r \<longleftrightarrow>
     rwID r = i \<and> rwState r = StateLeased \<and> rwLeaseID r = Some leaseID \<and> rwFence r = int fence"

definition Heartbeat ::
  "'m queueDB_scheme Store \<Rightarrow> string \<Rightarrow> string \<Rightarrow> nat \<Rightarrow> duration \<Rightarrow> gotime \<Rightarrow>
   'm queueDB_scheme Store \<times> (wqError + HeartbeatStatus)" where
  "Heartbeat s i leaseID fence ttl now =
     (if \<not> jobIDPattern i \<or> \<not> leaseIDPattern leaseID \<or> fence = 0 \<or> ttl < MinLeaseTTL \<or> ttl > MaxLeaseTTL
      then (s, Inl HeartbeatInvalid)
      else case stDB s of
        None \<Rightarrow> (s, Inl NilPanic)
      | Some db \<Rightarrow>
         (let p = (\<lambda>r. heldLease i leaseID fence r \<and>
                        (case rwLeaseUntil r of None \<Rightarrow> False | Some t \<Rightarrow> t > now));
              db1 = updateJobs p (\<lambda>r. r\<lparr>rwLeaseUntil := Some (now + ttl), rwUpdated := now\<rparr>) db
          in if rowsAffected p db \<noteq> 1 then (s\<lparr>stDB := Some db1\<rparr>, Inl ActiveLeaseNotFound)
             else case find (\<lambda>r. rwID r = i) (qdJobs db1) of
               None \<Rightarrow> (s\<lparr>stDB := Some db1\<rparr>, Inl HeartbeatStateUnavailable)
             | Some r \<Rightarrow> (s\<lparr>stDB := Some db1\<rparr>, Inr \<lparr>hbExpires = now + ttl, hbCancel = rwCancel r\<rparr>)))"

subsection \<open>Completion and cancellation\<close>

definition completeRow :: "Result \<Rightarrow> gotime \<Rightarrow> jobRow \<Rightarrow> jobRow" where
  "completeRow result now r =
     r\<lparr>rwState := rsOutcome result, rwReason := ReasonNone, rwOutcome := Some (rsOutcome result),
       rwSummary := Some (rsSummary result), rwResultRef := nullableString (rsResultRef result),
       rwUpdated := now\<rparr>"

text \<open>The clock is read once for the freshness of the lease and once more for the update.\<close>

definition Complete ::
  "'m queueDB_scheme Store \<Rightarrow> string \<Rightarrow> string \<Rightarrow> nat \<Rightarrow> Result \<Rightarrow> gotime \<Rightarrow> gotime \<Rightarrow>
   'm queueDB_scheme Store \<times> (wqError + Job)" where
  "Complete s i leaseID fence result now0 now =
     (if \<not> jobIDPattern i \<or> \<not> leaseIDPattern leaseID \<or> fence = 0 \<or> validateResult result \<noteq> None
      then (s, Inl CompletionInvalid)
      else case stDB s of
        None \<Rightarrow> (s, Inl NilPanic)
      | Some db \<Rightarrow>
         (case jobByID db i of
            Inr (Some job) \<Rightarrow>
              if terminal (jState job)
              then if jLeaseID job = leaseID \<and> jFence job = fence \<and> jOutcome job = rsOutcome result \<and>
                      jSummary job = rsSummary result \<and> jResultRef job = rsResultRef result
                   then (s, Inr job) else (s, Inl TerminalCompletionConflict)
              else if jState job \<noteq> StateLeased \<or> jLeaseID job \<noteq> leaseID \<or> jFence job \<noteq> fence \<or>
                      \<not> jLeaseExpires job > now0
              then (s, Inl StaleCompletion)
              else if jCancel job \<and> rsOutcome result \<noteq> StateCancelled
              then (s, Inl CancelledResultRequired)
              else if \<not> legalTransition (jState job) (rsOutcome result)
              then (s, Inl IllegalTransition)
              else
               (case propagate (updateJobs (heldLease i leaseID fence) (completeRow result now) db) i now of
                  Inl e \<Rightarrow> (s, Inl e)
                | Inr db1 \<Rightarrow> (s\<lparr>stDB := Some db1\<rparr>, getUnlocked db1 i))
          | _ \<Rightarrow> (s, Inl JobNotFound)))"

definition cancelRow :: "gotime \<Rightarrow> jobRow \<Rightarrow> jobRow" where
  "cancelRow now r =
     r\<lparr>rwState := StateCancelled, rwReason := ReasonCancelled, rwCancel := True,
       rwOutcome := Some StateCancelled, rwSummary := Some ''cancelled'', rwUpdated := now\<rparr>"

definition cancelTx :: "'m queueDB_scheme \<Rightarrow> Job \<Rightarrow> gotime \<Rightarrow> wqError + 'm queueDB_scheme" where
  "cancelTx db job now =
     (if jState job = StateLeased
      then Inr (updateJobs (\<lambda>r. rwID r = jID job \<and> rwState r = StateLeased)
                 (\<lambda>r. r\<lparr>rwCancel := True, rwReason := ReasonCancelRequested, rwUpdated := now\<rparr>) db)
      else if \<not> legalTransition (jState job) StateCancelled then Inl IllegalTransition
      else propagate (updateJobs (\<lambda>r. rwID r = jID job \<and> rwState r = jState job) (cancelRow now) db)
             (jID job) now)"

definition Cancel ::
  "'m queueDB_scheme Store \<Rightarrow> string \<Rightarrow> gotime \<Rightarrow> 'm queueDB_scheme Store \<times> (wqError + Job)" where
  "Cancel s i now =
     (if \<not> jobIDPattern i then (s, Inl JobIdInvalid)
      else case stDB s of
        None \<Rightarrow> (s, Inl NilPanic)
      | Some db \<Rightarrow>
         (case jobByID db i of
            Inr (Some job) \<Rightarrow>
              if terminal (jState job) then (s, Inr job)
              else (case cancelTx db job now of
                      Inl e \<Rightarrow> (s, Inl e)
                    | Inr db1 \<Rightarrow> (s\<lparr>stDB := Some db1\<rparr>, getUnlocked db1 i))
          | _ \<Rightarrow> (s, Inl JobNotFound)))"

subsection \<open>Queries, retention, integrity\<close>

definition Get :: "'m queueDB_scheme Store \<Rightarrow> string \<Rightarrow> wqError + Job option" where
  "Get s i =
     (if \<not> jobIDPattern i then Inl JobIdInvalid
      else case stDB s of None \<Rightarrow> Inl NilPanic | Some db \<Rightarrow> jobByID db i)"

fun scanJobs :: "jobRow list \<Rightarrow> wqError + Job list" where
  "scanJobs [] = Inr []"
| "scanJobs (r # rs) =
     (case scanJob r of
        Inl _ \<Rightarrow> Inl ListResultFailed
      | Inr job \<Rightarrow> (case scanJobs rs of Inl e \<Rightarrow> Inl e | Inr jobs \<Rightarrow> Inr (job # jobs)))"

definition ListJobs :: "'m queueDB_scheme Store \<Rightarrow> int \<Rightarrow> wqError + Job list" where
  "ListJobs s limit =
     (case stDB s of
        None \<Rightarrow> Inl ListLimitInvalid
      | Some db \<Rightarrow>
          if limit < 1 \<or> limit > MaxListResults then Inl ListLimitInvalid
          else scanJobs (take (nat limit) (sort_key (\<lambda>r. (rwCreated r, rwID r)) (qdJobs db))))"

definition jobLease :: "Job \<Rightarrow> Lease" where
  "jobLease job = \<lparr>lsJob = job, lsID = jLeaseID job, lsFence = jFence job, lsAttempt = jAttempt job,
     lsExpires = jLeaseExpires job\<rparr>"

definition LeasesForHolder :: "'m queueDB_scheme Store \<Rightarrow> string \<Rightarrow> string \<Rightarrow> int \<Rightarrow> wqError + Lease list" where
  "LeasesForHolder s pool holder limit =
     (case stDB s of
        None \<Rightarrow> Inl ListLimitInvalid
      | Some db \<Rightarrow>
          if \<not> poolPattern pool \<or> \<not> holderPattern holder \<or> limit < 1 \<or> limit > MaxListResults
          then Inl ListLimitInvalid
          else map_sum id (map jobLease)
            (scanJobs (take (nat limit) (sort_key (\<lambda>r. (rwUpdated r, rwID r))
              (filter (\<lambda>r. rwPool r = pool \<and> rwHolder r = Some holder \<and> rwState r = StateLeased)
                (qdJobs db))))))"

text \<open>
  \<open>CleanupTerminal\<close> deletes old terminal jobs that no dependency row and no task worker
  names; \<open>taskJobs\<close> is the \<open>job_id\<close> column of \<open>task_workers\<close>. Deleting a job cascades
  to the dependency rows it owns.
\<close>

definition cleanupIDs :: "'m queueDB_scheme \<Rightarrow> string list \<Rightarrow> gotime \<Rightarrow> int \<Rightarrow> string list" where
  "cleanupIDs db taskJobs cutoff limit =
     map rwID (take (nat limit) (sort_key (\<lambda>r. (rwUpdated r, rwID r))
       (filter (\<lambda>r. terminal (rwState r) \<and> rwUpdated r < cutoff \<and>
                     rwID r \<notin> set (map snd (qdDeps db)) \<and> rwID r \<notin> set taskJobs) (qdJobs db))))"

definition CleanupTerminal ::
  "'m queueDB_scheme Store \<Rightarrow> string list \<Rightarrow> duration \<Rightarrow> int \<Rightarrow> gotime \<Rightarrow>
   'm queueDB_scheme Store \<times> (wqError + nat)" where
  "CleanupTerminal s taskJobs retention limit now =
     (case stDB s of
        None \<Rightarrow> (s, Inl CleanupRequestInvalid)
      | Some db \<Rightarrow>
          if retention < minute \<or> retention > 365 * 24 * hour \<or> limit < 1 \<or> limit > MaxListResults
          then (s, Inl CleanupRequestInvalid)
          else
           (let gone = cleanupIDs db taskJobs (now - retention) limit
            in (s\<lparr>stDB := Some (db\<lparr>qdJobs := filter (\<lambda>r. rwID r \<notin> set gone) (qdJobs db),
                                   qdDeps := filter (\<lambda>d. fst d \<notin> set gone) (qdDeps db)\<rparr>)\<rparr>,
                Inr (length (filter (\<lambda>r. rwID r \<in> set gone) (qdJobs db))))))"

text \<open>The checks of \<open>Integrity\<close> on the queue's own tables, in their order.\<close>

definition queueIntegrity :: "Config \<Rightarrow> 'm queueDB_scheme \<Rightarrow> wqError option" where
  "queueIntegrity cfg db =
     (if list_ex (\<lambda>r. isl (scanJob r)) (qdJobs db) then Some SemanticIntegrityFailed
      else if activeCount (\<lambda>r. True) db > cfgMaxJobs cfg then Some RowBoundExceeded
      else if list_ex (\<lambda>r. activeCount (\<lambda>r'. rwWorkspace r' = rwWorkspace r) db > cfgMaxJobsPerWorkspace cfg) (qdJobs db)
      then Some WorkspaceRowBoundExceeded
      else if int (length (qdDeps db)) > cfgMaxJobs cfg * int MaxDependencies then Some DependencyBoundExceeded
      else if list_ex (\<lambda>d. \<not> hasJob db (fst d) \<or> \<not> hasJob db (snd d)) (qdDeps db)
      then Some ForeignKeyIntegrityFailed
      else None)"

definition Close :: "'m queueDB_scheme Store \<Rightarrow> 'm queueDB_scheme Store" where
  "Close s = s\<lparr>stDB := None\<rparr>"

end
