(* ===== verification/Wq_Invariant.thy ===== *)
theory Wq_Invariant
  imports Wq_Store Systems
begin

text \<open>
  The invariant of the queue's tables and that every operation keeps it: each stored job passes
  the validation its readers apply, keys are unique, dependency rows refer to existing jobs, a
  job has started only if all its dependencies succeeded, and a blocked job is waiting for
  one that has not ended yet.
\<close>

subsection \<open>Rows by identifier\<close>

definition rowOf :: "'m queueDB_scheme \<Rightarrow> string \<Rightarrow> jobRow option" where
  "rowOf db i = find (\<lambda>r. rwID r = i) (qdJobs db)"

definition uniqueRows :: "'m queueDB_scheme \<Rightarrow> bool" where
  "uniqueRows db \<longleftrightarrow> distinct (map rwID (qdJobs db)) \<and> distinct (map rwKey (qdJobs db))"

lemma rowOf_Some: "rowOf db i = Some r \<Longrightarrow> r \<in> set (qdJobs db) \<and> rwID r = i"
  by (auto simp: rowOf_def find_Some_iff)

lemma rowOf_None: "rowOf db i = None \<longleftrightarrow> i \<notin> rwID ` set (qdJobs db)"
  by (auto simp: rowOf_def find_None_iff)

lemma hasJob_rowOf: "hasJob db i \<longleftrightarrow> rowOf db i \<noteq> None"
  by (auto simp: hasJob_def rowOf_None list_ex_iff)

lemma find_key_unique:
  "distinct (map key xs) \<Longrightarrow> r \<in> set xs \<Longrightarrow> find (\<lambda>x. key x = key r) xs = Some r"
proof (induction xs)
  case (Cons x xs)
  then show ?case by (cases "x = r") (auto simp: image_iff)
qed simp

lemma rowOf_row: "uniqueRows db \<Longrightarrow> r \<in> set (qdJobs db) \<Longrightarrow> rowOf db (rwID r) = Some r"
  by (simp add: rowOf_def uniqueRows_def find_key_unique)

lemma rowOf_iff: "uniqueRows db \<Longrightarrow> rowOf db i = Some r \<longleftrightarrow> r \<in> set (qdJobs db) \<and> rwID r = i"
  using rowOf_Some rowOf_row by fastforce

lemma find_map_key:
  "(\<And>x. key (f x) = key x) \<Longrightarrow> find (\<lambda>x. key x = k) (map f xs) = map_option f (find (\<lambda>x. key x = k) xs)"
  by (induction xs) auto

lemma updateJobs_simps [simp]:
  "qdDeps (updateJobs p f db) = qdDeps db"
  "qdJobs (updateJobs p f db) = map (\<lambda>r. if p r then f r else r) (qdJobs db)"
  by (simp_all add: updateJobs_def)

text \<open>An update that keeps the identifying columns.\<close>

definition keepsKeys :: "(jobRow \<Rightarrow> jobRow) \<Rightarrow> bool" where
  "keepsKeys f \<longleftrightarrow> (\<forall>r. rwID (f r) = rwID r \<and> rwKey (f r) = rwKey r \<and> rwWorkspace (f r) = rwWorkspace r \<and>
     rwPool (f r) = rwPool r \<and> rwProfile (f r) = rwProfile r \<and> rwPayload (f r) = rwPayload r \<and>
     rwCreated (f r) = rwCreated r)"

lemma keepsKeys_updates [simp, intro]:
  "keepsKeys (settle st reason now)" "keepsKeys (recoverRow v now)" "keepsKeys (leaseRow l h e now)"
  "keepsKeys (completeRow result now)" "keepsKeys (cancelRow now)"
  "keepsKeys (\<lambda>r. r\<lparr>rwCancel := c, rwReason := reason, rwUpdated := now\<rparr>)"
  "keepsKeys (\<lambda>r. r\<lparr>rwLeaseUntil := u, rwUpdated := now\<rparr>)"
  by (auto simp: keepsKeys_def settle_def recoverRow_def leaseRow_def completeRow_def cancelRow_def
      split: prod.splits)

lemma rowOf_update [simp]:
  "keepsKeys f \<Longrightarrow> rowOf (updateJobs p f db) i = map_option (\<lambda>r. if p r then f r else r) (rowOf db i)"
  by (simp add: rowOf_def find_map_key [where key = rwID] keepsKeys_def)

lemma uniqueRows_update [simp]: "keepsKeys f \<Longrightarrow> uniqueRows (updateJobs p f db) = uniqueRows db"
proof -
  assume f: "keepsKeys f"
  have "map rwID (map (\<lambda>r. if p r then f r else r) xs) = map rwID xs"
    "map rwKey (map (\<lambda>r. if p r then f r else r) xs) = map rwKey xs" for xs
    using f by (induction xs) (auto simp: keepsKeys_def)
  then show ?thesis by (simp only: uniqueRows_def updateJobs_simps)
qed

lemma dependencyIDs_update [simp]: "dependencyIDs (updateJobs p f db) = dependencyIDs db"
  by (rule ext) (simp add: dependencyIDs_def)

lemma dependentsOf_update [simp]: "dependentsOf (updateJobs p f db) = dependentsOf db"
  by (rule ext) (simp add: dependentsOf_def)

lemma set_dependencyIDs: "d \<in> set (dependencyIDs db i) \<longleftrightarrow> (i, d) \<in> set (qdDeps db)"
  by (force simp: dependencyIDs_def)

lemma set_dependentsOf: "i \<in> set (dependentsOf db d) \<longleftrightarrow> (i, d) \<in> set (qdDeps db)"
  by (force simp: dependentsOf_def)

subsection \<open>The invariant\<close>

definition rowOk :: "gotime \<Rightarrow> jobRow \<Rightarrow> bool" where
  "rowOk now r \<longleftrightarrow> validateStoredJob (rowJob r) \<and> rwUpdated r \<le> now \<and> rwFence r = rwAttempt r \<and>
     rwAttempt r \<le> MaxLeaseAttempts \<and> (rwState r = StateQueued \<longrightarrow> rwAttempt r < MaxLeaseAttempts) \<and>
     (rwState r = StateBlocked \<longrightarrow> rwAttempt r = 0) \<and> zeroTime < rwCreated r \<and>
     (terminal (rwState r) \<or> rwResultRef r = None)"

definition stateOf :: "'m queueDB_scheme \<Rightarrow> string \<Rightarrow> State option" where
  "stateOf db i = map_option rwState (rowOf db i)"

definition failedDep :: "'m queueDB_scheme \<Rightarrow> string \<Rightarrow> bool" where
  "failedDep db i \<longleftrightarrow>
     (\<exists>d. (i, d) \<in> set (qdDeps db) \<and> (stateOf db d = Some StateFailed \<or> stateOf db d = Some StateCancelled))"

definition readyDeps :: "'m queueDB_scheme \<Rightarrow> string \<Rightarrow> bool" where
  "readyDeps db i \<longleftrightarrow> (\<forall>d. (i, d) \<in> set (qdDeps db) \<longrightarrow> stateOf db d = Some StateSucceeded)"

definition waiting :: "'m queueDB_scheme \<Rightarrow> string set \<Rightarrow> jobRow \<Rightarrow> bool" where
  "waiting db W r \<longleftrightarrow> \<not> failedDep db (rwID r) \<and> \<not> readyDeps db (rwID r) \<or>
     (\<exists>d \<in> W. (rwID r, d) \<in> set (qdDeps db))"

definition startedState :: "State \<Rightarrow> bool" where
  "startedState st \<longleftrightarrow> st = StateQueued \<or> st = StateLeased \<or> st = StateSucceeded"

text \<open>
  The invariant of the tables, relative to a set of terminal jobs whose dependents have still
  to be looked at; between two operations that set is empty.
\<close>

definition tablesOk :: "gotime \<Rightarrow> string set \<Rightarrow> 'm queueDB_scheme \<Rightarrow> bool" where
  "tablesOk now W db \<longleftrightarrow> uniqueRows db \<and> (\<forall>r \<in> set (qdJobs db). rowOk now r) \<and>
     (\<forall>(i, d) \<in> set (qdDeps db). hasJob db i \<and> hasJob db d) \<and> distinct (qdDeps db) \<and>
     (\<forall>r \<in> set (qdJobs db). startedState (rwState r) \<longrightarrow> readyDeps db (rwID r)) \<and>
     (\<forall>r \<in> set (qdJobs db). rwReason r = ReasonDependencyFailed \<longrightarrow> failedDep db (rwID r)) \<and>
     (\<forall>r \<in> set (qdJobs db). rwState r = StateBlocked \<longrightarrow> waiting db W r) \<and>
     (\<forall>d \<in> W. \<exists>st. stateOf db d = Some st \<and> terminal st)"

abbreviation queueOk :: "gotime \<Rightarrow> 'm queueDB_scheme \<Rightarrow> bool" where
  "queueOk now db \<equiv> tablesOk now {} db"

subsection \<open>Reading valid tables\<close>

lemma rowJob_simps [simp]:
  "jID (rowJob r) = rwID r" "jKey (rowJob r) = rwKey r" "jState (rowJob r) = rwState r"
  "jReason (rowJob r) = rwReason r" "jCreated (rowJob r) = rwCreated r" "jUpdated (rowJob r) = rwUpdated r"
  "jCancel (rowJob r) = rwCancel r" "jAttempt (rowJob r) = rwAttempt r" "jFence (rowJob r) = nat (rwFence r)"
  "jWorkspace (rowJob r) = rwWorkspace r" "jPool (rowJob r) = rwPool r" "jProfile (rowJob r) = rwProfile r"
  "jPayload (rowJob r) = rwPayload r"
  "jLeaseID (rowJob r) = nullString (rwLeaseID r)" "jHolder (rowJob r) = nullString (rwHolder r)"
  "jLeaseExpires (rowJob r) = (case rwLeaseUntil r of None \<Rightarrow> zeroTime | Some t \<Rightarrow> t)"
  "jOutcome (rowJob r) = (case rwOutcome r of None \<Rightarrow> StateOther [] | Some st \<Rightarrow> st)"
  "jSummary (rowJob r) = nullString (rwSummary r)" "jResultRef (rowJob r) = nullString (rwResultRef r)"
  by (simp_all add: rowJob_def)

lemma validateStoredJob_attempt: "validateStoredJob (rowJob r) \<Longrightarrow> 0 \<le> rwAttempt r"
  by (simp add: validateStoredJob_def)

lemma rowOk_scan: "rowOk now r \<Longrightarrow> scanJob r = Inr (rowJob r)"
  using validateStoredJob_attempt [of r] by (simp add: scanJob_def rowOk_def)

lemma rowOk_state:
  "rowOk now r \<Longrightarrow> rwState r \<in> {StateBlocked, StateQueued, StateLeased, StateSucceeded, StateFailed, StateCancelled}"
  by (auto simp: rowOk_def validateStoredJob_def split: State.splits)

lemma jobByID_ok:
  "\<forall>r \<in> set (qdJobs db). rowOk now r \<Longrightarrow> jobByID db i = Inr (map_option rowJob (rowOf db i))"
proof (cases "rowOf db i")
  case (Some r)
  moreover assume "\<forall>r \<in> set (qdJobs db). rowOk now r"
  ultimately have "scanJob r = Inr (rowJob r)" using rowOf_Some rowOk_scan by blast
  with Some show ?thesis by (simp add: jobByID_def jobBy_def rowOf_def)
qed (simp add: jobByID_def jobBy_def rowOf_def)

lemma dependencyScan_ok:
  "\<forall>r \<in> set (qdJobs db). rowOk now r \<Longrightarrow> \<forall>d \<in> set ds. rowOf db d \<noteq> None \<Longrightarrow>
   dependencyScan db blocked ds = Inr
     (if \<exists>d \<in> set ds. stateOf db d = Some StateFailed \<or> stateOf db d = Some StateCancelled
      then (StateFailed, ReasonDependencyFailed)
      else if blocked \<or> (\<exists>d \<in> set ds. stateOf db d \<noteq> Some StateSucceeded)
      then (StateBlocked, ReasonDependencyPending) else (StateQueued, ReasonNone))"
proof (induction db blocked ds rule: dependencyScan.induct)
  case (2 db blocked d ds)
  obtain r where r: "rowOf db d = Some r" using "2.prems"(2) by auto
  then have job: "jobByID db d = Inr (Some (rowJob r))" using jobByID_ok [OF "2.prems"(1)] by simp
  show ?case using 2 r job by (auto simp: stateOf_def)
qed simp

lemma dependencyState_ok:
  assumes "\<forall>r \<in> set (qdJobs db). rowOk now r" "\<forall>d \<in> set ds. rowOf db d \<noteq> None"
  shows "dependencyState db ds = Inr
     (if \<exists>d \<in> set ds. stateOf db d = Some StateFailed \<or> stateOf db d = Some StateCancelled
      then (StateFailed, ReasonDependencyFailed)
      else if \<exists>d \<in> set ds. stateOf db d \<noteq> Some StateSucceeded
      then (StateBlocked, ReasonDependencyPending) else (StateQueued, ReasonNone))"
  using dependencyScan_ok [OF assms, of False] by (simp add: dependencyState_def)

lemma dependencyState_row:
  assumes "tablesOk now W db"
  shows "dependencyState db (dependencyIDs db i) = Inr
     (if failedDep db i then (StateFailed, ReasonDependencyFailed)
      else if readyDeps db i then (StateQueued, ReasonNone) else (StateBlocked, ReasonDependencyPending))"
proof -
  have "\<forall>d \<in> set (dependencyIDs db i). rowOf db d \<noteq> None"
    using assms by (auto simp: tablesOk_def set_dependencyIDs hasJob_rowOf)
  from dependencyState_ok [OF _ this, of now] assms
  show ?thesis by (auto simp: tablesOk_def set_dependencyIDs failedDep_def readyDeps_def)
qed

subsection \<open>One row changes\<close>

text \<open>
  The effect of an UPDATE that touches the single row \<open>r\<close> of job \<open>i\<close>, on the states the
  dependency conditions read.
\<close>

lemma stateOf_update:
  assumes "keepsKeys f" "rowOf db i = Some r" "p r" "\<forall>x. p x \<longrightarrow> rwID x = i"
  shows "stateOf (updateJobs p f db) d = (if d = i then Some (rwState (f r)) else stateOf db d)"
proof (cases "d = i")
  case False
  then have "\<not> p x" if "rowOf db d = Some x" for x using assms(4) rowOf_Some [OF that] by blast
  with False assms(1) show ?thesis by (cases "rowOf db d") (simp_all add: stateOf_def)
qed (use assms(1,2,3) in \<open>simp add: stateOf_def\<close>)

lemma dep_conditions_update:
  assumes upd: "keepsKeys f" "rowOf db i = Some r" "p r" "\<forall>x. p x \<longrightarrow> rwID x = i"
    and "\<not> terminal (rwState r)"
  shows "failedDep db j \<Longrightarrow> failedDep (updateJobs p f db) j"
    and "readyDeps db j \<Longrightarrow> readyDeps (updateJobs p f db) j"
    and "waiting db W x \<Longrightarrow> waiting (updateJobs p f db) (if terminal (rwState (f r)) then insert i W else W) x"
proof -
  have i: "stateOf db i = Some (rwState r)" using upd(2) by (simp add: stateOf_def)
  note st = stateOf_update [of f db i r p, OF upd]
  show failed: "failedDep db j \<Longrightarrow> failedDep (updateJobs p f db) j" for j
    using i assms(5) unfolding failedDep_def st updateJobs_simps by (metis option.inject terminal_simps(2,3))
  show "readyDeps db j \<Longrightarrow> readyDeps (updateJobs p f db) j" for j
    using i assms(5) unfolding readyDeps_def st updateJobs_simps by (metis option.inject terminal_simps(1))
  show "waiting db W x \<Longrightarrow> waiting (updateJobs p f db) (if terminal (rwState (f r)) then insert i W else W) x"
  proof (cases "(rwID x, i) \<in> set (qdDeps db) \<and> terminal (rwState (f r))")
    case True
    then show ?thesis by (auto simp: waiting_def)
  next
    case False
    have "failedDep (updateJobs p f db) (rwID x) \<Longrightarrow> failedDep db (rwID x)"
      using False unfolding failedDep_def st updateJobs_simps by (auto split: if_splits)
    moreover have "readyDeps (updateJobs p f db) (rwID x) \<Longrightarrow> readyDeps db (rwID x)"
      using False i assms(5) unfolding readyDeps_def st updateJobs_simps by (auto split: if_splits)
    moreover assume "waiting db W x"
    ultimately show ?thesis by (auto simp: waiting_def)
  qed
qed

lemma tablesOk_update:
  assumes inv: "tablesOk now W db"
    and upd: "keepsKeys f" "rowOf db i = Some r" "p r" "\<forall>x. p x \<longrightarrow> rwID x = i"
    and old: "\<not> terminal (rwState r)"
    and new: "rowOk now (f r)"
    and started: "startedState (rwState (f r)) \<Longrightarrow> readyDeps db i"
    and reason: "rwReason (f r) = ReasonDependencyFailed \<Longrightarrow> failedDep db i"
    and blocked: "rwState (f r) = StateBlocked \<Longrightarrow> rwState r = StateBlocked"
  shows "tablesOk now (if terminal (rwState (f r)) then insert i W else W) (updateJobs p f db)"
proof -
  let ?db = "updateJobs p f db" and ?W = "if terminal (rwState (f r)) then insert i W else W"
  have un: "uniqueRows db" using inv by (simp add: tablesOk_def)
  have rows: "set (qdJobs ?db) = insert (f r) {x \<in> set (qdJobs db). rwID x \<noteq> i}"
  proof -
    have "p y \<longleftrightarrow> y = r" if "y \<in> set (qdJobs db)" for y
      using that un upd(2,3,4) rowOf_iff by (metis option.inject)
    moreover have "r \<in> set (qdJobs db)" "rwID r = i" using rowOf_Some [OF upd(2)] by auto
    ultimately show ?thesis using un upd(2,3) rowOf_row by fastforce
  qed
  have fid: "rwID (f r) = i" using upd(1) rowOf_Some [OF upd(2)] by (simp add: keepsKeys_def)
  note dep = dep_conditions_update [of f db i r p, OF upd old]
  have "r \<in> set (qdJobs db)" "rwID r = i" using rowOf_Some [OF upd(2)] by auto
  then have wr: "rwState r = StateBlocked \<Longrightarrow> waiting db W (f r)"
    using inv fid by (auto simp: tablesOk_def waiting_def)
  have has: "hasJob ?db j = hasJob db j" for j using upd(1) by (simp add: hasJob_rowOf)
  have w: "\<forall>d \<in> ?W. \<exists>st. stateOf ?db d = Some st \<and> terminal st"
    using inv old upd(2) unfolding stateOf_update [of f db i r p, OF upd]
    by (auto simp: tablesOk_def stateOf_def split: if_splits)
  have ok: "\<forall>x \<in> set (qdJobs ?db). rowOk now x"
    using inv new unfolding rows tablesOk_def by blast
  have fk: "\<forall>(i, d) \<in> set (qdDeps ?db). hasJob ?db i \<and> hasJob ?db d" "distinct (qdDeps ?db)"
    using inv by (simp_all add: tablesOk_def has)
  have st: "\<forall>x \<in> set (qdJobs ?db). startedState (rwState x) \<longrightarrow> readyDeps ?db (rwID x)"
    using inv started fid dep(2) unfolding rows tablesOk_def by blast
  have rs: "\<forall>x \<in> set (qdJobs ?db). rwReason x = ReasonDependencyFailed \<longrightarrow> failedDep ?db (rwID x)"
    using inv reason fid dep(1) unfolding rows tablesOk_def by blast
  have bl: "\<forall>x \<in> set (qdJobs ?db). rwState x = StateBlocked \<longrightarrow> waiting ?db ?W x"
  proof (intro ballI impI)
    fix x assume "x \<in> set (qdJobs ?db)" and b: "rwState x = StateBlocked"
    then consider "x = f r" | "x \<in> set (qdJobs db)" unfolding rows by blast
    then have "waiting db W x"
      using inv b blocked wr unfolding tablesOk_def by cases auto
    then show "waiting ?db ?W x" by (rule dep(3))
  qed
  show ?thesis
    unfolding tablesOk_def uniqueRows_update [OF upd(1)] using un ok fk st rs bl w by (intro conjI)
qed

subsection \<open>Every update of a valid row gives a valid row\<close>

lemma fixed_summaries:
  "Redact ''cancelled'' = (''cancelled'', False)"
  "Redact ''dependency failed'' = (''dependency failed'', False)"
  "Redact ''recovery_exhausted'' = (''recovery_exhausted'', False)"
  by code_simp+

lemma validateResult_fixed:
  assumes "terminal st" and "s \<in> {''cancelled'', ''dependency failed'', ''recovery_exhausted''}"
  shows "validateResult \<lparr>rsOutcome = st, rsSummary = s, rsResultRef = []\<rparr> = None"
  using assms by (auto simp: validateResult_def terminal_def fixed_summaries)

lemma rowOk_mono: "rowOk n r \<Longrightarrow> n \<le> now \<Longrightarrow> rowOk now r"
  by (simp add: rowOk_def)

text \<open>The columns of a valid row that its state fixes.\<close>

lemma rowOk_times: "rowOk n r \<Longrightarrow> n \<le> now \<Longrightarrow> zeroTime < now \<and> rwCreated r \<le> now \<and> zeroTime < rwCreated r"
  by (auto simp: rowOk_def validateStoredJob_def)

lemma nullString_simps [simp]: "nullString None = []" "nullString (Some v) = v"
  by (simp_all add: nullString_def)

lemma nullString_nullableString [simp]: "nullString (nullableString v) = v"
  by (simp add: nullableString_def)

lemma rowOk_settle:
  assumes r: "rowOk n r" "n \<le> now" "rwState r = StateBlocked"
    and st: "(st, reason) \<in> {(StateFailed, ReasonDependencyFailed), (StateQueued, ReasonNone)}"
  shows "rowOk now (settle st reason now r)"
proof -
  have "validateResult \<lparr>rsOutcome = StateFailed, rsSummary = ''dependency failed'', rsResultRef = []\<rparr> = None"
    by (rule validateResult_fixed) simp_all
  then show ?thesis
    using r st rowOk_times [OF r(1,2)]
    by (auto simp: rowOk_def validateStoredJob_def settle_def jobSpec_def jobResult_def noLease_def
        terminalReason_def MaxLeaseAttempts_def)
qed

lemma rowOk_recoverRow:
  assumes r: "rowOk n r" "n \<le> now" "rwState r = StateLeased"
    and v: "v = recoveredState (rwCancel r) (rwAttempt r)"
  shows "rowOk now (recoverRow v now r)"
proof -
  have "validateResult \<lparr>rsOutcome = StateFailed, rsSummary = ''recovery_exhausted'', rsResultRef = []\<rparr> = None"
    "validateResult \<lparr>rsOutcome = StateCancelled, rsSummary = ''cancelled'', rsResultRef = []\<rparr> = None"
    by (rule validateResult_fixed; simp)+
  then show ?thesis
    using r rowOk_times [OF r(1,2)] unfolding v
    by (auto simp: rowOk_def validateStoredJob_def recoverRow_def recoveredState_def jobSpec_def jobResult_def
        noLease_def terminalReason_def)
qed

lemma rowOk_leaseRow:
  assumes r: "rowOk n r" "n \<le> now" "rwState r = StateQueued"
    and l: "leaseIDPattern l" "holderPattern h" "now \<le> e"
  shows "rowOk now (leaseRow l h e now r)"
  using assms rowOk_times [OF r(1,2)]
  by (auto simp: rowOk_def validateStoredJob_def leaseRow_def jobSpec_def noLease_def wholeLease_def)

lemma rowOk_heartbeat:
  assumes r: "rowOk n r" "n \<le> now" "rwState r = StateLeased" and "now \<le> e"
  shows "rowOk now (r\<lparr>rwLeaseUntil := Some e, rwUpdated := now\<rparr>)"
  using assms rowOk_times [OF r(1,2)]
  by (auto simp: rowOk_def validateStoredJob_def jobSpec_def wholeLease_def)

lemma rowOk_completeRow:
  assumes r: "rowOk n r" "n \<le> now" "rwState r = StateLeased"
    and res: "validateResult result = None" "rwCancel r \<longrightarrow> rsOutcome result = StateCancelled"
  shows "rowOk now (completeRow result now r)"
proof -
  have "terminal (rsOutcome result)"
    using res(1) by (auto simp: validateResult_def terminal_def split: if_splits)
  then show ?thesis
    using assms rowOk_times [OF r(1,2)]
    by (cases result) (auto simp: rowOk_def validateStoredJob_def completeRow_def jobSpec_def jobResult_def wholeLease_def
        terminalReason_def terminal_def)
qed

lemma rowOk_cancelRow:
  assumes r: "rowOk n r" "n \<le> now" "rwState r = StateBlocked \<or> rwState r = StateQueued"
  shows "rowOk now (cancelRow now r)"
proof -
  have "validateResult \<lparr>rsOutcome = StateCancelled, rsSummary = ''cancelled'', rsResultRef = []\<rparr> = None"
    by (rule validateResult_fixed) simp_all
  then show ?thesis
    using r rowOk_times [OF r(1,2)]
    by (auto simp: rowOk_def validateStoredJob_def cancelRow_def jobSpec_def jobResult_def noLease_def
        terminalReason_def)
qed

lemma rowOk_requestCancel:
  assumes r: "rowOk n r" "n \<le> now" "rwState r = StateLeased"
  shows "rowOk now (r\<lparr>rwCancel := True, rwReason := ReasonCancelRequested, rwUpdated := now\<rparr>)"
  using assms rowOk_times [OF r(1,2)]
  by (auto simp: rowOk_def validateStoredJob_def jobSpec_def wholeLease_def)

subsection \<open>What an operation may do to existing rows\<close>

definition identity :: "jobRow \<Rightarrow> string \<times> string \<times> string \<times> string \<times> string \<times> string \<times> gotime" where
  "identity r = (rwID r, rwKey r, rwWorkspace r, rwPool r, rwProfile r, rwPayload r, rwCreated r)"

definition rowLe :: "jobRow \<Rightarrow> jobRow \<Rightarrow> bool" where
  "rowLe r r' \<longleftrightarrow> identity r' = identity r \<and> rwAttempt r \<le> rwAttempt r' \<and> rwFence r \<le> rwFence r' \<and>
     (terminal (rwState r) \<longrightarrow> r' = r) \<and> (activeState (rwState r') \<longrightarrow> activeState (rwState r)) \<and>
     (rwState r' = StateBlocked \<longrightarrow> rwState r = StateBlocked)"

definition evolves :: "'m queueDB_scheme \<Rightarrow> 'm queueDB_scheme \<Rightarrow> bool" where
  "evolves db db' \<longleftrightarrow> qdDeps db' = qdDeps db \<and> queueDB.more db' = queueDB.more db \<and>
     list_all2 rowLe (qdJobs db) (qdJobs db')"

lemma rowLe_refl [simp]: "rowLe r r"
  by (simp add: rowLe_def)

lemma rowLe_id: "rowLe r r' \<Longrightarrow> rwID r' = rwID r"
  by (simp add: rowLe_def identity_def)

lemma rowLe_trans:
  assumes "rowLe r r'" "rowLe r' r''"
  shows "rowLe r r''"
proof -
  have "rwAttempt r \<le> rwAttempt r''" "rwFence r \<le> rwFence r''"
    using assms unfolding rowLe_def by linarith+
  then show ?thesis using assms unfolding rowLe_def by (intro conjI) (metis+)
qed

lemma evolves_refl [simp]: "evolves db db"
  by (simp add: evolves_def list_all2_refl)

lemma evolves_trans [trans]: "evolves db db' \<Longrightarrow> evolves db' db'' \<Longrightarrow> evolves db db''"
proof -
  assume "evolves db db'" "evolves db' db''"
  then have "list_all2 rowLe (qdJobs db) (qdJobs db')" "list_all2 rowLe (qdJobs db') (qdJobs db'')"
    by (simp_all add: evolves_def)
  then have "list_all2 rowLe (qdJobs db) (qdJobs db'')" by (rule list_all2_trans [rotated]) (rule rowLe_trans)
  with \<open>evolves db db'\<close> \<open>evolves db' db''\<close> show ?thesis by (simp add: evolves_def)
qed

lemma evolves_update: "(\<And>r. p r \<Longrightarrow> rowLe r (f r)) \<Longrightarrow> evolves db (updateJobs p f db)"
  by (auto simp: evolves_def updateJobs_def list_all2_conv_all_nth)

lemma find_list_all2:
  "list_all2 R xs ys \<Longrightarrow> (\<And>x y. R x y \<Longrightarrow> P x = P y) \<Longrightarrow>
   rel_option R (find P xs) (find P ys)"
  by (induction xs ys rule: list_all2_induct) auto

lemma evolves_rowOf: "evolves db db' \<Longrightarrow> rel_option rowLe (rowOf db i) (rowOf db' i)"
  unfolding evolves_def rowOf_def by (rule find_list_all2) (auto simp: rowLe_id)

lemma evolves_terminal:
  "evolves db db' \<Longrightarrow> rowOf db i = Some r \<Longrightarrow> terminal (rwState r) \<Longrightarrow> rowOf db' i = Some r"
  using evolves_rowOf [of db db' i] by (auto simp: rowLe_def option_rel_Some1)

lemma evolves_blocked:
  "evolves db db' \<Longrightarrow> stateOf db' i = Some StateBlocked \<Longrightarrow> stateOf db i = Some StateBlocked"
  using evolves_rowOf [of db db' i] by (auto simp: rowLe_def stateOf_def option_rel_Some2)

lemma evolves_stateOf_terminal:
  "evolves db db' \<Longrightarrow> stateOf db i = Some st \<Longrightarrow> terminal st \<Longrightarrow> stateOf db' i = Some st"
  using evolves_terminal [of db db' i] by (auto simp: stateOf_def)

subsection \<open>Propagation restores the invariant\<close>

lemma tablesOk_mono: "tablesOk n W db \<Longrightarrow> n \<le> now \<Longrightarrow> tablesOk now W db"
  unfolding tablesOk_def using rowOk_mono by blast

lemma waiting_mono: "waiting db W r \<Longrightarrow> W \<subseteq> W' \<Longrightarrow> waiting db W' r"
  by (auto simp: waiting_def)

lemma tablesOk_drop:
  assumes "tablesOk now V db" "W \<subseteq> V" "\<forall>r \<in> set (qdJobs db). rwState r = StateBlocked \<longrightarrow> waiting db W r"
  shows "tablesOk now W db"
  using assms unfolding tablesOk_def by blast

lemma tablesOk_row:
  "tablesOk now W db \<Longrightarrow> rowOf db i = Some r \<Longrightarrow> rowOk now r \<and> rwID r = i \<and> r \<in> set (qdJobs db)"
  using rowOf_Some unfolding tablesOk_def by blast

lemma tablesOk_dep_row: "tablesOk now W db \<Longrightarrow> (i, d) \<in> set (qdDeps db) \<Longrightarrow> \<exists>r. rowOf db i = Some r"
  unfolding tablesOk_def hasJob_rowOf by auto

lemma settle_simps [simp]:
  "rwState (settle st reason now r) = st" "rwReason (settle st reason now r) = reason"
  "rwID (settle st reason now r) = rwID r"
  by (simp_all add: settle_def)

lemma settle_rowLe:
  "rwState r = StateBlocked \<Longrightarrow> st \<noteq> StateBlocked \<Longrightarrow> rowLe r (settle st reason now r)"
  by (auto simp: rowLe_def identity_def settle_def activeState_def)

text \<open>One dependent, looked at while the dependents of \<open>d\<close> are being settled.\<close>

lemma settleDependent_ok:
  assumes inv: "tablesOk now (insert d W) db" and dep: "(i, d) \<in> set (qdDeps db)"
  shows "\<exists>db' t. settleDependent db now i = Inr (db', t) \<and> evolves db db' \<and>
    tablesOk now (insert d (if t then insert i W else W)) db' \<and>
    (t \<longrightarrow> stateOf db i = Some StateBlocked) \<and>
    (\<forall>x. waiting db W x \<longrightarrow> waiting db' (if t then insert i W else W) x) \<and>
    (\<forall>r. rowOf db' i = Some r \<and> rwState r = StateBlocked \<longrightarrow> waiting db' W r)"
proof -
  obtain r where r: "rowOf db i = Some r" using tablesOk_dep_row [OF inv dep] by blast
  note ok = tablesOk_row [OF inv r]
  have job: "jobByID db i = Inr (Some (rowJob r))"
    using jobByID_ok [of db now i] inv r by (simp add: tablesOk_def)
  show ?thesis
  proof (cases "rwState r = StateBlocked \<and> (failedDep db i \<or> readyDeps db i)")
    case False
    then have "settleDependent db now i = Inr (db, False)"
      using job by (auto simp: settleDependent_def dependencyState_row [OF inv])
    moreover have "\<forall>r. rowOf db i = Some r \<and> rwState r = StateBlocked \<longrightarrow> waiting db W r"
      using False r ok by (auto simp: waiting_def)
    ultimately show ?thesis using inv by auto
  next
    case True
    define st reason where "st = (if failedDep db i then StateFailed else StateQueued)"
      and "reason = (if failedDep db i then ReasonDependencyFailed else ReasonNone)"
    let ?p = "\<lambda>r. rwID r = i \<and> rwState r = StateBlocked" and ?f = "settle st reason now"
    let ?db = "updateJobs ?p ?f db"
    have run: "settleDependent db now i = Inr (?db, terminal st)"
      using job True by (auto simp: settleDependent_def dependencyState_row [OF inv] st_def reason_def)
    have upd: "keepsKeys ?f" "rowOf db i = Some r" "?p r" "\<forall>x. ?p x \<longrightarrow> rwID x = i"
      using r ok True by auto
    have old: "\<not> terminal (rwState r)" using True by simp
    have new: "rowOk now (?f r)"
      by (rule rowOk_settle) (use ok True in \<open>auto simp: st_def reason_def\<close>)
    have tab: "tablesOk now (if terminal (rwState (?f r)) then insert i (insert d W) else insert d W) ?db"
      by (rule tablesOk_update [OF inv upd old new])
        (use True in \<open>auto simp: st_def reason_def startedState_def split: if_splits\<close>)
    have ev: "evolves db ?db"
      by (rule evolves_update) (auto intro!: settle_rowLe simp: st_def)
    have wait: "\<forall>x. waiting db W x \<longrightarrow> waiting ?db (if terminal st then insert i W else W) x"
      using dep_conditions_update(3) [OF upd old] by simp
    have row: "rowOf ?db i = Some (?f r)" using upd by simp
    have st: "st \<noteq> StateBlocked" by (simp add: st_def)
    have "(if terminal (rwState (?f r)) then insert i (insert d W) else insert d W) =
        insert d (if terminal st then insert i W else W)" by auto
    with tab have tab': "tablesOk now (insert d (if terminal st then insert i W else W)) ?db" by simp
    have "\<forall>r. rowOf ?db i = Some r \<and> rwState r = StateBlocked \<longrightarrow> waiting ?db W r"
      using row st by (simp only: row) simp
    moreover have "stateOf db i = Some StateBlocked" using True r by (simp add: stateOf_def)
    ultimately show ?thesis using run tab' ev wait by blast
  qed
qed

lemma settleDependents_ok:
  assumes "tablesOk now (insert d W) db" and "\<forall>i \<in> set is. (i, d) \<in> set (qdDeps db)"
    and "\<forall>r \<in> set (qdJobs db). rwState r = StateBlocked \<and> rwID r \<notin> set is \<longrightarrow> waiting db W r"
  shows "\<exists>db' added. settleDependents db now is = Inr (db', added) \<and> evolves db db' \<and>
    tablesOk now (W \<union> set added) db' \<and> (\<forall>i \<in> set added. stateOf db i = Some StateBlocked)"
  using assms
proof (induction "is" arbitrary: db W)
  case Nil
  then show ?case using tablesOk_drop [of now "insert d W" db W] by auto
next
  case (Cons i "is")
  obtain db1 t where one: "settleDependent db now i = Inr (db1, t)" "evolves db db1"
      "tablesOk now (insert d (if t then insert i W else W)) db1"
      "t \<longrightarrow> stateOf db i = Some StateBlocked"
      "\<forall>x. waiting db W x \<longrightarrow> waiting db1 (if t then insert i W else W) x"
      "\<forall>r. rowOf db1 i = Some r \<and> rwState r = StateBlocked \<longrightarrow> waiting db1 W r"
    using settleDependent_ok [OF Cons.prems(1), of i] Cons.prems(2) by (metis list.set_intros(1))
  let ?W = "if t then insert i W else W"
  have un: "uniqueRows db" "uniqueRows db1" using Cons.prems(1) one(3) by (auto simp: tablesOk_def)
  have blk: "\<forall>r \<in> set (qdJobs db1). rwState r = StateBlocked \<and> rwID r \<notin> set is \<longrightarrow> waiting db1 ?W r"
  proof (intro ballI impI)
    fix r assume r: "r \<in> set (qdJobs db1)" "rwState r = StateBlocked \<and> rwID r \<notin> set is"
    show "waiting db1 ?W r"
    proof (cases "rwID r = i")
      case True
      have "rowOf db1 i = Some r" using rowOf_row [OF un(2) r(1)] True by simp
      then have "waiting db1 W r" using one(6) r(2) by blast
      then show ?thesis by (rule waiting_mono) auto
    next
      case False
      have "rowOf db1 (rwID r) = Some r" using r(1) un(2) rowOf_row by blast
      then obtain r0 where r0: "rowOf db (rwID r) = Some r0" "rowLe r0 r"
        using evolves_rowOf [OF one(2), of "rwID r"] by (auto simp: option_rel_Some2)
      then have "r0 \<in> set (qdJobs db)" "rwState r0 = StateBlocked" "rwID r0 = rwID r"
        using r(2) rowOf_Some by (auto simp: rowLe_def identity_def)
      then have "waiting db W r0" using Cons.prems(3) False r(2) by auto
      then have "waiting db1 ?W r0" using one(5) by blast
      then show ?thesis using \<open>rwID r0 = rwID r\<close> by (simp add: waiting_def)
    qed
  qed
  have "qdDeps db1 = qdDeps db" using one(2) by (simp add: evolves_def)
  then obtain db' added where rest: "settleDependents db1 now is = Inr (db', added)" "evolves db1 db'"
      "tablesOk now (?W \<union> set added) db'" "\<forall>i \<in> set added. stateOf db1 i = Some StateBlocked"
    using Cons.IH [OF one(3) _ blk] Cons.prems(2) by auto
  have "settleDependents db now (i # is) = Inr (db', if t then i # added else added)"
    using one(1) rest(1) by simp
  moreover have "?W \<union> set added = W \<union> set (if t then i # added else added)" by auto
  with rest(3) have "tablesOk now (W \<union> set (if t then i # added else added)) db'" by simp
  moreover have "\<forall>j \<in> set (if t then i # added else added). stateOf db j = Some StateBlocked"
    using one(4) rest(4) evolves_blocked [OF one(2)] by auto
  ultimately show ?case using evolves_trans [OF one(2) rest(2)] by blast
qed

lemma propagateLoop_ok:
  assumes "tablesOk now {x \<in> set queue. x \<notin> set seen} db"
    and "\<forall>x \<in> set seen \<union> set queue. \<exists>st. stateOf db x = Some st \<and> terminal st"
  shows "\<exists>db'. propagateLoop db now seen queue = Inr db' \<and> evolves db db' \<and> queueOk now db'"
  using assms
proof (induction db now seen queue rule: propagateLoop.induct)
  case (2 db now seen d queue)
  show ?case
  proof (cases "d \<in> set seen")
    case True
    then have "{x \<in> set (d # queue). x \<notin> set seen} = {x \<in> set queue. x \<notin> set seen}" by auto
    then show ?thesis using 2 True by auto
  next
    case False
    let ?W = "{x \<in> set queue. x \<notin> set (d # seen)}"
    have W: "{x \<in> set (d # queue). x \<notin> set seen} = insert d ?W" using False by auto
    have inv: "tablesOk now (insert d ?W) db" using "2.prems"(1) W by simp
    have "\<forall>r \<in> set (qdJobs db). rwState r = StateBlocked \<and> rwID r \<notin> set (dependentsOf db d) \<longrightarrow> waiting db ?W r"
      using inv by (auto simp: tablesOk_def waiting_def set_dependentsOf)
    then obtain db' added where run: "settleDependents db now (dependentsOf db d) = Inr (db', added)"
      and ev: "evolves db db'" and tab: "tablesOk now (?W \<union> set added) db'"
      and added: "\<forall>i \<in> set added. stateOf db i = Some StateBlocked"
      using settleDependents_ok [OF inv, of "dependentsOf db d"] by (auto simp: set_dependentsOf)
    have "x \<notin> set (d # seen)" if "x \<in> set added" for x
    proof
      assume "x \<in> set (d # seen)"
      then obtain st where "stateOf db x = Some st" "terminal st" using "2.prems"(2) by auto
      with added that show False by auto
    qed
    then have "?W \<union> set added = {x \<in> set (queue @ added). x \<notin> set (d # seen)}" by auto
    with tab have tab': "tablesOk now {x \<in> set (queue @ added). x \<notin> set (d # seen)} db'" by simp
    have ends: "\<forall>x \<in> set (d # seen) \<union> set (queue @ added). \<exists>st. stateOf db' x = Some st \<and> terminal st"
    proof
      fix x assume "x \<in> set (d # seen) \<union> set (queue @ added)"
      then consider "x \<in> set seen \<union> set (d # queue)" | "x \<in> ?W \<union> set added" by auto
      then show "\<exists>st. stateOf db' x = Some st \<and> terminal st"
      proof cases
        case 1
        then show ?thesis using "2.prems"(2) evolves_stateOf_terminal [OF ev] by blast
      next
        case 2
        have "\<forall>d \<in> ?W \<union> set added. \<exists>st. stateOf db' d = Some st \<and> terminal st"
          using tab unfolding tablesOk_def by (elim conjE)
        with 2 show ?thesis by blast
      qed
    qed
    from "2.IH"(2) [OF False run refl tab' ends] run False ev evolves_trans show ?thesis by auto
  qed
qed simp

lemma propagate_ok:
  assumes "tablesOk now {i} db"
  shows "\<exists>db'. propagate db i now = Inr db' \<and> evolves db db' \<and> queueOk now db'"
proof -
  have "{x \<in> set [i]. x \<notin> set []} = {i}" by auto
  then show ?thesis
    using propagateLoop_ok [of now "[i]" "[]" db] assms by (auto simp: propagate_def tablesOk_def)
qed

text \<open>Propagation changes blocked rows only, and leases none of them.\<close>

definition onlyBlocked :: "'m queueDB_scheme \<Rightarrow> 'm queueDB_scheme \<Rightarrow> bool" where
  "onlyBlocked db db' \<longleftrightarrow>
     (\<forall>i r. rowOf db i = Some r \<and> rwState r \<noteq> StateBlocked \<longrightarrow> rowOf db' i = Some r) \<and>
     (\<forall>i r. rowOf db' i = Some r \<and> rwState r = StateLeased \<longrightarrow> rowOf db i = Some r)"

lemma onlyBlocked_refl [simp]: "onlyBlocked db db"
  by (simp add: onlyBlocked_def)

lemma onlyBlocked_trans: "onlyBlocked db db' \<Longrightarrow> onlyBlocked db' db'' \<Longrightarrow> onlyBlocked db db''"
  unfolding onlyBlocked_def by blast

lemma settleDependent_onlyBlocked: "settleDependent db now i = Inr (db', t) \<Longrightarrow> onlyBlocked db db'"
  by (erule settleDependent_cases) (auto simp: onlyBlocked_def)

lemma settleDependents_onlyBlocked: "settleDependents db now is = Inr (db', added) \<Longrightarrow> onlyBlocked db db'"
proof (induction db now "is" arbitrary: added rule: settleDependents.induct)
  case (2 db now i "is")
  then obtain db1 t ad where *: "settleDependent db now i = Inr (db1, t)" "settleDependents db1 now is = Inr (db', ad)"
    by (auto split: sum.splits prod.splits)
  show ?case
    by (rule onlyBlocked_trans [OF settleDependent_onlyBlocked [OF *(1)] "2.IH" [OF *(1) refl *(2)]])
qed simp

lemma propagateLoop_onlyBlocked: "propagateLoop db now seen queue = Inr db' \<Longrightarrow> onlyBlocked db db'"
proof (induction db now seen queue rule: propagateLoop.induct)
  case (2 db now seen d queue)
  show ?case
  proof (cases "d \<in> set seen")
    case False
    then obtain db1 added where *: "settleDependents db now (dependentsOf db d) = Inr (db1, added)"
      "propagateLoop db1 now (d # seen) (queue @ added) = Inr db'"
      using "2.prems" by (auto split: sum.splits prod.splits)
    show ?thesis
      by (rule onlyBlocked_trans [OF settleDependents_onlyBlocked [OF *(1)] "2.IH"(2) [OF False *(1) refl *(2)]])
  qed (use 2 in auto)
qed simp

lemma propagate_onlyBlocked: "propagate db i now = Inr db' \<Longrightarrow> onlyBlocked db db'"
  unfolding propagate_def by (rule propagateLoop_onlyBlocked)

text \<open>A job leaves the active states and its dependents are settled.\<close>

lemma retire_ok:
  assumes inv: "queueOk now db"
    and upd: "keepsKeys f" "rowOf db i = Some r" "p r" "\<forall>x. p x \<longrightarrow> rwID x = i"
    and old: "\<not> terminal (rwState r)" and new: "rowOk now (f r)" "terminal (rwState (f r))"
    and started: "rwState (f r) = StateSucceeded \<Longrightarrow> rwState r = StateLeased"
    and reason: "rwReason (f r) \<noteq> ReasonDependencyFailed"
    and le: "\<And>x. p x \<Longrightarrow> rowLe x (f x)"
  shows "\<exists>db'. propagate (updateJobs p f db) i now = Inr db' \<and> evolves db db' \<and> queueOk now db' \<and>
    rowOf db' i = Some (f r)"
proof -
  let ?db = "updateJobs p f db"
  have "rwState r = StateLeased \<Longrightarrow> readyDeps db i"
    using inv tablesOk_row [OF inv upd(2)] by (auto simp: tablesOk_def startedState_def)
  then have "tablesOk now (if terminal (rwState (f r)) then insert i {} else {}) ?db"
    by (intro tablesOk_update [OF inv upd old new(1)])
      (use new(2) started reason in \<open>auto simp: startedState_def terminal_def\<close>)
  then have "tablesOk now {i} ?db" using new(2) by simp
  then obtain db' where run: "propagate ?db i now = Inr db'" "evolves ?db db'" "queueOk now db'"
    using propagate_ok by blast
  have "rowOf ?db i = Some (f r)" using upd by simp
  then have "rowOf db' i = Some (f r)"
    using propagate_onlyBlocked [OF run(1)] new(2) unfolding onlyBlocked_def by (metis terminal_simps(4))
  moreover have "evolves db ?db" using le by (rule evolves_update)
  ultimately show ?thesis using run evolves_trans by blast
qed

subsection \<open>Recovery of expired leases\<close>

lemma recoverRow_simps [simp]:
  "rwState (recoverRow v now r) = fst v" "rwReason (recoverRow v now r) = fst (snd v)"
  "rwID (recoverRow v now r) = rwID r"
  by (simp_all add: recoverRow_def split: prod.splits)

lemma recoveredState_cases:
  obtains (again) "fst (recoveredState c a) = StateQueued" "fst (snd (recoveredState c a)) = ReasonLeaseExpired"
      "\<not> c" "a < MaxLeaseAttempts"
  | (over) "terminal (fst (recoveredState c a))" "fst (recoveredState c a) \<noteq> StateSucceeded"
      "fst (snd (recoveredState c a)) \<noteq> ReasonDependencyFailed" "c \<or> MaxLeaseAttempts \<le> a"
  by (cases "c \<or> MaxLeaseAttempts \<le> a") (auto simp: recoveredState_def)

lemma recoverRow_rowLe:
  "rwState r = StateLeased \<Longrightarrow> fst v \<noteq> StateBlocked \<Longrightarrow> rowLe r (recoverRow v now r)"
  by (auto simp: rowLe_def identity_def recoverRow_def activeState_def split: prod.splits)

text \<open>One expired lease: the row is requeued, or it ends and its dependents are settled.\<close>

lemma recover_one:
  assumes inv: "queueOk now db" and r: "rowOf db i = Some r" "rwState r = StateLeased"
    and v: "v = recoveredState (rwCancel r) (rwAttempt r)"
    and db1: "db1 = updateJobs (\<lambda>r. rwID r = i \<and> rwState r = StateLeased) (recoverRow v now) db"
  shows "\<exists>db2. (if terminal (fst v) then propagate db1 i now else Inr db1) = Inr db2 \<and> evolves db db2 \<and>
    queueOk now db2 \<and> rowOf db2 i = Some (recoverRow v now r)"
proof -
  let ?p = "\<lambda>r. rwID r = i \<and> rwState r = StateLeased" and ?f = "recoverRow v now"
  note ok = tablesOk_row [OF inv r(1)]
  have upd: "keepsKeys ?f" "rowOf db i = Some r" "?p r" "\<forall>x. ?p x \<longrightarrow> rwID x = i"
    using r ok by auto
  have old: "\<not> terminal (rwState r)" using r(2) by simp
  have new: "rowOk now (?f r)" using rowOk_recoverRow [of now r now v] ok r(2) v by simp
  have ready: "readyDeps db i" using inv ok r(2) by (auto simp: tablesOk_def startedState_def)
  show ?thesis
  proof (cases "rwCancel r" "rwAttempt r" rule: recoveredState_cases)
    case again
    have "tablesOk now (if terminal (rwState (?f r)) then insert i {} else {}) db1"
      unfolding db1 by (rule tablesOk_update [OF inv upd old new]) (use again v ready in auto)
    moreover have "evolves db db1"
      unfolding db1 by (rule evolves_update) (use again v in \<open>auto intro!: recoverRow_rowLe\<close>)
    moreover have "rowOf db1 i = Some (?f r)" unfolding db1 using upd by simp
    ultimately show ?thesis using again v by simp
  next
    case over
    have ne: "fst v \<noteq> StateBlocked" using over(1) v by auto
    show ?thesis
      using retire_ok [OF inv upd old new] over v recoverRow_rowLe [OF _ ne] unfolding db1 by auto
  qed
qed

definition stillLeased :: "'m queueDB_scheme \<Rightarrow> (string \<times> bool \<times> int) list \<Rightarrow> bool" where
  "stillLeased db items \<longleftrightarrow> distinct (map fst items) \<and>
     (\<forall>(i, c, a) \<in> set items. \<exists>r. rowOf db i = Some r \<and> rwState r = StateLeased \<and> rwCancel r = c \<and> rwAttempt r = a)"

lemma recoverItems_ok:
  assumes "queueOk now db" "stillLeased db items"
  shows "\<exists>db'. recoverItems db now items = Inr db' \<and> evolves db db' \<and> queueOk now db' \<and>
    (\<forall>i r. rowOf db' i = Some r \<and> rwState r = StateLeased \<longrightarrow> rowOf db i = Some r \<and> i \<notin> fst ` set items) \<and>
    (\<forall>i r. rowOf db i = Some r \<and> rwState r \<noteq> StateBlocked \<longrightarrow> rowOf db' i = Some
       (if i \<in> fst ` set items then recoverRow (recoveredState (rwCancel r) (rwAttempt r)) now r else r))"
  using assms
proof (induction items arbitrary: db)
  case (Cons item items)
  obtain i c a where item: "item = (i, c, a)" by (cases item)
  obtain r where r: "rowOf db i = Some r" "rwState r = StateLeased" "rwCancel r = c" "rwAttempt r = a"
    using Cons.prems(2) by (auto simp: stillLeased_def item)
  define v where "v = recoveredState c a"
  define db1 where "db1 = updateJobs (\<lambda>r. rwID r = i \<and> rwState r = StateLeased) (recoverRow v now) db"
  obtain db2 where run: "(if terminal (fst v) then propagate db1 i now else Inr db1) = Inr db2"
    and ev: "evolves db db2" and ok: "queueOk now db2" and row: "rowOf db2 i = Some (recoverRow v now r)"
    using recover_one [OF Cons.prems(1) r(1,2) _ db1_def] r(3,4) by (auto simp: v_def)
  have notLeased: "fst v \<noteq> StateLeased" by (simp add: v_def recoveredState_def)
  have ob: "onlyBlocked db1 db2"
    using run propagate_onlyBlocked by (auto split: if_splits)
  have db1: "rowOf db1 j = (if j = i then Some (recoverRow v now r) else rowOf db j)" for j
    using r rowOf_Some [of db] unfolding db1_def by (cases "rowOf db j") auto
  have other: "rowOf db2 j = Some x" if "rowOf db j = Some x" "j \<noteq> i" "rwState x \<noteq> StateBlocked" for j x
  proof -
    have "rowOf db1 j = Some x" using db1 [of j] that(1,2) by simp
    with ob that(3) show ?thesis unfolding onlyBlocked_def by blast
  qed
  have origin: "rowOf db j = Some x \<and> j \<noteq> i" if "rowOf db2 j = Some x" "rwState x = StateLeased" for j x
  proof -
    have "rowOf db1 j = Some x" using ob that unfolding onlyBlocked_def by blast
    with db1 [of j] that(2) notLeased show ?thesis by (auto split: if_splits)
  qed
  have "\<exists>x. rowOf db2 j = Some x \<and> rwState x = StateLeased \<and> rwCancel x = d \<and> rwAttempt x = b"
    if m: "(j, d, b) \<in> set items" for j d b
  proof -
    obtain x where "rowOf db j = Some x" "rwState x = StateLeased" "rwCancel x = d" "rwAttempt x = b"
      using Cons.prems(2) m by (fastforce simp: stillLeased_def)
    moreover have "j \<noteq> i" using Cons.prems(2) m by (auto simp: stillLeased_def item image_iff)
    ultimately show ?thesis using other by auto
  qed
  then have "stillLeased db2 items" using Cons.prems(2) by (auto simp: stillLeased_def)
  from Cons.IH [OF ok this] obtain db' where rest: "recoverItems db2 now items = Inr db'" "evolves db2 db'"
      "queueOk now db'"
      "\<forall>i r. rowOf db' i = Some r \<and> rwState r = StateLeased \<longrightarrow> rowOf db2 i = Some r \<and> i \<notin> fst ` set items"
      "\<forall>i r. rowOf db2 i = Some r \<and> rwState r \<noteq> StateBlocked \<longrightarrow> rowOf db' i = Some
         (if i \<in> fst ` set items then recoverRow (recoveredState (rwCancel r) (rwAttempt r)) now r else r)"
    by (elim exE conjE)
  have "recoverItems db now (item # items) = Inr db'"
    using run rest(1) by (simp add: item v_def [symmetric] db1_def [symmetric] split: if_splits)
  moreover have "rowOf db j = Some x \<and> j \<notin> fst ` set (item # items)"
    if "rowOf db' j = Some x" "rwState x = StateLeased" for j x
    using rest(4) origin that by (auto simp: item)
  moreover have "rowOf db' j = Some
      (if j \<in> fst ` set (item # items) then recoverRow (recoveredState (rwCancel x) (rwAttempt x)) now x else x)"
    if x: "rowOf db j = Some x" "rwState x \<noteq> StateBlocked" for j x
  proof (cases "j = i")
    case True
    have "i \<notin> fst ` set items" using Cons.prems(2) by (auto simp: stillLeased_def item)
    moreover have "rwState (recoverRow v now r) \<noteq> StateBlocked" by (simp add: v_def recoveredState_def)
    ultimately have "rowOf db' i = Some (recoverRow v now r)"
      using rest(5) [rule_format, of i "recoverRow v now r"] row by simp
    then show ?thesis using True x r by (simp add: item v_def)
  next
    case False
    then show ?thesis
      using rest(5) [rule_format, of j x] other [OF x(1) False x(2)] x(2) by (simp add: item)
  qed
  ultimately show ?case using evolves_trans [OF ev rest(2)] rest(3) by blast
qed simp

lemma recoverExpired_ok:
  assumes "queueOk n db" "n \<le> now"
  shows "\<exists>db'. recoverExpired db now = Inr db' \<and> evolves db db' \<and> queueOk now db' \<and>
    (\<forall>i r. rowOf db' i = Some r \<and> rwState r = StateLeased \<longrightarrow> rowOf db i = Some r \<and> \<not> expiredLease now r) \<and>
    (\<forall>i r. rowOf db i = Some r \<and> \<not> expiredLease now r \<and> rwState r \<noteq> StateBlocked \<longrightarrow> rowOf db' i = Some r) \<and>
    (\<forall>i r. rowOf db i = Some r \<and> expiredLease now r \<longrightarrow>
       rowOf db' i = Some (recoverRow (recoveredState (rwCancel r) (rwAttempt r)) now r))"
proof -
  let ?rows = "filter (expiredLease now) (qdJobs db)"
  let ?items = "map (\<lambda>r. (rwID r, rwCancel r, rwAttempt r)) ?rows"
  have ok: "queueOk now db" using tablesOk_mono assms by blast
  then have un: "uniqueRows db" by (simp add: tablesOk_def)
  have ids: "i \<in> fst ` set ?items \<longleftrightarrow> expiredLease now r" if "rowOf db i = Some r" for i r
  proof
    assume "i \<in> fst ` set ?items"
    then obtain x where "x \<in> set (qdJobs db)" "expiredLease now x" "rwID x = i" by auto
    with that rowOf_row [OF un] show "expiredLease now r" by (metis option.inject)
  next
    assume "expiredLease now r"
    with rowOf_Some [OF that] have "(i, rwCancel r, rwAttempt r) \<in> set ?items" by auto
    then show "i \<in> fst ` set ?items" by force
  qed
  have "distinct (map fst ?items)"
    using un by (simp add: uniqueRows_def comp_def distinct_map inj_on_def)
  then have "stillLeased db ?items"
    using rowOf_row [OF un] by (auto simp: stillLeased_def expiredLease_def)
  from recoverItems_ok [OF ok this] obtain db' where *: "recoverItems db now ?items = Inr db'" "evolves db db'"
      "queueOk now db'"
      "\<forall>i r. rowOf db' i = Some r \<and> rwState r = StateLeased \<longrightarrow> rowOf db i = Some r \<and> i \<notin> fst ` set ?items"
      "\<forall>i r. rowOf db i = Some r \<and> rwState r \<noteq> StateBlocked \<longrightarrow> rowOf db' i = Some
         (if i \<in> fst ` set ?items then recoverRow (recoveredState (rwCancel r) (rwAttempt r)) now r else r)"
    by (elim exE conjE)
  show ?thesis unfolding recoverExpired_def
  proof (intro exI [of _ db'] conjI allI impI)
    show "rowOf db i = Some r" "\<not> expiredLease now r" if "rowOf db' i = Some r \<and> rwState r = StateLeased" for i r
      using *(4) ids that by blast+
    show "rowOf db' i = Some r" if "rowOf db i = Some r \<and> \<not> expiredLease now r \<and> rwState r \<noteq> StateBlocked" for i r
      using *(5) [rule_format, of i r] ids [of i r] that by simp
    show "rowOf db' i = Some (recoverRow (recoveredState (rwCancel r) (rwAttempt r)) now r)"
      if "rowOf db i = Some r \<and> expiredLease now r" for i r
      using *(5) [rule_format, of i r] ids [of i r] that by (simp add: expiredLease_def)
  qed (use * in auto)
qed

subsection \<open>Enqueue keeps the invariant\<close>

lemma validateSpec_core:
  "validateSpec spec = None \<Longrightarrow>
   idempotencyPattern (spIdempotencyKey spec) \<and> workspacePattern (spWorkspace spec) \<and> poolPattern (spPool spec) \<and>
   profilePattern (spProfile spec) \<and> payloadHashPattern (spPayloadHash spec) \<and> distinct (spDependencies spec)"
  by (auto simp: validateSpec_def checkDependencies_None split: if_splits)

lemma canonicalSpec_simps [simp]:
  "spIdempotencyKey (canonicalSpec spec) = spIdempotencyKey spec" "spWorkspace (canonicalSpec spec) = spWorkspace spec"
  "spPool (canonicalSpec spec) = spPool spec" "spProfile (canonicalSpec spec) = spProfile spec"
  "spPayloadHash (canonicalSpec spec) = spPayloadHash spec"
  "spDependencies (canonicalSpec spec) = sort (spDependencies spec)"
  by (auto simp: canonicalSpec_def)

lemma dependencyScan_result:
  "dependencyScan db blocked ds = Inr (st, reason) \<Longrightarrow> \<forall>r \<in> set (qdJobs db). rowOk now r \<Longrightarrow>
   (if st = StateFailed
    then reason = ReasonDependencyFailed \<and>
         (\<exists>d \<in> set ds. stateOf db d = Some StateFailed \<or> stateOf db d = Some StateCancelled)
    else (\<forall>d \<in> set ds. stateOf db d \<noteq> None \<and> stateOf db d \<noteq> Some StateFailed \<and> stateOf db d \<noteq> Some StateCancelled) \<and>
         (if blocked \<or> (\<exists>d \<in> set ds. stateOf db d \<noteq> Some StateSucceeded)
          then st = StateBlocked \<and> reason = ReasonDependencyPending
          else st = StateQueued \<and> reason = ReasonNone))"
proof (induction db blocked ds rule: dependencyScan.induct)
  case (2 db blocked d ds)
  note job = jobByID_ok [OF "2.prems"(2), of d]
  show ?case
  proof (cases "rowOf db d")
    case (Some r)
    show ?thesis using 2 Some job by (auto simp: stateOf_def split: if_splits)
  qed (use "2.prems" job in simp)
qed (auto split: if_splits)

lemma dependencyState_result:
  assumes "dependencyState db ds = Inr (st, reason)" "\<forall>r \<in> set (qdJobs db). rowOk now r"
  shows "if st = StateFailed
    then reason = ReasonDependencyFailed \<and>
         (\<exists>d \<in> set ds. stateOf db d = Some StateFailed \<or> stateOf db d = Some StateCancelled)
    else (\<forall>d \<in> set ds. stateOf db d \<noteq> None \<and> stateOf db d \<noteq> Some StateFailed \<and> stateOf db d \<noteq> Some StateCancelled) \<and>
         (if \<exists>d \<in> set ds. stateOf db d \<noteq> Some StateSucceeded
          then st = StateBlocked \<and> reason = ReasonDependencyPending
          else st = StateQueued \<and> reason = ReasonNone)"
proof (cases "ds = []")
  case False
  then have "dependencyScan db False ds = Inr (st, reason)" using assms(1) by (simp add: dependencyState_def)
  from dependencyScan_result [OF this assms(2)] show ?thesis by (simp only: simp_thms)
qed (use assms in \<open>auto simp: dependencyState_def\<close>)

lemma insertDependencies_Inr:
  "insertDependencies i ds db = Inr db' \<Longrightarrow>
   db' = db\<lparr>qdDeps := qdDeps db @ map (Pair i) ds\<rparr> \<and> (\<forall>d \<in> set ds. hasJob db d) \<and>
   (distinct (qdDeps db) \<longrightarrow> distinct (qdDeps db @ map (Pair i) ds))"
proof (induction i ds db rule: insertDependencies.induct)
  case (2 i d ds db)
  let ?db = "db\<lparr>qdDeps := qdDeps db @ [(i, d)]\<rparr>"
  have ok: "hasJob db i" "hasJob db d" "(i, d) \<notin> set (qdDeps db)" and rec: "insertDependencies i ds ?db = Inr db'"
    using "2.prems" by (auto split: if_splits)
  have "\<not> (\<not> hasJob db i \<or> \<not> hasJob db d \<or> (i, d) \<in> set (qdDeps db))" using ok by simp
  note IH = "2.IH" [OF this rec]
  have "hasJob ?db x = hasJob db x" for x by (simp add: hasJob_def)
  then show ?case using IH ok by simp
qed simp

lemma newRow_simps [simp]:
  "rwID (newRow spec i st reason now) = i" "rwState (newRow spec i st reason now) = st"
  "rwReason (newRow spec i st reason now) = reason" "rwKey (newRow spec i st reason now) = spIdempotencyKey spec"
  "rwWorkspace (newRow spec i st reason now) = spWorkspace spec"
  by (simp_all add: newRow_def)

lemma rowOk_newRow:
  assumes spec: "validateSpec spec0 = None" "spec = canonicalSpec spec0" and i: "jobIDPattern i" "zeroTime < now"
    and st: "(st, reason) \<in> {(StateFailed, ReasonDependencyFailed), (StateQueued, ReasonNone), (StateBlocked, ReasonDependencyPending)}"
  shows "rowOk now (newRow spec i st reason now)"
proof -
  have "validateResult \<lparr>rsOutcome = StateFailed, rsSummary = ''dependency failed'', rsResultRef = []\<rparr> = None"
    by (rule validateResult_fixed) simp_all
  then show ?thesis
    using st i validateSpec_core [OF spec(1)]
    by (auto simp: rowOk_def validateStoredJob_def newRow_def jobSpec_def jobResult_def noLease_def spec(2)
        terminalReason_def MaxLeaseAttempts_def validateSpec_def MaxDependencies_def)
qed

lemma find_append: "find P (xs @ ys) = (case find P xs of None \<Rightarrow> find P ys | Some x \<Rightarrow> Some x)"
  by (induction xs) auto

lemma rowOf_append:
  "rwID row = i \<Longrightarrow> rowOf db i = None \<Longrightarrow>
   rowOf (db\<lparr>qdJobs := qdJobs db @ [row], qdDeps := ds\<rparr>) j = (if j = i then Some row else rowOf db j)"
  by (cases "j = i") (auto simp: rowOf_def find_append split: option.splits)

lemma enqueueTx_shape:
  assumes "enqueueTx db spec body now = Inr (db', i)"
  obtains st reason where "dependencyState db (spDependencies spec) = Inr (st, reason)"
    and "randomID ''wj_'' body = Some i"
    and "i \<notin> rwID ` set (qdJobs db)" and "spIdempotencyKey spec \<notin> rwKey ` set (qdJobs db)"
    and "db' = db\<lparr>qdJobs := qdJobs db @ [newRow spec i st reason now],
                  qdDeps := qdDeps db @ map (Pair i) (spDependencies spec)\<rparr>"
    and "\<forall>d \<in> set (spDependencies spec). d = i \<or> hasJob db d"
    and "distinct (qdDeps db) \<longrightarrow> distinct (qdDeps db @ map (Pair i) (spDependencies spec))"
proof -
  let ?ds = "spDependencies spec"
  from assms obtain st reason db1 where *: "dependencyState db ?ds = Inr (st, reason)" "randomID ''wj_'' body = Some i"
    and ins: "insertJob (newRow spec i st reason now) db = Some db1" and deps: "insertDependencies i ?ds db1 = Inr db'"
    by (auto simp: enqueueTx_def split: sum.splits prod.splits option.splits)
  have fresh: "i \<notin> rwID ` set (qdJobs db)" "spIdempotencyKey spec \<notin> rwKey ` set (qdJobs db)"
    and db1: "db1 = db\<lparr>qdJobs := qdJobs db @ [newRow spec i st reason now]\<rparr>"
    using ins by (auto simp: insertJob_def list_ex_iff split: if_splits)
  have "hasJob db1 d \<longleftrightarrow> d = i \<or> hasJob db d" for d by (auto simp: db1 hasJob_def list_ex_iff)
  with insertDependencies_Inr [OF deps] db1 fresh * show thesis by (intro that) auto
qed

text \<open>
  A new job with its dependency rows. The conditions on the states of the other jobs do not
  change, and those of the new job are the ones its initial state was computed from.
\<close>

definition initialState :: "'m queueDB_scheme \<Rightarrow> string list \<Rightarrow> State \<Rightarrow> Reason \<Rightarrow> bool" where
  "initialState db ds st reason \<longleftrightarrow>
    (if st = StateFailed
     then reason = ReasonDependencyFailed \<and>
          (\<exists>d \<in> set ds. stateOf db d = Some StateFailed \<or> stateOf db d = Some StateCancelled)
     else (\<forall>d \<in> set ds. stateOf db d \<noteq> None \<and> stateOf db d \<noteq> Some StateFailed \<and> stateOf db d \<noteq> Some StateCancelled) \<and>
          (if \<exists>d \<in> set ds. stateOf db d \<noteq> Some StateSucceeded
           then st = StateBlocked \<and> reason = ReasonDependencyPending
           else st = StateQueued \<and> reason = ReasonNone))"

lemma initialState_cases:
  assumes "initialState db ds st reason"
  obtains (failed) d where "st = StateFailed" "reason = ReasonDependencyFailed" "d \<in> set ds"
      "stateOf db d = Some StateFailed \<or> stateOf db d = Some StateCancelled"
  | (queued) "st = StateQueued" "reason = ReasonNone" "\<forall>d \<in> set ds. stateOf db d = Some StateSucceeded"
  | (blocked) d where "st = StateBlocked" "reason = ReasonDependencyPending" "d \<in> set ds"
      "stateOf db d \<noteq> Some StateSucceeded"
      "\<forall>d \<in> set ds. stateOf db d \<noteq> None \<and> stateOf db d \<noteq> Some StateFailed \<and> stateOf db d \<noteq> Some StateCancelled"
  using assms unfolding initialState_def by (auto split: if_splits)

lemma insert_states:
  assumes inv: "queueOk now db" and none: "rowOf db i = None" and row: "rwID row = i" "rwState row = st"
    and init: "initialState db ds st reason"
    and db': "db' = db\<lparr>qdJobs := qdJobs db @ [row], qdDeps := qdDeps db @ map (Pair i) ds\<rparr>"
  shows "j \<noteq> i \<Longrightarrow> failedDep db' j = failedDep db j" and "j \<noteq> i \<Longrightarrow> readyDeps db' j = readyDeps db j"
    and "st = StateFailed \<Longrightarrow> failedDep db' i" and "st = StateQueued \<Longrightarrow> readyDeps db' i"
    and "st = StateBlocked \<Longrightarrow> \<not> failedDep db' i \<and> \<not> readyDeps db' i"
proof -
  have fk: "\<forall>(i, d) \<in> set (qdDeps db). hasJob db i \<and> hasJob db d" using inv by (simp add: tablesOk_def)
  have state: "stateOf db' j = (if j = i then Some st else stateOf db j)" for j
    unfolding db' stateOf_def using rowOf_append [OF row(1) none] row(2) by simp
  have iNone: "stateOf db i = None" using none by (simp add: stateOf_def)
  have old: "(j, x) \<in> set (qdDeps db) \<Longrightarrow> j \<noteq> i \<and> x \<noteq> i" for j x
    using fk none by (auto simp: hasJob_rowOf)
  have edges: "(j, x) \<in> set (qdDeps db') \<longleftrightarrow> (j, x) \<in> set (qdDeps db) \<or> j = i \<and> x \<in> set ds" for j x
    by (auto simp: db')
  show "j \<noteq> i \<Longrightarrow> failedDep db' j = failedDep db j" "j \<noteq> i \<Longrightarrow> readyDeps db' j = readyDeps db j"
    using old by (auto simp: failedDep_def readyDeps_def edges state)
  show "failedDep db' i" if st: "st = StateFailed"
    using init
  proof (cases rule: initialState_cases)
    case (failed d)
    then show ?thesis unfolding failedDep_def edges state using iNone by force
  qed (use st in auto)
  show "readyDeps db' i" if st: "st = StateQueued"
    using init
  proof (cases rule: initialState_cases)
    case queued
    then show ?thesis unfolding readyDeps_def edges state using iNone old by force
  qed (use st in auto)
  show "\<not> failedDep db' i \<and> \<not> readyDeps db' i" if st: "st = StateBlocked"
    using init
  proof (cases rule: initialState_cases)
    case (blocked d)
    have "\<not> failedDep db' i"
      using blocked st old unfolding failedDep_def edges state by (auto split: if_splits)
    moreover have "(i, d) \<in> set (qdDeps db')" "stateOf db' d \<noteq> Some StateSucceeded"
      using blocked st unfolding edges state by auto
    ultimately show ?thesis unfolding readyDeps_def by blast
  qed (use st in auto)
qed

lemma tablesOk_insert:
  assumes inv: "queueOk now db" and none: "rowOf db i = None"
    and row: "rwID row = i" "rwState row = st" "rwReason row = reason" "rowOk now row"
    and key: "rwKey row \<notin> rwKey ` set (qdJobs db)"
    and init: "initialState db ds st reason"
    and ds: "\<forall>d \<in> set ds. d = i \<or> hasJob db d" "distinct (qdDeps db @ map (Pair i) ds)"
    and db': "db' = db\<lparr>qdJobs := qdJobs db @ [row], qdDeps := qdDeps db @ map (Pair i) ds\<rparr>"
  shows "queueOk now db'"
proof -
  note states = insert_states [OF inv none row(1,2) init db']
  have rows: "set (qdJobs db') = insert row (set (qdJobs db))" by (simp add: db')
  have ne: "rwID x \<noteq> i" if "x \<in> set (qdJobs db)" for x using that none by (auto simp: rowOf_None)
  have un: "uniqueRows db'"
    using inv none key row(1) by (auto simp: tablesOk_def uniqueRows_def db' rowOf_None)
  have has: "hasJob db' j \<longleftrightarrow> j = i \<or> hasJob db j" for j
    by (auto simp: hasJob_def list_ex_iff db' row(1))
  have fk: "\<forall>(i, d) \<in> set (qdDeps db'). hasJob db' i \<and> hasJob db' d"
    using inv ds(1) by (auto simp: tablesOk_def db' has [unfolded db'])
  have st: "st = StateFailed \<or> st = StateQueued \<or> st = StateBlocked"
    "reason = ReasonDependencyFailed \<Longrightarrow> st = StateFailed"
    using init by (auto elim: initialState_cases)
  have started: "\<forall>x \<in> set (qdJobs db'). startedState (rwState x) \<longrightarrow> readyDeps db' (rwID x)"
    using inv states(2,4) st(1) ne row(1,2) unfolding rows tablesOk_def by (auto simp: startedState_def)
  have failed: "\<forall>x \<in> set (qdJobs db'). rwReason x = ReasonDependencyFailed \<longrightarrow> failedDep db' (rwID x)"
    using inv states(1,3) st(2) ne row(1,3) unfolding rows tablesOk_def by auto
  have blocked: "\<forall>x \<in> set (qdJobs db'). rwState x = StateBlocked \<longrightarrow> waiting db' {} x"
    using inv states(1,2,5) ne row(1,2) unfolding rows tablesOk_def waiting_def by auto
  show ?thesis
    using inv row(4) un fk ds(2) started failed blocked unfolding tablesOk_def rows by (auto simp: db')
qed

lemma enqueueTx_ok:
  assumes inv: "queueOk now db" and spec: "validateSpec spec0 = None" "spec = canonicalSpec spec0"
    and body: "randomBody body" and now: "zeroTime < now"
    and run: "enqueueTx db spec body now = Inr (db', i)"
  shows "\<exists>st reason. queueOk now db' \<and> jobIDPattern i \<and> initialState db (spDependencies spec) st reason \<and>
    rowOk now (newRow spec i st reason now) \<and> rowOf db i = None \<and>
    db' = db\<lparr>qdJobs := qdJobs db @ [newRow spec i st reason now],
             qdDeps := qdDeps db @ map (Pair i) (spDependencies spec)\<rparr>"
proof -
  from run obtain st reason where st: "dependencyState db (spDependencies spec) = Inr (st, reason)"
    and i: "randomID ''wj_'' body = Some i" "i \<notin> rwID ` set (qdJobs db)"
    and key: "spIdempotencyKey spec \<notin> rwKey ` set (qdJobs db)"
    and db': "db' = db\<lparr>qdJobs := qdJobs db @ [newRow spec i st reason now],
                  qdDeps := qdDeps db @ map (Pair i) (spDependencies spec)\<rparr>"
    and ds: "\<forall>d \<in> set (spDependencies spec). d = i \<or> hasJob db d"
      "distinct (qdDeps db) \<longrightarrow> distinct (qdDeps db @ map (Pair i) (spDependencies spec))"
    by (rule enqueueTx_shape)
  have ok: "\<forall>r \<in> set (qdJobs db). rowOk now r" and dd: "distinct (qdDeps db)"
    using inv by (simp_all add: tablesOk_def)
  have init: "initialState db (spDependencies spec) st reason"
    using dependencyState_result [OF st ok] unfolding initialState_def .
  have pat: "jobIDPattern i" using randomID_pattern [OF body i(1)] by (simp add: pattern_defs)
  have none: "rowOf db i = None" using i(2) by (simp add: rowOf_None)
  have new: "rowOk now (newRow spec i st reason now)"
    by (rule rowOk_newRow [OF spec pat now]) (use init in \<open>auto elim: initialState_cases\<close>)
  have "queueOk now db'"
    by (rule tablesOk_insert [OF inv none _ _ _ new _ init ds(1) _ db']) (use key ds(2) dd in auto)
  with pat init new none db' show ?thesis by blast
qed

subsection \<open>The invariant of the store\<close>

definition boundsOk :: "Config \<Rightarrow> 'm queueDB_scheme \<Rightarrow> bool" where
  "boundsOk cfg db \<longleftrightarrow> activeCount (\<lambda>r. True) db \<le> cfgMaxJobs cfg \<and>
     (\<forall>w. activeCount (\<lambda>r. rwWorkspace r = w) db \<le> cfgMaxJobsPerWorkspace cfg)"

definition storeOk :: "gotime \<Rightarrow> 'm queueDB_scheme Store \<Rightarrow> bool" where
  "storeOk now s \<longleftrightarrow> validateConfig (stConfig s) = Inr (stConfig s) \<and> fairOk (stFair s) \<and>
     (case stDB s of None \<Rightarrow> True | Some db \<Rightarrow> queueOk now db \<and> boundsOk (stConfig s) db)"

definition storeLe :: "'m queueDB_scheme Store \<Rightarrow> 'm queueDB_scheme Store \<Rightarrow> bool" where
  "storeLe s s' \<longleftrightarrow> stConfig s' = stConfig s \<and> rel_option evolves (stDB s) (stDB s')"

lemma storeLe_refl [simp]: "storeLe s s"
  by (simp add: storeLe_def option.rel_refl)

lemma length_filter_list_all2:
  "list_all2 R xs ys \<Longrightarrow> (\<And>x y. R x y \<Longrightarrow> P y \<Longrightarrow> P x) \<Longrightarrow> length (filter P ys) \<le> length (filter P xs)"
  by (induction xs ys rule: list_all2_induct) auto

lemma evolves_activeCount:
  assumes "evolves db db'" "\<And>r r'. identity r' = identity r \<Longrightarrow> p r' \<Longrightarrow> p r"
  shows "activeCount p db' \<le> activeCount p db"
proof -
  have "list_all2 rowLe (qdJobs db) (qdJobs db')" using assms(1) by (simp add: evolves_def)
  then show ?thesis
    unfolding activeCount_def of_nat_le_iff
    by (rule length_filter_list_all2) (use assms(2) in \<open>auto simp: rowLe_def\<close>)
qed

lemma evolves_boundsOk: "evolves db db' \<Longrightarrow> boundsOk cfg db \<Longrightarrow> boundsOk cfg db'"
  using evolves_activeCount [of db db' "\<lambda>r. True"] evolves_activeCount [of db db' "\<lambda>r. rwWorkspace r = w" for w]
  unfolding boundsOk_def identity_def by (fastforce intro: order_trans)

lemma storeOk_step:
  assumes "storeOk n s" "stDB s = Some db" "evolves db db'" "queueOk now db'" "fairOk fair"
  shows "storeOk now (s\<lparr>stDB := Some db', stFair := fair\<rparr>)" "storeLe s (s\<lparr>stDB := Some db', stFair := fair\<rparr>)"
  using assms evolves_boundsOk by (auto simp: storeOk_def storeLe_def)

lemma storeOk_fair:
  "storeOk n s \<Longrightarrow> n \<le> now \<Longrightarrow> fairOk fair \<Longrightarrow> storeOk now (s\<lparr>stFair := fair\<rparr>)"
  using tablesOk_mono by (auto simp: storeOk_def split: option.splits)

lemma storeOk_mono: "storeOk n s \<Longrightarrow> n \<le> now \<Longrightarrow> storeOk now s"
  using tablesOk_mono by (auto simp: storeOk_def split: option.splits)

lemma storeOk_db: "storeOk n s \<Longrightarrow> stDB s = Some db \<Longrightarrow> n \<le> now \<Longrightarrow> queueOk now db"
  using tablesOk_mono by (auto simp: storeOk_def)

lemma storeOk_fairOk: "storeOk n s \<Longrightarrow> fairOk (stFair s)"
  by (simp add: storeOk_def)

subsection \<open>Leases\<close>

lemma leaseRow_simps [simp]:
  "rwState (leaseRow l h e now r) = StateLeased" "rwReason (leaseRow l h e now r) = ReasonNone"
  "rwID (leaseRow l h e now r) = rwID r"
  by (simp_all add: leaseRow_def)

lemma leaseRow_rowLe: "rwState r = StateQueued \<Longrightarrow> rowLe r (leaseRow l h e now r)"
  by (auto simp: rowLe_def identity_def leaseRow_def activeState_def)

lemma leaseTx_ok:
  assumes inv: "queueOk now db" and l: "leaseIDPattern l" "holderPattern h" "now \<le> e"
    and run: "leaseTx db i l h e now = Inr (db', lease)"
  shows "\<exists>r. rowOf db i = Some r \<and> rwState r = StateQueued \<and> rowOf db' i = Some (leaseRow l h e now r) \<and>
    queueOk now db' \<and> evolves db db' \<and>
    lease = \<lparr>lsJob = rowJob (leaseRow l h e now r), lsID = l, lsFence = nat (rwFence r + 1),
             lsAttempt = rwAttempt r + 1, lsExpires = e\<rparr>"
proof -
  let ?p = "\<lambda>r. rwID r = i \<and> rwState r = StateQueued" and ?f = "leaseRow l h e now"
  from run have db': "db' = updateJobs ?p ?f db" and one: "rowsAffected ?p db = 1"
    by (auto simp: leaseTx_def Let_def split: if_splits sum.splits option.splits)
  have "filter ?p (qdJobs db) \<noteq> []" using one unfolding rowsAffected_def by force
  then obtain r where "r \<in> set (qdJobs db)" and st: "rwState r = StateQueued" and id: "rwID r = i"
    by (auto simp: filter_empty_conv)
  then have r: "rowOf db i = Some r" using inv rowOf_row by (auto simp: tablesOk_def)
  note ok = tablesOk_row [OF inv r]
  have upd: "keepsKeys ?f" "rowOf db i = Some r" "?p r" "\<forall>x. ?p x \<longrightarrow> rwID x = i"
    using r st id by auto
  have old: "\<not> terminal (rwState r)" using st by simp
  have new: "rowOk now (?f r)" using rowOk_leaseRow [OF _ _ st l] ok by blast
  have ready: "readyDeps db i" using inv ok st by (auto simp: tablesOk_def startedState_def)
  have "tablesOk now (if terminal (rwState (?f r)) then insert i {} else {}) db'"
    unfolding db' by (rule tablesOk_update [OF inv upd old new]) (use ready in auto)
  then have tab: "queueOk now db'" by simp
  have row: "rowOf db' i = Some (?f r)" using upd by (simp add: db')
  have "jobByID db' i = Inr (Some (rowJob (?f r)))"
    using jobByID_ok [of db' now i] tab row by (simp add: tablesOk_def)
  then have "lease = \<lparr>lsJob = rowJob (?f r), lsID = l, lsFence = nat (rwFence r + 1),
      lsAttempt = rwAttempt r + 1, lsExpires = e\<rparr>"
    using run one by (auto simp: leaseTx_def Let_def db' [symmetric] leaseRow_def)
  moreover have "evolves db db'" unfolding db' by (rule evolves_update) (auto intro: leaseRow_rowLe)
  ultimately show ?thesis using r st row tab by blast
qed

definition leaseRequestOk :: "string \<Rightarrow> string \<Rightarrow> duration \<Rightarrow> bool" where
  "leaseRequestOk pool holder ttl \<longleftrightarrow>
     poolPattern pool \<and> holderPattern holder \<and> MinLeaseTTL \<le> ttl \<and> ttl \<le> MaxLeaseTTL"

lemma LeaseNext_cases:
  assumes "stDB s = Some db" and "leaseRequestOk pool h ttl" and "recoverExpired db now = Inr db1"
  obtains (none) "leaseCandidates db1 pool (cfgMaxJobs (stConfig s)) = []"
      "LeaseNext s pool h ttl body now = (s\<lparr>stDB := Some db1\<rparr>, Inl NoJobAvailable)"
  | (failed) e where "leaseCandidates db1 pool (cfgMaxJobs (stConfig s)) \<noteq> []"
      "LeaseNext s pool h ttl body now =
         (s\<lparr>stFair := fst (Select (stFair s) now (leaseCandidates db1 pool (cfgMaxJobs (stConfig s))))\<rparr>, Inl e)"
      "isl (snd (Select (stFair s) now (leaseCandidates db1 pool (cfgMaxJobs (stConfig s))))) \<or> body = None \<or>
       (\<exists>c l e. snd (Select (stFair s) now (leaseCandidates db1 pool (cfgMaxJobs (stConfig s)))) = Inr c \<and>
          randomID ''wl_'' body = Some l \<and> leaseTx db1 (fcJobID c) l h (now + ttl) now = Inl e)"
  | (leased) c l db2 lease where "leaseCandidates db1 pool (cfgMaxJobs (stConfig s)) \<noteq> []"
      "snd (Select (stFair s) now (leaseCandidates db1 pool (cfgMaxJobs (stConfig s)))) = Inr c"
      "randomID ''wl_'' body = Some l" "leaseTx db1 (fcJobID c) l h (now + ttl) now = Inr (db2, lease)"
      "LeaseNext s pool h ttl body now =
         (s\<lparr>stDB := Some db2, stFair := fst (Select (stFair s) now (leaseCandidates db1 pool (cfgMaxJobs (stConfig s))))\<rparr>,
          Inr lease)"
proof -
  let ?cs = "leaseCandidates db1 pool (cfgMaxJobs (stConfig s))"
  obtain fair res where sel: "Select (stFair s) now ?cs = (fair, res)" by fastforce
  have req: "(\<not> poolPattern pool \<or> \<not> holderPattern h \<or> ttl < MinLeaseTTL \<or> ttl > MaxLeaseTTL) = False"
    using assms(2) by (auto simp: leaseRequestOk_def)
  note eq = LeaseNext_def [of s pool h ttl body now, unfolded assms(1,3) option.case req if_False sum.case Let_def sel prod.case]
  show thesis
  proof (cases "?cs = []")
    case True
    then show thesis using eq by (intro none) simp_all
  next
    case False
    show thesis
    proof (cases res)
      case (Inl e)
      then show thesis using eq False sel by (intro failed [of LeaseSelectionFailed]) simp_all
    next
      case (Inr c)
      show thesis
      proof (cases "randomID ''wl_'' body")
        case None
        then show thesis using eq False sel Inr by (intro failed [of IdentityUnavailable]) (simp_all add: randomID_def)
      next
        case (Some l)
        show thesis
        proof (cases "leaseTx db1 (fcJobID c) l h (now + ttl) now")
          case tx: (Inl e)
          then show thesis using eq False sel Inr Some by (intro failed [of e]) simp_all
        next
          case tx: (Inr v)
          then show thesis using eq False sel Inr Some by (intro leased [of c l "fst v" "snd v"]) (cases v; simp)+
        qed
      qed
    qed
  qed
qed

lemma LeaseNext_refused:
  "stDB s = None \<or> \<not> leaseRequestOk pool h ttl \<Longrightarrow> LeaseNext s pool h ttl body now = (s, Inl LeaseRequestInvalid)"
  by (auto simp: LeaseNext_def leaseRequestOk_def split: option.splits)

lemma LeaseNext_ok:
  assumes inv: "storeOk n s" "n \<le> now" and body: "randomBody body"
  shows "storeOk now (fst (LeaseNext s pool h ttl body now)) \<and> storeLe s (fst (LeaseNext s pool h ttl body now))"
proof (cases "stDB s = None \<or> \<not> leaseRequestOk pool h ttl")
  case True
  then show ?thesis using storeOk_mono [OF inv] LeaseNext_refused by (metis fst_conv storeLe_refl)
next
  case False
  then obtain db where db: "stDB s = Some db" and req: "leaseRequestOk pool h ttl" by auto
  obtain db1 where rec: "recoverExpired db now = Inr db1" "evolves db db1" "queueOk now db1"
    using recoverExpired_ok [OF storeOk_db [OF inv(1) db order_refl] inv(2)] by blast
  have fair: "fairOk (fst (Select (stFair s) now cs))" for cs
    using Select_fairOk storeOk_fairOk [OF inv(1)] by blast
  show ?thesis
    using db req rec(1)
  proof (cases rule: LeaseNext_cases [where body = body])
    case none
    then show ?thesis using storeOk_step [OF inv(1) db rec(2,3), of "stFair s"] storeOk_fairOk [OF inv(1)] by simp
  next
    case (failed e)
    then show ?thesis using storeOk_fair [OF inv fair] by (simp add: storeLe_def option.rel_refl)
  next
    case (leased c l db2 lease)
    have "leaseIDPattern l" using randomID_pattern [OF body leased(3)] by (simp add: pattern_defs)
    moreover have "holderPattern h" "now \<le> now + ttl" using req by (auto simp: leaseRequestOk_def limit_defs)
    ultimately have "queueOk now db2" "evolves db1 db2" using leaseTx_ok [OF rec(3) _ _ _ leased(4)] by blast+
    then show ?thesis
      using storeOk_step [OF inv(1) db evolves_trans [OF rec(2)] _ fair] leased(5) by simp
  qed
qed

subsection \<open>The other operations\<close>

lemma getUnlocked_ok: "queueOk now db \<Longrightarrow> rowOf db i = Some r \<Longrightarrow> getUnlocked db i = Inr (rowJob r)"
  using jobByID_ok [of db now i] by (simp add: getUnlocked_def tablesOk_def)

lemma RecoverExpired_ok:
  assumes "storeOk n s" "n \<le> now"
  shows "storeOk now (fst (RecoverExpired s now)) \<and> storeLe s (fst (RecoverExpired s now))"
proof (cases "stDB s")
  case None
  then show ?thesis using storeOk_mono [OF assms] by (simp add: RecoverExpired_def)
next
  case (Some db)
  obtain db1 where rec: "recoverExpired db now = Inr db1" "evolves db db1" "queueOk now db1"
    using recoverExpired_ok [OF storeOk_db [OF assms(1) Some order_refl] assms(2)] by blast
  then show ?thesis
    using storeOk_step [OF assms(1) Some rec(2,3), of "stFair s"] storeOk_fairOk [OF assms(1)] Some
    by (simp add: RecoverExpired_def)
qed

text \<open>A leased row changes without leaving its state.\<close>

lemma refresh_ok:
  assumes inv: "queueOk now db"
    and upd: "keepsKeys f" "\<forall>x. p x \<longrightarrow> rwID x = i \<and> rwState x = StateLeased"
    and new: "\<And>x. p x \<Longrightarrow> rowOk now x \<Longrightarrow> rowOk now (f x)" "\<And>x. p x \<Longrightarrow> rwState (f x) = StateLeased"
    and le: "\<And>x. p x \<Longrightarrow> rowLe x (f x)"
  shows "queueOk now (updateJobs p f db) \<and> evolves db (updateJobs p f db)"
proof -
  have "queueOk now (updateJobs p f db)"
  proof (cases "\<exists>r. rowOf db i = Some r \<and> p r")
    case True
    then obtain r where r: "rowOf db i = Some r" "p r" by blast
    note ok = tablesOk_row [OF inv r(1)]
    have st: "rwState r = StateLeased" using upd(2) r(2) by blast
    have ready: "readyDeps db i" using inv ok st by (auto simp: tablesOk_def startedState_def)
    have fr: "rowOk now (f r)" "rwState (f r) = StateLeased" using new r(2) ok by blast+
    then have "rwReason (f r) \<noteq> ReasonDependencyFailed" by (auto simp: rowOk_def validateStoredJob_def)
    then have "tablesOk now (if terminal (rwState (f r)) then insert i {} else {}) (updateJobs p f db)"
      by (intro tablesOk_update [of now "{}" db f i r p]) (use inv upd r st fr ready in simp_all)
    then show ?thesis using fr(2) by simp
  next
    case False
    have "\<not> p x" if "x \<in> set (qdJobs db)" for x
      using False upd(2) inv that rowOf_row [of db x] by (auto simp: tablesOk_def)
    then have "map (\<lambda>r. if p r then f r else r) (qdJobs db) = qdJobs db" by (simp add: map_idI)
    then have "updateJobs p f db = db" by (simp add: updateJobs_def)
    then show ?thesis using inv by simp
  qed
  then show ?thesis using evolves_update [of p f db] le by blast
qed

lemma Heartbeat_ok:
  assumes inv: "storeOk n s" "n \<le> now"
  shows "storeOk now (fst (Heartbeat s i l fence ttl now)) \<and> storeLe s (fst (Heartbeat s i l fence ttl now))"
proof (cases "stDB s = None \<or> \<not> jobIDPattern i \<or> \<not> leaseIDPattern l \<or> fence = 0 \<or> ttl < MinLeaseTTL \<or> ttl > MaxLeaseTTL")
  case True
  then show ?thesis using storeOk_mono [OF inv] by (auto simp: Heartbeat_def split: option.splits)
next
  case False
  then obtain db where db: "stDB s = Some db" by auto
  let ?p = "\<lambda>r. heldLease i l fence r \<and> (case rwLeaseUntil r of None \<Rightarrow> False | Some t \<Rightarrow> t > now)"
  let ?f = "\<lambda>r. r\<lparr>rwLeaseUntil := Some (now + ttl), rwUpdated := now\<rparr>"
  let ?db = "updateJobs ?p ?f db"
  have later: "now \<le> now + ttl" using False by (simp add: limit_defs)
  have "queueOk now ?db \<and> evolves db ?db"
  proof (rule refresh_ok [OF storeOk_db [OF inv(1) db inv(2)], where i = i])
    show "rowOk now (?f x)" if "?p x" "rowOk now x" for x
      using rowOk_heartbeat [OF that(2) order_refl _ later] that(1) by (simp add: heldLease_def)
  qed (auto simp: heldLease_def rowLe_def identity_def)
  then have "storeOk now (s\<lparr>stDB := Some ?db\<rparr>) \<and> storeLe s (s\<lparr>stDB := Some ?db\<rparr>)"
    using storeOk_step [OF inv(1) db, of ?db now "stFair s"] storeOk_fairOk [OF inv(1)] by simp
  moreover have "fst (Heartbeat s i l fence ttl now) = s\<lparr>stDB := Some ?db\<rparr>"
    using False db by (auto simp: Heartbeat_def Let_def split: option.splits)
  ultimately show ?thesis by simp
qed

lemma cancelTx_ok:
  assumes inv: "queueOk now db" and r: "rowOf db i = Some r" "\<not> terminal (rwState r)"
  shows "\<exists>db'. cancelTx db (rowJob r) now = Inr db' \<and> evolves db db' \<and> queueOk now db' \<and>
    rowOf db' i = Some (if rwState r = StateLeased
      then r\<lparr>rwCancel := True, rwReason := ReasonCancelRequested, rwUpdated := now\<rparr> else cancelRow now r)"
proof -
  note ok = tablesOk_row [OF inv r(1)]
  show ?thesis
  proof (cases "rwState r = StateLeased")
    case True
    let ?p = "\<lambda>r. rwID r = i \<and> rwState r = StateLeased"
    let ?f = "\<lambda>r. r\<lparr>rwCancel := True, rwReason := ReasonCancelRequested, rwUpdated := now\<rparr>"
    have "queueOk now (updateJobs ?p ?f db) \<and> evolves db (updateJobs ?p ?f db)"
    proof (rule refresh_ok [OF inv, where i = i])
      show "rowOk now (?f x)" if "?p x" "rowOk now x" for x
        using rowOk_requestCancel [OF that(2) order_refl] that(1) by simp
    qed (auto simp: rowLe_def identity_def)
    then show ?thesis using True ok r by (simp add: cancelTx_def)
  next
    case False
    let ?p = "\<lambda>x. rwID x = i \<and> rwState x = rwState r"
    have st: "rwState r = StateBlocked \<or> rwState r = StateQueued" using rowOk_state ok r(2) False by fastforce
    have upd: "keepsKeys (cancelRow now)" "rowOf db i = Some r" "?p r" "\<forall>x. ?p x \<longrightarrow> rwID x = i" using r ok by auto
    have new: "rowOk now (cancelRow now r)" using rowOk_cancelRow [of now r now] ok st by blast
    have le: "\<And>x. ?p x \<Longrightarrow> rowLe x (cancelRow now x)"
      using st by (auto simp: rowLe_def identity_def cancelRow_def activeState_def)
    have "\<exists>db'. propagate (updateJobs ?p (cancelRow now) db) i now = Inr db' \<and> evolves db db' \<and> queueOk now db' \<and>
      rowOf db' i = Some (cancelRow now r)"
      by (rule retire_ok [OF inv upd r(2) new _ _ _ le]) (auto simp: cancelRow_def)
    then show ?thesis using False ok st by (auto simp: cancelTx_def)
  qed
qed

lemma Cancel_ok:
  assumes inv: "storeOk n s" "n \<le> now"
  shows "storeOk now (fst (Cancel s i now)) \<and> storeLe s (fst (Cancel s i now))"
proof (cases "stDB s")
  case None
  then show ?thesis using storeOk_mono [OF inv] by (simp add: Cancel_def)
next
  case (Some db)
  have ok: "queueOk now db" by (rule storeOk_db [OF inv(1) Some inv(2)])
  then have job: "jobByID db i = Inr (map_option rowJob (rowOf db i))"
    using jobByID_ok by (auto simp: tablesOk_def)
  show ?thesis
  proof (cases "\<exists>r. rowOf db i = Some r \<and> \<not> terminal (rwState r) \<and> jobIDPattern i")
    case True
    then obtain r where r: "rowOf db i = Some r" "\<not> terminal (rwState r)" "jobIDPattern i" by blast
    obtain db' where db': "cancelTx db (rowJob r) now = Inr db'" "evolves db db'" "queueOk now db'"
      using cancelTx_ok [OF ok r(1,2)] by blast
    then have "fst (Cancel s i now) = s\<lparr>stDB := Some db'\<rparr>" using r job Some by (simp add: Cancel_def)
    then show ?thesis
      using storeOk_step [OF inv(1) Some db'(2,3), of "stFair s"] storeOk_fairOk [OF inv(1)] by simp
  next
    case False
    then have "fst (Cancel s i now) = s" using job Some by (auto simp: Cancel_def split: option.splits)
    then show ?thesis using storeOk_mono [OF inv] by simp
  qed
qed

text \<open>A completion that the code accepts, and what it leaves behind.\<close>

definition acceptsCompletion :: "jobRow \<Rightarrow> string \<Rightarrow> nat \<Rightarrow> Result \<Rightarrow> gotime \<Rightarrow> bool" where
  "acceptsCompletion r l fence result now0 \<longleftrightarrow>
     rwState r = StateLeased \<and> rwLeaseID r = Some l \<and> rwFence r = int fence \<and>
     (\<exists>t. rwLeaseUntil r = Some t \<and> now0 < t) \<and> (rwCancel r \<longrightarrow> rsOutcome result = StateCancelled)"

lemma completeRow_simps [simp]:
  "rwState (completeRow result now r) = rsOutcome result" "rwReason (completeRow result now r) = ReasonNone"
  "rwID (completeRow result now r) = rwID r"
  by (simp_all add: completeRow_def)

lemma validateResult_terminal: "validateResult result = None \<Longrightarrow> terminal (rsOutcome result)"
  by (auto simp: validateResult_def terminal_def split: if_splits)

lemma completeTx_ok:
  assumes inv: "queueOk now db" and r: "rowOf db i = Some r"
    and acc: "acceptsCompletion r l fence result now0" and res: "validateResult result = None"
  shows "\<exists>db'. propagate (updateJobs (heldLease i l fence) (completeRow result now) db) i now = Inr db' \<and>
    evolves db db' \<and> queueOk now db' \<and> rowOf db' i = Some (completeRow result now r)"
proof -
  note ok = tablesOk_row [OF inv r]
  have st: "rwState r = StateLeased" using acc by (simp add: acceptsCompletion_def)
  have upd: "keepsKeys (completeRow result now)" "rowOf db i = Some r" "heldLease i l fence r"
    "\<forall>x. heldLease i l fence x \<longrightarrow> rwID x = i"
    using acc ok r by (auto simp: acceptsCompletion_def heldLease_def)
  have old: "\<not> terminal (rwState r)" using st by simp
  have new: "rowOk now (completeRow result now r)"
    using rowOk_completeRow [of now r now result] ok st res acc by (simp add: acceptsCompletion_def)
  have le: "\<And>x. heldLease i l fence x \<Longrightarrow> rowLe x (completeRow result now x)"
    using validateResult_terminal [OF res]
    by (auto simp: rowLe_def identity_def completeRow_def heldLease_def activeState_def)
  show ?thesis
    by (rule retire_ok [OF inv upd old new _ _ _ le]) (use st validateResult_terminal [OF res] in simp_all)
qed

lemma Complete_eq:
  assumes db: "stDB s = Some db" and ok: "queueOk now db"
    and req: "jobIDPattern i" "leaseIDPattern l" "fence \<noteq> 0" "validateResult result = None"
  shows "Complete s i l fence result now0 now =
    (case rowOf db i of
       None \<Rightarrow> (s, Inl JobNotFound)
     | Some r \<Rightarrow>
         if terminal (rwState r)
         then if nullString (rwLeaseID r) = l \<and> rwFence r = int fence \<and> rwOutcome r = Some (rsOutcome result) \<and>
                 nullString (rwSummary r) = rsSummary result \<and> nullString (rwResultRef r) = rsResultRef result
              then (s, Inr (rowJob r)) else (s, Inl TerminalCompletionConflict)
         else if acceptsCompletion r l fence result now0
         then (case propagate (updateJobs (heldLease i l fence) (completeRow result now) db) i now of
                 Inl e \<Rightarrow> (s, Inl e) | Inr db1 \<Rightarrow> (s\<lparr>stDB := Some db1\<rparr>, getUnlocked db1 i))
         else if rwState r = StateLeased \<and> rwLeaseID r = Some l \<and> rwFence r = int fence \<and>
                 (\<exists>t. rwLeaseUntil r = Some t \<and> now0 < t)
         then (s, Inl CancelledResultRequired) else (s, Inl StaleCompletion))"
proof (cases "rowOf db i")
  case None
  then show ?thesis using db req jobByID_ok [of db now i] ok by (simp add: Complete_def tablesOk_def)
next
  case (Some r)
  have job: "jobByID db i = Inr (Some (rowJob r))" using Some jobByID_ok [of db now i] ok by (simp add: tablesOk_def)
  have rok: "rowOk now r" using tablesOk_row [OF ok Some] by blast
  then have fence: "nat (rwFence r) = fence \<longleftrightarrow> rwFence r = int fence"
    using validateStoredJob_attempt [of r] by (auto simp: rowOk_def)
  have out: "(case rwOutcome r of None \<Rightarrow> StateOther [] | Some st \<Rightarrow> st) = rsOutcome result \<longleftrightarrow>
      rwOutcome r = Some (rsOutcome result)"
    using validateResult_terminal [OF req(4)] by (auto simp: terminal_def split: option.splits)
  have lease: "nullString (rwLeaseID r) = l \<longleftrightarrow> rwLeaseID r = Some l"
    using leaseIDPattern_not_empty [OF req(2)] by (cases "rwLeaseID r") auto
  have until: "now0 < (case rwLeaseUntil r of None \<Rightarrow> zeroTime | Some t \<Rightarrow> t) \<longleftrightarrow>
      (\<exists>t. rwLeaseUntil r = Some t \<and> now0 < t)" if "rwState r = StateLeased"
    using rok that by (auto simp: rowOk_def validateStoredJob_def wholeLease_def split: option.splits)
  have legal: "legalTransition StateLeased (rsOutcome result)"
    using validateResult_terminal [OF req(4)] by (auto simp: terminal_def)
  show ?thesis
    using db req job Some legal
    by (auto simp: Complete_def fence out lease until acceptsCompletion_def simp del: legalTransition.simps
        split: option.splits)
qed

lemma Complete_ok:
  assumes inv: "storeOk n s" "n \<le> now"
  shows "storeOk now (fst (Complete s i l fence result now0 now)) \<and> storeLe s (fst (Complete s i l fence result now0 now))"
proof (cases "stDB s = None \<or> \<not> jobIDPattern i \<or> \<not> leaseIDPattern l \<or> fence = 0 \<or> validateResult result \<noteq> None")
  case True
  then have "fst (Complete s i l fence result now0 now) = s" by (auto simp: Complete_def split: option.splits)
  then show ?thesis using storeOk_mono [OF inv] by simp
next
  case False
  then obtain db where db: "stDB s = Some db" and req: "jobIDPattern i" "leaseIDPattern l" "fence \<noteq> 0" "validateResult result = None"
    by auto
  have ok: "queueOk now db" by (rule storeOk_db [OF inv(1) db inv(2)])
  note eq = Complete_eq [OF db ok req, of now0]
  show ?thesis
  proof (cases "\<exists>r. rowOf db i = Some r \<and> acceptsCompletion r l fence result now0")
    case True
    then obtain r where r: "rowOf db i = Some r" "acceptsCompletion r l fence result now0" by blast
    obtain db' where db': "propagate (updateJobs (heldLease i l fence) (completeRow result now) db) i now = Inr db'"
        "evolves db db'" "queueOk now db'"
      using completeTx_ok [OF ok r req(4)] by blast
    have "\<not> terminal (rwState r)" using r(2) by (auto simp: acceptsCompletion_def)
    then have "fst (Complete s i l fence result now0 now) = s\<lparr>stDB := Some db'\<rparr>"
      unfolding eq using r db'(1) by simp
    then show ?thesis
      using storeOk_step [OF inv(1) db db'(2,3), of "stFair s"] storeOk_fairOk [OF inv(1)] by simp
  next
    case False
    then have "fst (Complete s i l fence result now0 now) = s" unfolding eq by (auto split: option.splits)
    then show ?thesis using storeOk_mono [OF inv] by simp
  qed
qed

lemma activeCount_append:
  "activeCount p (db\<lparr>qdJobs := qdJobs db @ [row], qdDeps := ds\<rparr>) =
   activeCount p db + (if p row \<and> activeState (rwState row) then 1 else 0)"
  by (simp add: activeCount_def)

lemma Enqueue_cases:
  assumes "stDB s = Some db" "queueOk now db"
  obtains (kept) "fst (Enqueue s spec body now) = s"
  | (added) db' i where "validateSpec spec = None"
      "activeCount (\<lambda>r. True) db < cfgMaxJobs (stConfig s)"
      "activeCount (\<lambda>r. rwWorkspace r = spWorkspace spec) db < cfgMaxJobsPerWorkspace (stConfig s)"
      "enqueueTx db (canonicalSpec spec) body now = Inr (db', i)"
      "fst (Enqueue s spec body now) = s\<lparr>stDB := Some db'\<rparr>"
proof (cases "fst (Enqueue s spec body now) = s")
  case False
  then show thesis
    using assms(1)
    by (intro added [of "fst (projr (enqueueTx db (canonicalSpec spec) body now))"
          "snd (projr (enqueueTx db (canonicalSpec spec) body now))"])
      (auto simp: Enqueue_def Let_def split: option.splits sum.splits if_splits prod.splits)
qed (rule kept)

lemma Enqueue_ok:
  assumes inv: "storeOk n s" "n \<le> now" and body: "randomBody body" and now: "zeroTime < now"
  shows "storeOk now (fst (Enqueue s spec body now))"
proof (cases "stDB s")
  case None
  then show ?thesis using storeOk_mono [OF inv] by (simp add: Enqueue_def)
next
  case (Some db)
  have ok: "queueOk now db" and bounds: "boundsOk (stConfig s) db"
    using storeOk_db [OF inv(1) Some inv(2)] inv(1) Some by (simp_all add: storeOk_def)
  show ?thesis
    using Some ok
  proof (cases rule: Enqueue_cases [where spec = spec and body = body])
    case kept
    then show ?thesis using storeOk_mono [OF inv] by simp
  next
    case (added db' i)
    obtain st reason where new: "queueOk now db'"
      and db': "db' = db\<lparr>qdJobs := qdJobs db @ [newRow (canonicalSpec spec) i st reason now],
             qdDeps := qdDeps db @ map (Pair i) (spDependencies (canonicalSpec spec))\<rparr>"
      using enqueueTx_ok [OF ok added(1) refl body now added(4)] by blast
    have "boundsOk (stConfig s) db'"
      using bounds added(2,3) unfolding boundsOk_def db' activeCount_append by auto
    then show ?thesis using inv(1) new added(5) by (simp add: storeOk_def)
  qed
qed

subsection \<open>Retention\<close>

definition removeJobs :: "string set \<Rightarrow> 'm queueDB_scheme \<Rightarrow> 'm queueDB_scheme" where
  "removeJobs gone db = db\<lparr>qdJobs := filter (\<lambda>r. rwID r \<notin> gone) (qdJobs db),
                           qdDeps := filter (\<lambda>d. fst d \<notin> gone) (qdDeps db)\<rparr>"

lemma removeJobs_ok:
  assumes inv: "queueOk now db" and free: "\<forall>(i, d) \<in> set (qdDeps db). d \<notin> gone"
  shows "queueOk now (removeJobs gone db)"
proof -
  let ?db = "removeJobs gone db"
  have row: "rowOf ?db j = rowOf db j" if "j \<notin> gone" for j
  proof -
    have "find (\<lambda>r. rwID r = j) (filter (\<lambda>r. rwID r \<notin> gone) rs) = find (\<lambda>r. rwID r = j) rs" for rs
      using that by (induction rs) auto
    then show ?thesis by (simp add: rowOf_def removeJobs_def)
  qed
  have edges: "(j, d) \<in> set (qdDeps ?db) \<longleftrightarrow> (j, d) \<in> set (qdDeps db) \<and> j \<notin> gone" for j d
    by (auto simp: removeJobs_def)
  have state: "stateOf ?db d = stateOf db d" if "(j, d) \<in> set (qdDeps db)" for j d
    using that free row by (force simp: stateOf_def)
  have dep: "failedDep ?db j = failedDep db j" "readyDeps ?db j = readyDeps db j" if "j \<notin> gone" for j
    using that state by (auto simp: failedDep_def readyDeps_def edges)
  have rows: "set (qdJobs ?db) = {r \<in> set (qdJobs db). rwID r \<notin> gone}" by (simp add: removeJobs_def)
  have un: "uniqueRows ?db"
    using inv by (auto simp: tablesOk_def uniqueRows_def removeJobs_def distinct_map inj_on_filter_key_eq
        intro: inj_on_subset)
  have "rowOf ?db d = rowOf db d" if "(j, d) \<in> set (qdDeps db)" for j d
    using that free row by force
  then have fk: "\<forall>(i, d) \<in> set (qdDeps ?db). hasJob ?db i \<and> hasJob ?db d"
    using inv row by (fastforce simp: tablesOk_def edges hasJob_rowOf)
  have dd: "distinct (qdDeps ?db)" using inv by (simp add: tablesOk_def removeJobs_def)
  show ?thesis
    unfolding tablesOk_def rows
    using inv un fk dd dep by (auto simp: tablesOk_def waiting_def)
qed

lemma removeJobs_activeCount: "activeCount p (removeJobs gone db) \<le> activeCount p db"
proof -
  have "length (filter Q (filter R rs)) \<le> length (filter Q rs)" for Q R and rs :: "jobRow list"
    by (induction rs) auto
  then show ?thesis by (simp add: activeCount_def removeJobs_def)
qed

lemma CleanupTerminal_ok:
  assumes inv: "storeOk n s" "n \<le> now"
  shows "storeOk now (fst (CleanupTerminal s taskJobs retention limit now))"
proof (cases "stDB s")
  case None
  then show ?thesis using storeOk_mono [OF inv] by (simp add: CleanupTerminal_def)
next
  case (Some db)
  let ?gone = "set (cleanupIDs db taskJobs (now - retention) limit)"
  have "\<forall>(i, d) \<in> set (qdDeps db). d \<notin> ?gone"
    by (force simp: cleanupIDs_def dest: in_set_takeD)
  then have "queueOk now (removeJobs ?gone db)"
    by (intro removeJobs_ok) (use storeOk_db [OF inv(1) Some inv(2)] in auto)
  moreover have "boundsOk (stConfig s) (removeJobs ?gone db)"
    using inv(1) Some removeJobs_activeCount [of _ ?gone db] unfolding storeOk_def boundsOk_def
    by (auto intro: order_trans)
  ultimately have "storeOk now (s\<lparr>stDB := Some (removeJobs ?gone db)\<rparr>)"
    using inv(1) by (simp add: storeOk_def)
  then show ?thesis
    using Some storeOk_mono [OF inv] by (simp add: CleanupTerminal_def removeJobs_def Let_def)
qed

subsection \<open>Runs of the store\<close>

text \<open>
  One call on the store at the time \<open>now\<close> of its last clock reading, the clock never going
  back. \<open>queueStep\<close> has one rule per operation that may write; the time of the previous
  call is part of the state.
\<close>

inductive queueStep :: "gotime \<times> 'm queueDB_scheme Store \<Rightarrow> gotime \<times> 'm queueDB_scheme Store \<Rightarrow> bool" where
  enqueue: "n \<le> now \<Longrightarrow> randomBody body \<Longrightarrow> queueStep (n, s) (now, fst (Enqueue s spec body now))"
| lease: "n \<le> now \<Longrightarrow> randomBody body \<Longrightarrow> queueStep (n, s) (now, fst (LeaseNext s pool holder ttl body now))"
| recover: "n \<le> now \<Longrightarrow> queueStep (n, s) (now, fst (RecoverExpired s now))"
| heartbeat: "n \<le> now \<Longrightarrow> queueStep (n, s) (now, fst (Heartbeat s i l fence ttl now))"
| complete: "n \<le> now0 \<Longrightarrow> now0 \<le> now \<Longrightarrow> queueStep (n, s) (now, fst (Complete s i l fence result now0 now))"
| cancel: "n \<le> now \<Longrightarrow> queueStep (n, s) (now, fst (Cancel s i now))"
| cleanup: "n \<le> now \<Longrightarrow> queueStep (n, s) (now, fst (CleanupTerminal s taskJobs retention limit now))"
| close: "queueStep (n, s) (n, Close s)"

lemma Close_ok: "storeOk n s \<Longrightarrow> storeOk n (Close s)"
  by (simp add: Close_def storeOk_def)

lemma queueStep_time: "queueStep a b \<Longrightarrow> fst a \<le> fst b"
  by (induction rule: queueStep.induct) auto

lemma queueStep_ok:
  assumes "queueStep a b" "storeOk (fst a) (snd a)" "zeroTime < fst a"
  shows "storeOk (fst b) (snd b)"
  using assms
  by (induction rule: queueStep.induct)
    (auto simp: Enqueue_ok LeaseNext_ok RecoverExpired_ok Heartbeat_ok Cancel_ok CleanupTerminal_ok Close_ok
      intro: Complete_ok [THEN conjunct1])

end
