(* ===== verification/Wq_Properties.thy ===== *)
theory Wq_Properties
  imports Wq_Invariant
begin

text \<open>
  What the durable queue promises its callers, for every sequence of calls that starts from a
  fresh store, and the executions that show where the code stops promising it.
\<close>

subsection \<open>Reachable stores\<close>

text \<open>
  The store \<open>Open\<close> returns for a root with no database yet: a validated configuration, empty
  tables, a fair scheduler with quantum one and an aging limit of a minute. The directory,
  lock and database file themselves are not part of the model.
\<close>

definition OpenFresh :: "Config \<Rightarrow> wqError + queueDB Store" where
  "OpenFresh config =
     (case validateConfig config of
        Inl e \<Rightarrow> Inl e
      | Inr validated \<Rightarrow>
         (case NewFairScheduler \<lparr>fcfgQuantum = 1, fcfgAgingLimit = minute\<rparr> of
            Inl e \<Rightarrow> Inl e
          | Inr fair \<Rightarrow> Inr \<lparr>stConfig = validated, stDB = Some \<lparr>qdJobs = [], qdDeps = []\<rparr>, stFair = fair\<rparr>))"

definition freshStore :: "gotime \<times> queueDB Store \<Rightarrow> bool" where
  "freshStore a \<longleftrightarrow> zeroTime < fst a \<and> (\<exists>config. OpenFresh config = Inr (snd a))"

abbreviation queueReach :: "gotime \<times> queueDB Store \<Rightarrow> bool" where
  "queueReach \<equiv> reach freshStore queueStep"

lemma validateConfig_again: "validateConfig config = Inr c \<Longrightarrow> validateConfig c = Inr c"
  by (auto simp: validateConfig_def Let_def split: if_splits)

lemma validateConfig_bounds:
  "validateConfig config = Inr c \<Longrightarrow> 1 \<le> cfgMaxJobs c \<and> cfgMaxJobs c \<le> 4096 \<and> 1 \<le> cfgMaxJobsPerWorkspace c"
  by (auto simp: validateConfig_def Let_def split: if_splits)

lemma freshFair:
  "NewFairScheduler \<lparr>fcfgQuantum = 1, fcfgAgingLimit = minute\<rparr> =
   Inr \<lparr>fsConfig = \<lparr>fcfgQuantum = 1, fcfgAgingLimit = minute\<rparr>, fsDeficits = Map.empty, fsCursor = []\<rparr>"
  by (simp add: NewFairScheduler_def maxResourceValue_def limit_defs)

lemma freshStore_ok:
  assumes "freshStore a"
  shows "zeroTime < fst a \<and> storeOk (fst a) (snd a)"
proof -
  obtain config where new: "OpenFresh config = Inr (snd a)" and time: "zeroTime < fst a"
    using assms by (auto simp: freshStore_def)
  then obtain c where c: "validateConfig config = Inr c"
    by (cases "validateConfig config") (auto simp: OpenFresh_def)
  then have s: "snd a = \<lparr>stConfig = c, stDB = Some \<lparr>qdJobs = [], qdDeps = []\<rparr>, stFair =
      \<lparr>fsConfig = \<lparr>fcfgQuantum = 1, fcfgAgingLimit = minute\<rparr>, fsDeficits = Map.empty, fsCursor = []\<rparr>\<rparr>"
    using new by (simp add: OpenFresh_def freshFair)
  have "queueOk (fst a) \<lparr>qdJobs = [], qdDeps = []\<rparr>" by (simp add: tablesOk_def uniqueRows_def)
  moreover have "boundsOk c \<lparr>qdJobs = [], qdDeps = []\<rparr>"
    using validateConfig_bounds [OF c] by (simp add: boundsOk_def activeCount_def)
  ultimately show ?thesis
    using time validateConfig_again [OF c] unfolding s
    by (simp add: storeOk_def fairOk_def deficitsOk_def maxResourceValue_def)
qed

interpretation wq: invariant_system freshStore queueStep "\<lambda>a. zeroTime < fst a \<and> storeOk (fst a) (snd a)"
proof unfold_locales
  show "zeroTime < fst t \<and> storeOk (fst t) (snd t)"
    if "queueStep s t" "zeroTime < fst s \<and> storeOk (fst s) (snd s)" for s t
    using queueStep_ok [OF that(1)] queueStep_time [OF that(1)] that(2) by auto
qed (rule freshStore_ok)

lemma reach_queueOk: "queueReach (n, s) \<Longrightarrow> stDB s = Some db \<Longrightarrow> queueOk n db"
  using wq.reach_inv [of "(n, s)"] by (simp add: storeOk_def)

lemma reach_storeOk: "queueReach (n, s) \<Longrightarrow> storeOk n s"
  using wq.reach_inv [of "(n, s)"] by simp

subsection \<open>What the queue promises\<close>

text \<open>
  C1: whatever calls were made on a queue, with a clock that does not go back, every stored
  job is one its readers accept (so no later call fails on a row the queue itself wrote),
  fence and attempt agree and stay within the lease attempts, no two rows share an identifier
  or an idempotency key, and the active jobs respect the global and the workspace bound.
\<close>

theorem queue_rows_valid:
  assumes "queueReach (n, s)" and "stDB s = Some db"
  shows "(\<forall>r \<in> set (qdJobs db). scanJob r = Inr (rowJob r) \<and> rwFence r = rwAttempt r \<and>
      0 \<le> rwAttempt r \<and> rwAttempt r \<le> MaxLeaseAttempts \<and> rwUpdated r \<le> n) \<and>
    distinct (map rwID (qdJobs db)) \<and> distinct (map rwKey (qdJobs db)) \<and>
    activeCount (\<lambda>r. True) db \<le> cfgMaxJobs (stConfig s) \<and>
    (\<forall>w. activeCount (\<lambda>r. rwWorkspace r = w) db \<le> cfgMaxJobsPerWorkspace (stConfig s))"
proof -
  have ok: "queueOk n db" and bounds: "boundsOk (stConfig s) db"
    using reach_queueOk [OF assms] reach_storeOk [OF assms(1)] assms(2) by (simp_all add: storeOk_def)
  have "\<forall>r \<in> set (qdJobs db). rowOk n r" "uniqueRows db" using ok by (simp_all add: tablesOk_def)
  then show ?thesis
    using bounds rowOk_scan validateStoredJob_attempt unfolding boundsOk_def uniqueRows_def rowOk_def by blast
qed

text \<open>
  C2: in every reachable queue a job that has been queued, leased or completed successfully
  has only successful dependencies: no job runs before what it depends on.
\<close>

theorem queue_dependencies_first:
  assumes "queueReach (n, s)" and "stDB s = Some db" and "r \<in> set (qdJobs db)"
    and "rwState r \<in> {StateQueued, StateLeased, StateSucceeded}" and "(rwID r, d) \<in> set (qdDeps db)"
  shows "\<exists>x \<in> set (qdJobs db). rwID x = d \<and> rwState x = StateSucceeded"
proof -
  have "readyDeps db (rwID r)"
    using reach_queueOk [OF assms(1,2)] assms(3,4) by (auto simp: tablesOk_def startedState_def)
  then have "stateOf db d = Some StateSucceeded" using assms(5) by (simp add: readyDeps_def)
  then show ?thesis using rowOf_Some [of db d] by (auto simp: stateOf_def)
qed

text \<open>
  C3: no lost wake-up. In every reachable queue a blocked job still waits for something: it
  has a dependency that is blocked, queued or leased, and none that failed or was cancelled.
  Every completion, cancellation and recovery has therefore already released or failed
  all the jobs it decides.
\<close>

theorem queue_blocked_waits:
  assumes "queueReach (n, s)" and "stDB s = Some db" and "r \<in> set (qdJobs db)" and "rwState r = StateBlocked"
  shows "(\<exists>x \<in> set (qdJobs db). (rwID r, rwID x) \<in> set (qdDeps db) \<and> activeState (rwState x)) \<and>
    (\<forall>x \<in> set (qdJobs db). (rwID r, rwID x) \<in> set (qdDeps db) \<longrightarrow>
       rwState x \<noteq> StateFailed \<and> rwState x \<noteq> StateCancelled)"
proof -
  have ok: "queueOk n db" by (rule reach_queueOk [OF assms(1,2)])
  have un: "uniqueRows db" using ok by (simp add: tablesOk_def)
  have w: "\<not> failedDep db (rwID r)" "\<not> readyDeps db (rwID r)"
    using ok assms(3,4) by (auto simp: tablesOk_def waiting_def)
  then obtain d where d: "(rwID r, d) \<in> set (qdDeps db)" "stateOf db d \<noteq> Some StateSucceeded"
    by (auto simp: readyDeps_def)
  obtain x where x: "rowOf db d = Some x"
    using ok d(1) by (auto simp: tablesOk_def hasJob_rowOf)
  have "rwState x \<noteq> StateFailed \<and> rwState x \<noteq> StateCancelled \<and> rwState x \<noteq> StateSucceeded"
    using w(1) d x by (auto simp: failedDep_def stateOf_def)
  then have "activeState (rwState x)"
    using rowOk_state tablesOk_row [OF ok x] by (fastforce simp: activeState_def)
  moreover have "\<not> (rwState y = StateFailed \<or> rwState y = StateCancelled)"
    if "y \<in> set (qdJobs db)" "(rwID r, rwID y) \<in> set (qdDeps db)" for y
    using w(1) that rowOf_row [OF un that(1)] unfolding failedDep_def stateOf_def by fastforce
  ultimately show ?thesis using rowOf_Some [OF x] d(1) by blast
qed

lemma reach_next: "queueReach a \<Longrightarrow> queueStep a b \<Longrightarrow> queueReach b"
  by (rule reach.next_state)

text \<open>What one call does to the rows: they evolve, a new one is added, or the sweep deletes some.\<close>

lemma sameRow: "uniqueRows db \<Longrightarrow> x \<in> set (qdJobs db) \<Longrightarrow> r \<in> set (qdJobs db) \<Longrightarrow> rwID x = rwID r \<Longrightarrow> x = r"
  by (metis rowOf_row option.inject)

lemma cleanupIDs_deletes:
  assumes "i \<in> set (cleanupIDs db taskJobs cutoff limit)"
  obtains r where "r \<in> set (qdJobs db)" "rwID r = i" "terminal (rwState r)" "rwUpdated r < cutoff"
    "i \<notin> snd ` set (qdDeps db)" "i \<notin> set taskJobs"
proof -
  from assms obtain r where "rwID r = i" "r \<in> set (sort_key (\<lambda>r. (rwUpdated r, rwID r))
      (filter (\<lambda>r. terminal (rwState r) \<and> rwUpdated r < cutoff \<and>
          rwID r \<notin> set (map snd (qdDeps db)) \<and> rwID r \<notin> set taskJobs) (qdJobs db)))"
    unfolding cleanupIDs_def by (auto dest: in_set_takeD)
  then show thesis using that by auto
qed

lemma queueStep_rows:
  assumes step: "queueStep (n, s) (n', s')" and inv: "storeOk n s" and db: "stDB s = Some db" "stDB s' = Some db'"
  obtains (moves) "evolves db db'"
  | (adds) r where "qdJobs db' = qdJobs db @ [r]" "rwCreated r = n'" "rwID r \<notin> rwID ` set (qdJobs db)"
  | (sweeps) taskJobs retention limit where "s' = fst (CleanupTerminal s taskJobs retention limit n')" "minute \<le> retention"
      "qdJobs db' = filter (\<lambda>r. rwID r \<notin> set (cleanupIDs db taskJobs (n' - retention) limit)) (qdJobs db)"
proof -
  have le: thesis if "storeLe s s'" using that db moves by (simp add: storeLe_def)
  from step show thesis
  proof cases
    case (enqueue body spec)
    have ok: "queueOk n' db" by (rule storeOk_db [OF inv db(1) enqueue(2)])
    show thesis
      using db(1) ok
    proof (cases rule: Enqueue_cases [where spec = spec and body = body])
      case (added db1 i)
      have "db1 = db'" using added(5) enqueue db by simp
      with added(4) have tx: "enqueueTx db (canonicalSpec spec) body n' = Inr (db', i)" by simp
      show thesis by (rule enqueueTx_shape [OF tx], rule adds, simp) (simp_all add: newRow_def)
    qed (use le enqueue in simp)
  next
    case (lease body pool holder ttl)
    then show thesis using le LeaseNext_ok [OF inv lease(2,3)] by simp
  next
    case recover
    then show thesis using le RecoverExpired_ok [OF inv recover(2)] by simp
  next
    case (heartbeat i l fence ttl)
    then show thesis using le Heartbeat_ok [OF inv heartbeat(2)] by simp
  next
    case (complete now0 i l fence result)
    then show thesis using le Complete_ok [OF inv order_trans [OF complete(2,3)]] by simp
  next
    case (cancel i)
    then show thesis using le Cancel_ok [OF inv cancel(2)] by simp
  next
    case (cleanup taskJobs retention limit)
    show thesis
    proof (cases "retention < minute \<or> retention > 365 * 24 * hour \<or> limit < 1 \<or> limit > MaxListResults")
      case True
      then show thesis using le cleanup(1) db(1) by (simp add: CleanupTerminal_def)
    next
      case False
      with cleanup(1) db sweeps [of taskJobs retention limit] show thesis by (auto simp: CleanupTerminal_def Let_def)
    qed
  next
    case close
    then show thesis using db by (simp add: Close_def)
  qed
qed


subsection \<open>Fences over time\<close>

text \<open>
  A row is followed through the life of the queue by its identifier and its creation time. The
  sweep deletes only rows that were created before the time of the call, so even a random
  identifier that comes up a second time names another job.
\<close>

definition sameJob :: "jobRow \<Rightarrow> jobRow \<Rightarrow> bool" where
  "sameJob r r' \<longleftrightarrow> rwID r = rwID r' \<and> rwCreated r = rwCreated r'"

definition storedRows :: "'m queueDB_scheme Store \<Rightarrow> jobRow set" where
  "storedRows s = (case stDB s of None \<Rightarrow> {} | Some db \<Rightarrow> set (qdJobs db))"

definition laterRow :: "gotime \<Rightarrow> jobRow set \<Rightarrow> jobRow \<Rightarrow> bool" where
  "laterRow n R r' \<longleftrightarrow> (\<exists>r \<in> R. sameJob r r' \<and> rwFence r \<le> rwFence r') \<or>
     n \<le> rwCreated r' \<and> (\<forall>r \<in> R. rwID r = rwID r' \<longrightarrow> rwCreated r < rwCreated r')"

definition fencesLe :: "gotime \<times> 'm queueDB_scheme Store \<Rightarrow> gotime \<times> 'm queueDB_scheme Store \<Rightarrow> bool" where
  "fencesLe a b \<longleftrightarrow> fst a \<le> fst b \<and> (stDB (snd a) = None \<longrightarrow> stDB (snd b) = None) \<and>
     (stDB (snd b) \<noteq> None \<longrightarrow>
        (\<forall>r \<in> storedRows (snd a). rwCreated r < fst b \<or> (\<exists>r' \<in> storedRows (snd b). sameJob r r')) \<and>
        (\<forall>r' \<in> storedRows (snd b). laterRow (fst a) (storedRows (snd a)) r'))"

lemma laterRow_trans:
  assumes "laterRow m S r''" and "m' \<le> m" and "\<forall>r' \<in> S. laterRow m' R r'"
    and "\<forall>r \<in> R. rwCreated r < m \<or> (\<exists>r' \<in> S. sameJob r r')"
  shows "laterRow m' R r''"
  using assms(1)[unfolded laterRow_def]
proof
  assume "\<exists>r' \<in> S. sameJob r' r'' \<and> rwFence r' \<le> rwFence r''"
  then obtain r' where "r' \<in> S" "sameJob r' r''" "rwFence r' \<le> rwFence r''" by blast
  with assms(3) show ?thesis by (fastforce simp: laterRow_def sameJob_def)
next
  assume new: "m \<le> rwCreated r'' \<and> (\<forall>r' \<in> S. rwID r' = rwID r'' \<longrightarrow> rwCreated r' < rwCreated r'')"
  have "rwCreated r < rwCreated r''" if "r \<in> R" "rwID r = rwID r''" for r
    using assms(4) that new by (fastforce simp: sameJob_def)
  then show ?thesis using new assms(2) by (auto simp: laterRow_def)
qed

lemma fencesLe_trans:
  assumes "fencesLe a b" and "fencesLe b c"
  shows "fencesLe a c"
proof (cases "stDB (snd c)")
  case (Some db)
  then have b: "stDB (snd b) \<noteq> None" and c: "stDB (snd c) \<noteq> None" using assms(2) by (auto simp: fencesLe_def)
  note a = assms(1)[unfolded fencesLe_def, THEN conjunct2, THEN conjunct2, rule_format, OF b]
  note b' = assms(2)[unfolded fencesLe_def, THEN conjunct2, THEN conjunct2, rule_format, OF c]
  have time: "fst a \<le> fst b" "fst b \<le> fst c" using assms by (simp_all add: fencesLe_def)
  have "laterRow (fst a) (storedRows (snd a)) r''" if "r'' \<in> storedRows (snd c)" for r''
    by (rule laterRow_trans [OF _ time(1)]) (use a b' that in blast)+
  moreover have "rwCreated r < fst c \<or> (\<exists>r'' \<in> storedRows (snd c). sameJob r r'')" if r: "r \<in> storedRows (snd a)" for r
  proof (cases "rwCreated r < fst b")
    case False
    with a r obtain r' where "r' \<in> storedRows (snd b)" "sameJob r r'" by blast
    with b' show ?thesis by (fastforce simp: sameJob_def)
  qed (use time in simp)
  ultimately show ?thesis using assms time by (auto simp: fencesLe_def)
qed (use assms in \<open>auto simp: fencesLe_def\<close>)

lemma queueStep_closed: "queueStep a b \<Longrightarrow> stDB (snd a) = None \<Longrightarrow> stDB (snd b) = None"
  by (induction rule: queueStep.induct)
    (simp_all add: Enqueue_def LeaseNext_def RecoverExpired_def Heartbeat_def Complete_def Cancel_def CleanupTerminal_def Close_def)

lemma list_all2_members:
  "list_all2 P xs ys \<Longrightarrow> (\<forall>x \<in> set xs. \<exists>y \<in> set ys. P x y) \<and> (\<forall>y \<in> set ys. \<exists>x \<in> set xs. P x y)"
  by (induction rule: list_all2_induct) auto

lemma fencesLe_step:
  assumes step: "queueStep a b" and inv: "storeOk (fst a) (snd a)"
  shows "fencesLe a b"
proof (cases "stDB (snd b)")
  case None
  then show ?thesis using queueStep_time [OF step] by (simp add: fencesLe_def)
next
  case (Some db')
  then obtain db where db: "stDB (snd a) = Some db" using queueStep_closed [OF step] by fastforce
  have time: "fst a \<le> fst b" by (rule queueStep_time [OF step])
  have created: "rwCreated r \<le> rwUpdated r" if "r \<in> set (qdJobs db)" for r
    using storeOk_db [OF inv db order_refl] that by (auto simp: tablesOk_def rowOk_def validateStoredJob_def rowJob_def)
  let ?R = "set (qdJobs db)"
  have "queueStep (fst a, snd a) (fst b, snd b)" using step by simp
  then have "(\<forall>r \<in> ?R. rwCreated r < fst b \<or> (\<exists>r' \<in> set (qdJobs db'). sameJob r r')) \<and>
    (\<forall>r' \<in> set (qdJobs db'). laterRow (fst a) ?R r')"
    using inv db Some
  proof (cases rule: queueStep_rows)
    case moves
    then have "list_all2 rowLe (qdJobs db) (qdJobs db')" by (simp add: evolves_def)
    moreover have "sameJob r r' \<and> rwFence r \<le> rwFence r'" if "rowLe r r'" for r r'
      using that by (simp add: rowLe_def identity_def sameJob_def)
    ultimately have "list_all2 (\<lambda>r r'. sameJob r r' \<and> rwFence r \<le> rwFence r') (qdJobs db) (qdJobs db')"
      by (rule list_all2_mono)
    from list_all2_members [OF this] show ?thesis unfolding laterRow_def by blast
  next
    case (adds r)
    have "rwID q \<noteq> rwID r" if "q \<in> ?R" for q using adds(3) that by (metis imageI)
    with adds(1,2) time show ?thesis by (auto simp: laterRow_def sameJob_def)
  next
    case (sweeps taskJobs retention limit)
    have "rwCreated r < fst b" if r: "r \<in> ?R" "rwID r \<in> set (cleanupIDs db taskJobs (fst b - retention) limit)" for r
    proof -
      obtain x where x: "x \<in> ?R" "rwID x = rwID r" "rwUpdated x < fst b - retention" using r(2) by (rule cleanupIDs_deletes)
      have "uniqueRows db" using storeOk_db [OF inv db order_refl] by (simp add: tablesOk_def)
      then have "x = r" by (rule sameRow [OF _ x(1) r(1) x(2)])
      then show ?thesis using created [OF r(1)] x(3) sweeps(2) by (simp add: limit_defs)
    qed
    then show ?thesis using sweeps(3) by (auto simp: laterRow_def sameJob_def)
  qed
  then show ?thesis using time db Some by (simp add: fencesLe_def storedRows_def)
qed

interpretation fences: monotone_system freshStore queueStep "\<lambda>a. zeroTime < fst a \<and> storeOk (fst a) (snd a)" fencesLe
proof unfold_locales
  show "fencesLe a a" for a :: "gotime \<times> queueDB Store" by (auto simp: fencesLe_def laterRow_def sameJob_def)
  show "fencesLe a c" if "fencesLe a b" "fencesLe b c" for a b c :: "gotime \<times> queueDB Store"
    using that by (rule fencesLe_trans)
  show "fencesLe a b" if "queueStep a b" "zeroTime < fst a \<and> storeOk (fst a) (snd a)" for a b :: "gotime \<times> queueDB Store"
    using that by (blast intro: fencesLe_step)
qed

lemma fences_increase:
  assumes "queueReach (n, s)" and "queueStep\<^sup>*\<^sup>* (n, s) (n', s')" and db: "stDB s = Some db" "stDB s' = Some db'"
    and "rowOf db i = Some r" and "rowOf db' i = Some r'" and "rwCreated r = rwCreated r'"
  shows "rwFence r \<le> rwFence r'"
proof -
  have "fencesLe (n, s) (n', s')" by (rule fences.run_le [OF assms(2) wq.reach_inv [OF assms(1)]])
  then have "laterRow n (set (qdJobs db)) r'"
    using db rowOf_Some [OF assms(6)] by (simp add: fencesLe_def storedRows_def)
  moreover have r: "r \<in> set (qdJobs db)" "rwID r = rwID r'" using rowOf_Some [OF assms(5)] rowOf_Some [OF assms(6)] by auto
  ultimately obtain x where x: "x \<in> set (qdJobs db)" "rwID x = rwID r" "rwFence x \<le> rwFence r'"
    using assms(7) by (auto simp: laterRow_def sameJob_def)
  have "uniqueRows db" using reach_queueOk [OF assms(1) db(1)] by (simp add: tablesOk_def)
  from sameRow [OF this x(1) r(1) x(2)] x(3) show ?thesis by simp
qed

subsection \<open>Enqueueing and leasing\<close>

lemma find_SomeD: "find P xs = Some x \<Longrightarrow> x \<in> set xs \<and> P x"
  by (induction xs) (auto split: if_splits)

lemma jobByIdempotency_ok:
  assumes "\<forall>r \<in> set (qdJobs db). rowOk now r"
  shows "jobByIdempotency db key = Inr (map_option rowJob (find (\<lambda>r. rwKey r = key) (qdJobs db)))"
proof (cases "find (\<lambda>r. rwKey r = key) (qdJobs db)")
  case (Some r)
  then have "scanJob r = Inr (rowJob r)" using assms rowOk_scan find_SomeD [OF Some] by blast
  with Some show ?thesis by (simp add: jobByIdempotency_def jobBy_def)
qed (simp add: jobByIdempotency_def jobBy_def)

text \<open>After a successful enqueue the job is stored under its key with the requested specification.\<close>

definition storedAs :: "'m queueDB_scheme \<Rightarrow> Spec \<Rightarrow> Job \<Rightarrow> bool" where
  "storedAs db spec job \<longleftrightarrow> validateSpec spec = None \<and> specMatches db job (canonicalSpec spec) \<and>
     (\<exists>r. find (\<lambda>r. rwKey r = spIdempotencyKey spec) (qdJobs db) = Some r \<and> job = rowJob r)"

lemma storedAs_again:
  assumes "stDB s = Some db" "queueOk now db" "storedAs db spec job"
  shows "Enqueue s spec body now = (s, Inr (job, False))"
  using assms jobByIdempotency_ok [of db now "spIdempotencyKey spec"]
  by (auto simp: Enqueue_def storedAs_def tablesOk_def Let_def)

lemma newRow_storedAs:
  assumes inv: "queueOk now db" and v: "validateSpec spec = None" and none: "rowOf db i = None"
    and key: "spIdempotencyKey spec \<notin> rwKey ` set (qdJobs db)"
    and row: "row = newRow (canonicalSpec spec) i st reason now"
    and db': "db' = db\<lparr>qdJobs := qdJobs db @ [row], qdDeps := qdDeps db @ map (Pair i) (spDependencies (canonicalSpec spec))\<rparr>"
  shows "storedAs db' spec (rowJob row)"
proof -
  have noDeps: "filter (\<lambda>d. fst d = i) (qdDeps db) = []"
    using inv none by (auto simp: tablesOk_def hasJob_rowOf filter_empty_conv)
  have "map snd (filter (\<lambda>d. fst d = i) (map (Pair i) ds)) = ds" for ds :: "string list"
    by (induction ds) auto
  then have "dependencyIDs db' i = sort (sort (spDependencies spec))"
    by (simp add: dependencyIDs_def db' noDeps)
  moreover have "find (\<lambda>r. rwKey r = spIdempotencyKey spec) (qdJobs db) = None"
    using key by (force simp: find_None_iff image_iff)
  then have "find (\<lambda>r. rwKey r = spIdempotencyKey spec) (qdJobs db') = Some row"
    by (simp add: db' find_append row)
  ultimately show ?thesis
    using v by (simp add: storedAs_def specMatches_def sameStrings_def row rowJob_def newRow_def sorted_sort_id)
qed

lemma Enqueue_stored:
  assumes db: "stDB s = Some db" and ok: "queueOk now db" and body: "randomBody body" and now: "zeroTime < now"
    and run: "Enqueue s spec body now = (s', Inr (job, created))"
  shows "\<exists>db'. stDB s' = Some db' \<and> queueOk now db' \<and> storedAs db' spec job"
proof -
  have rows: "\<forall>r \<in> set (qdJobs db). rowOk now r" using ok by (simp add: tablesOk_def)
  have v: "validateSpec spec = None" using run db by (auto simp: Enqueue_def split: option.splits)
  show ?thesis
  proof (cases "find (\<lambda>r. rwKey r = spIdempotencyKey spec) (qdJobs db)")
    case (Some r)
    then show ?thesis
      using run db ok v jobByIdempotency_ok [OF rows, of "spIdempotencyKey spec"]
      by (auto simp: Enqueue_def Let_def storedAs_def split: if_splits)
  next
    case None
    then obtain db' i where tx: "enqueueTx db (canonicalSpec spec) body now = Inr (db', i)"
      and s': "s' = s\<lparr>stDB := Some db'\<rparr>" and job: "getUnlocked db' i = Inr job"
      using run db v jobByIdempotency_ok [OF rows, of "spIdempotencyKey spec"]
      by (auto simp: Enqueue_def Let_def split: if_splits sum.splits prod.splits)
    obtain st reason where new: "queueOk now db'" "rowOf db i = None"
      and db': "db' = db\<lparr>qdJobs := qdJobs db @ [newRow (canonicalSpec spec) i st reason now],
             qdDeps := qdDeps db @ map (Pair i) (spDependencies (canonicalSpec spec))\<rparr>"
      using enqueueTx_ok [OF ok v refl body now tx] by blast
    have "rowOf db' i = Some (newRow (canonicalSpec spec) i st reason now)"
      unfolding db' by (subst rowOf_append [OF _ new(2)]) simp_all
    then have "job = rowJob (newRow (canonicalSpec spec) i st reason now)"
      using getUnlocked_ok [OF new(1)] job by simp
    moreover have "spIdempotencyKey spec \<notin> rwKey ` set (qdJobs db)" using None by (auto simp: find_None_iff)
    ultimately show ?thesis using newRow_storedAs [OF ok v new(2) _ refl db'] new(1) s' by simp
  qed
qed

text \<open>
  C20: enqueueing is idempotent. Repeating a call that succeeded, at any later time and with any
  random bytes, changes nothing and returns the same job, marked as not created.
\<close>

theorem Enqueue_idempotent:
  assumes "queueReach (n, s)" and "n \<le> now" and "now \<le> now'" and "randomBody body"
    and "Enqueue s spec body now = (s', Inr (job, created))"
  shows "Enqueue s' spec body' now' = (s', Inr (job, False))"
proof -
  obtain db where db: "stDB s = Some db" using assms(5) by (cases "stDB s") (auto simp: Enqueue_def)
  have ok: "queueOk now db" using storeOk_db [OF reach_storeOk [OF assms(1)] db assms(2)] .
  have "zeroTime < now" using wq.reach_inv [OF assms(1)] assms(2) by simp
  then obtain db' where "stDB s' = Some db'" "queueOk now db'" "storedAs db' spec job"
    using Enqueue_stored [OF db ok assms(4) _ assms(5)] by blast
  then show ?thesis using storedAs_again tablesOk_mono assms(3) by blast
qed

subsection \<open>Leasing\<close>

lemma rowOk_core:
  assumes "rowOk now r"
  shows "jobIDPattern (rwID r)" and "workspacePattern (rwWorkspace r)" and "rwUpdated r \<noteq> zeroTime" and "rwUpdated r \<le> now"
    and "rwState r = StateQueued \<Longrightarrow> \<not> rwCancel r"
proof -
  have v: "validateStoredJob (rowJob r)" and u: "rwUpdated r \<le> now" using assms by (simp_all add: rowOk_def)
  from v have s: "validateSpec (jobSpec (rowJob r)) = None" by (simp add: validateStoredJob_def)
  show "workspacePattern (rwWorkspace r)" using validateSpec_core [OF s] by (simp add: jobSpec_def)
  show "jobIDPattern (rwID r)" "rwUpdated r \<noteq> zeroTime" "rwUpdated r \<le> now" using v u by (simp_all add: validateStoredJob_def)
  show "rwState r = StateQueued \<Longrightarrow> \<not> rwCancel r" using v by (simp add: validateStoredJob_def)
qed

lemma leaseCandidates_selectable:
  assumes ok: "queueOk now db" and now: "zeroTime < now" and lim: "1 \<le> limit" "limit \<le> 4096"
    and ne: "leaseCandidates db pool limit \<noteq> []"
  shows "selectable now (leaseCandidates db pool limit)" and "\<forall>c \<in> set (leaseCandidates db pool limit). fcCost c = 1"
    and "c \<in> set (leaseCandidates db pool limit) \<Longrightarrow>
      \<exists>r. rowOf db (fcJobID c) = Some r \<and> rwState r = StateQueued \<and> rwPool r = pool \<and>
        c = \<lparr>fcJobID = rwID r, fcWorkspace = rwWorkspace r, fcCost = 1, fcCreatedAt = rwUpdated r\<rparr>"
proof -
  let ?rows = "take (nat limit) (sort_key (\<lambda>r. (rwUpdated r, rwID r))
      (filter (\<lambda>r. rwPool r = pool \<and> rwState r = StateQueued \<and> \<not> rwCancel r) (qdJobs db)))"
  have rows: "\<forall>r \<in> set (qdJobs db). rowOk now r" and un: "uniqueRows db" using ok by (simp_all add: tablesOk_def)
  have mem: "r \<in> set (qdJobs db) \<and> rwPool r = pool \<and> rwState r = StateQueued" if "r \<in> set ?rows" for r
    using that by (auto dest: in_set_takeD)
  have valid: "validCandidate now \<lparr>fcJobID = rwID r, fcWorkspace = rwWorkspace r, fcCost = 1, fcCreatedAt = rwUpdated r\<rparr>"
    if "r \<in> set ?rows" for r
  proof -
    have "rowOk now r" using mem [OF that] rows by blast
    from rowOk_core(1-4) [OF this] show ?thesis by (simp add: validCandidate_def maxResourceValue_def)
  qed
  have inj: "inj_on rwID (set (qdJobs db))" and "distinct (qdJobs db)"
    using un by (auto simp: uniqueRows_def distinct_map)
  then have "distinct ?rows" by (intro distinct_take) (simp add: distinct_sort)
  moreover have "inj_on rwID (set ?rows)" by (rule inj_on_subset [OF inj]) (use mem in blast)
  ultimately have "distinct (map rwID ?rows)" by (simp only: distinct_map simp_thms)
  moreover have "length ?rows \<le> 4096" using lim(2) by simp
  ultimately show "selectable now (leaseCandidates db pool limit)"
    using ne now valid by (auto simp: selectable_def leaseCandidates_def comp_def)
  show "\<forall>c \<in> set (leaseCandidates db pool limit). fcCost c = 1" by (auto simp: leaseCandidates_def)
  show "\<exists>r. rowOf db (fcJobID c) = Some r \<and> rwState r = StateQueued \<and> rwPool r = pool \<and>
        c = \<lparr>fcJobID = rwID r, fcWorkspace = rwWorkspace r, fcCost = 1, fcCreatedAt = rwUpdated r\<rparr>"
    if "c \<in> set (leaseCandidates db pool limit)"
  proof -
    from that obtain r where r: "r \<in> set ?rows"
      "c = \<lparr>fcJobID = rwID r, fcWorkspace = rwWorkspace r, fcCost = 1, fcCreatedAt = rwUpdated r\<rparr>"
      unfolding leaseCandidates_def by auto
    with mem [OF r(1)] rowOf_row [OF un] show ?thesis by auto
  qed
qed

lemma leaseTx_succeeds:
  assumes ok: "queueOk now db" and r: "rowOf db i = Some r" "rwState r = StateQueued"
    and l: "leaseIDPattern l" "holderPattern h" "now \<le> e"
  shows "\<exists>db' lease. leaseTx db i l h e now = Inr (db', lease)"
proof -
  let ?p = "\<lambda>x. rwID x = i \<and> rwState x = StateQueued"
  have un: "uniqueRows db" using ok by (simp add: tablesOk_def)
  have p: "?p x \<longleftrightarrow> r = x" if "x \<in> set (qdJobs db)" for x
  proof
    assume "?p x"
    then have "rowOf db i = Some x" using rowOf_row [OF un that] by blast
    then show "r = x" using r(1) by simp
  qed (use rowOf_Some [OF r(1)] r(2) in blast)
  have "filter ?p (qdJobs db) = filter (\<lambda>x. r = x) (qdJobs db)" using p by (rule filter_cong [OF refl])
  moreover have "distinct (qdJobs db)" "r \<in> set (qdJobs db)"
    using un rowOf_Some [OF r(1)] by (auto simp: uniqueRows_def distinct_map)
  then have "length (filter (\<lambda>x. r = x) (qdJobs db)) = 1"
    using distinct_length_filter [of "qdJobs db" "\<lambda>x. r = x"] by (simp add: Int_absorb2)
  ultimately have one: "rowsAffected ?p db = 1" by (simp add: rowsAffected_def)
  note u = tablesOk_row [OF ok r(1)]
  let ?db = "updateJobs ?p (leaseRow l h e now) db"
  have row: "rowOf ?db i = Some (leaseRow l h e now r)" using r u by simp
  have rows: "\<forall>x \<in> set (qdJobs ?db). rowOk now x"
    using ok rowOk_leaseRow [OF _ order_refl _ l] by (auto simp: tablesOk_def)
  then have "jobByID ?db i = Inr (Some (rowJob (leaseRow l h e now r)))" 
    using jobByID_ok [OF rows, of i] unfolding row by simp
  then show ?thesis using one by (simp add: leaseTx_def Let_def)
qed

lemma sort_key_empty: "sort_key f xs = [] \<longleftrightarrow> xs = []"
  by (metis length_0_conv length_sort)

text \<open>
  C21: a granted lease. Once expired leases were recovered, the leased job was queued in the
  pool asked for, and all its dependencies have succeeded. Its row is now leased to the holder
  under the returned identifier until the time asked for, and no unexpired lease was taken
  over. The fencing number is greater than every one its row had in the whole life of
  the queue up to this call, where the row of a job is known by its identifier and its
  creation time.
\<close>

theorem LeaseNext_grants:
  assumes "queueReach (n, s)" and "n \<le> now" and "randomBody body" and "stDB s = Some db"
    and "LeaseNext s pool holder ttl body now = (s', Inr lease)"
  shows "(\<exists>db1 r1. recoverExpired db now = Inr db1 \<and> rowOf db1 (jID (lsJob lease)) = Some r1 \<and>
       rwState r1 = StateQueued \<and> rwPool r1 = pool) \<and>
    (\<exists>db' r r'. stDB s' = Some db' \<and> rowOf db (jID (lsJob lease)) = Some r \<and>
       rowOf db' (jID (lsJob lease)) = Some r' \<and> rwPool r' = pool \<and> rwState r' = StateLeased \<and>
       rwLeaseID r' = Some (lsID lease) \<and> rwHolder r' = Some holder \<and> rwFence r' = int (lsFence lease) \<and>
       rwLeaseUntil r' = Some (now + ttl) \<and> lsExpires lease = now + ttl \<and>
       rwFence r < rwFence r' \<and> (rwState r = StateLeased \<longrightarrow> expiredLease now r) \<and>
       readyDeps db' (jID (lsJob lease))) \<and>
    (\<forall>n0 s0 db0 r0. queueReach (n0, s0) \<and> queueStep\<^sup>*\<^sup>* (n0, s0) (n, s) \<and> stDB s0 = Some db0 \<and>
       rowOf db0 (jID (lsJob lease)) = Some r0 \<and> rwCreated r0 = jCreated (lsJob lease) \<longrightarrow> rwFence r0 < int (lsFence lease))"
proof -
  have inv: "storeOk n s" by (rule reach_storeOk [OF assms(1)])
  have req: "leaseRequestOk pool holder ttl" 
    using LeaseNext_refused [of s pool holder ttl body now] assms(5) by (cases "leaseRequestOk pool holder ttl") simp_all
  obtain db1 where rec: "recoverExpired db now = Inr db1" "evolves db db1" "queueOk now db1"
    and keep: "\<forall>i r. rowOf db i = Some r \<and> \<not> expiredLease now r \<and> rwState r \<noteq> StateBlocked \<longrightarrow> rowOf db1 i = Some r"
    using recoverExpired_ok [OF storeOk_db [OF inv assms(4) order_refl] assms(2)] by blast
  have now: "zeroTime < now" using wq.reach_inv [OF assms(1)] assms(2) by simp
  have cfg: "1 \<le> cfgMaxJobs (stConfig s)" "cfgMaxJobs (stConfig s) \<le> 4096"
    using inv validateConfig_bounds unfolding storeOk_def by blast+
  show ?thesis
    using assms(4) req rec(1)
  proof (cases rule: LeaseNext_cases [where body = body])
    case (leased c l db2 lease')
    let ?cs = "leaseCandidates db1 pool (cfgMaxJobs (stConfig s))"
    note sel = leaseCandidates_selectable [OF rec(3) now cfg leased(1)]
    have "c \<in> set ?cs" using fair.select_member [OF sel(1) leased(2)] .
    then obtain r1 where r1: "rowOf db1 (fcJobID c) = Some r1" "rwState r1 = StateQueued" "rwPool r1 = pool"
      using sel(3) by blast
    have l: "leaseIDPattern l" using randomID_pattern [OF assms(3) leased(3)] by (simp add: pattern_defs)
    have h: "holderPattern holder" "now \<le> now + ttl" using req by (auto simp: leaseRequestOk_def limit_defs)
    from leaseTx_ok [OF rec(3) l h leased(4)] r1(1)
    have row: "rowOf db2 (fcJobID c) = Some (leaseRow l holder (now + ttl) now r1)" and q: "queueOk now db2"
      and le: "lease' = \<lparr>lsJob = rowJob (leaseRow l holder (now + ttl) now r1), lsID = l, lsFence = nat (rwFence r1 + 1),
             lsAttempt = rwAttempt r1 + 1, lsExpires = now + ttl\<rparr>"
      by auto
    have eq: "lease = lease'" "s' = s\<lparr>stDB := Some db2, stFair := fst (Select (stFair s) now ?cs)\<rparr>"
      using leased(5) assms(5) by simp_all
    obtain r where r: "rowOf db (fcJobID c) = Some r" "rowLe r r1"
      using evolves_rowOf [OF rec(2), of "fcJobID c"] r1(1) by (auto simp: option_rel_Some2)
    have f: "0 \<le> rwFence r1" using tablesOk_row [OF rec(3) r1(1)] validateStoredJob_attempt [of r1] by (simp add: rowOk_def)
    have id: "jID (lsJob lease) = fcJobID c" using le eq rowOf_Some [OF r1(1)] by simp
    have "rwState r = StateLeased \<longrightarrow> expiredLease now r"
      using keep r(1) r1(1,2) by force
    moreover have "readyDeps db2 (fcJobID c)"
      using q tablesOk_row [OF q row] by (auto simp: tablesOk_def startedState_def)
    moreover have fence: "rwFence r \<le> rwFence r1" "rwCreated r = rwCreated r1" using r(2) by (simp_all add: rowLe_def identity_def)
    moreover have "rwFence r0 < int (lsFence lease)"
      if "queueReach (n0, s0)" "queueStep\<^sup>*\<^sup>* (n0, s0) (n, s)" "stDB s0 = Some db0"
        "rowOf db0 (fcJobID c) = Some r0" "rwCreated r0 = jCreated (lsJob lease)" for n0 s0 db0 r0
    proof -
      have "rwCreated r0 = rwCreated r" using that(5) le eq fence(2) by (simp add: leaseRow_def rowJob_def)
      from fences_increase [OF that(1,2,3) assms(4) that(4) r(1) this] show ?thesis using fence(1) f le eq by simp
    qed
    ultimately show ?thesis
      unfolding id using r(1) row r1 f le eq rec(1) by (auto simp: leaseRow_def)
  qed (use assms(5) in simp_all)
qed

text \<open>
  C22: no queued job is refused. Whenever a pool has a queued job, a valid lease request on it
  succeeds, provided the random source delivers: neither the recovery of expired leases nor
  the fair scheduler can make the call fail.
\<close>

theorem LeaseNext_progress:
  assumes "queueReach (n, s)" and "n \<le> now" and "stDB s = Some db" and "leaseRequestOk pool holder ttl"
    and "length bytes = 16" and "r \<in> set (qdJobs db)" and "rwPool r = pool" and "rwState r = StateQueued"
  shows "\<exists>lease. snd (LeaseNext s pool holder ttl (Some bytes) now) = Inr lease"
proof -
  have inv: "storeOk n s" by (rule reach_storeOk [OF assms(1)])
  have ok: "queueOk n db" by (rule reach_queueOk [OF assms(1,3)])
  have body: "randomBody (Some bytes)" using assms(5) by (simp add: randomBody_def)
  obtain db1 where rec: "recoverExpired db now = Inr db1" "queueOk now db1"
    and keep: "\<forall>i r. rowOf db i = Some r \<and> \<not> expiredLease now r \<and> rwState r \<noteq> StateBlocked \<longrightarrow> rowOf db1 i = Some r"
    using recoverExpired_ok [OF ok assms(2)] by blast
  have cfg: "1 \<le> cfgMaxJobs (stConfig s)" "cfgMaxJobs (stConfig s) \<le> 4096"
    using inv validateConfig_bounds unfolding storeOk_def by blast+
  have now: "zeroTime < now" using wq.reach_inv [OF assms(1)] assms(2) by simp
  have "rowOf db (rwID r) = Some r" using ok assms(6) rowOf_row by (auto simp: tablesOk_def)
  then have r1: "r \<in> set (qdJobs db1)" using keep assms(8) rowOf_Some by (force simp: expiredLease_def)
  moreover have "\<not> rwCancel r" using rowOk_core(5) [of n r] ok assms(6,8) by (auto simp: tablesOk_def)
  ultimately have "filter (\<lambda>r. rwPool r = pool \<and> rwState r = StateQueued \<and> \<not> rwCancel r) (qdJobs db1) \<noteq> []"
    using assms(7,8) by (auto simp: filter_empty_conv)
  then have ne: "leaseCandidates db1 pool (cfgMaxJobs (stConfig s)) \<noteq> []"
    using cfg(1) by (simp add: leaseCandidates_def sort_key_empty)
  note sel = leaseCandidates_selectable [OF rec(2) now cfg ne]
  obtain c where c: "snd (Select (stFair s) now (leaseCandidates db1 pool (cfgMaxJobs (stConfig s)))) = Inr c"
    "c \<in> set (leaseCandidates db1 pool (cfgMaxJobs (stConfig s)))"
    by (rule fair.select_unit_oldest [OF storeOk_fairOk [OF inv] sel(1,2)])
  obtain q where q: "rowOf db1 (fcJobID c) = Some q" "rwState q = StateQueued" using sel(3) [OF c(2)] by blast
  have h: "holderPattern holder" "now \<le> now + ttl" using assms(4) by (auto simp: leaseRequestOk_def limit_defs)
  show ?thesis
    using assms(3,4) rec(1)
  proof (cases rule: LeaseNext_cases [where body = "Some bytes"])
    case (failed e)
    then obtain l e' where l: "randomID ''wl_'' (Some bytes) = Some l"
      and tx: "leaseTx db1 (fcJobID c) l holder (now + ttl) now = Inl e'"
      using c(1) by auto
    have "leaseIDPattern l" using randomID_pattern [OF body l] by (simp add: pattern_defs)
    then show ?thesis using leaseTx_succeeds [OF rec(2) q _ h] tx by fastforce
  qed (use ne in simp_all)
qed

subsection \<open>Completion, cancellation, recovery\<close>

text \<open>
  C23: a completion. On a reachable queue a well-formed completion of a job that has not ended is
  accepted exactly when the job is leased under the given identifier and fencing number, the
  lease has not expired and a requested cancellation is answered by a cancelled result. It
  then records the outcome; otherwise the queue is unchanged. A holder whose lease
  expired or was superseded cannot decide the job.
\<close>

theorem Complete_exact:
  assumes "queueReach (n, s)" and "n \<le> now0" and "now0 \<le> now" and "stDB s = Some db"
    and "jobIDPattern i" and "leaseIDPattern l" and "fence \<noteq> 0" and "validateResult result = None"
    and "rowOf db i = Some r" and "\<not> terminal (rwState r)"
  shows "if acceptsCompletion r l fence result now0
    then \<exists>db'. Complete s i l fence result now0 now = (s\<lparr>stDB := Some db'\<rparr>, Inr (rowJob (completeRow result now r))) \<and>
      rowOf db' i = Some (completeRow result now r) \<and> evolves db db'
    else \<exists>e. Complete s i l fence result now0 now = (s, Inl e)"
proof -
  have ok: "queueOk now db" using storeOk_db [OF reach_storeOk [OF assms(1)] assms(4)] assms(2,3) by simp
  note eq = Complete_eq [OF assms(4) ok assms(5-8), of now0]
  show ?thesis
  proof (cases "acceptsCompletion r l fence result now0")
    case True
    obtain db' where db': "propagate (updateJobs (heldLease i l fence) (completeRow result now) db) i now = Inr db'"
        "evolves db db'" "queueOk now db'" "rowOf db' i = Some (completeRow result now r)"
      using completeTx_ok [OF ok assms(9) True assms(8)] by blast
    then have "Complete s i l fence result now0 now = (s\<lparr>stDB := Some db'\<rparr>, Inr (rowJob (completeRow result now r)))"
      unfolding eq using assms(9,10) True getUnlocked_ok [OF db'(3,4)] by simp
    then show ?thesis using True db' by auto
  next
    case False
    then show ?thesis unfolding eq using assms(9,10) by simp
  qed
qed

text \<open>
  completion is idempotent. Repeating an accepted completion with the same lease and the
  same result, at any later time, returns the same job and changes nothing; any other result
  for that job is refused as a conflict.
\<close>

theorem Complete_idempotent:
  assumes "queueReach (n, s)" and "n \<le> now0" and "now0 \<le> now" and "now \<le> now'"
    and "Complete s i l fence result now0 now = (s', Inr job)" and "validateResult other = None"
  shows "Complete s' i l fence other now0' now' =
    (s', if other = result then Inr job else Inl TerminalCompletionConflict)"
proof -
  obtain db where db: "stDB s = Some db"
    using assms(5) by (cases "stDB s") (auto simp: Complete_def split: if_splits)
  have req: "jobIDPattern i" "leaseIDPattern l" "fence \<noteq> 0" "validateResult result = None"
    using assms(5) by (auto simp: Complete_def split: if_splits)
  have ok: "queueOk now db" using storeOk_db [OF reach_storeOk [OF assms(1)] db] assms(2,3) by simp
  note eq = Complete_eq [OF db ok req, of now0, unfolded assms(5)]
  then obtain r where r: "rowOf db i = Some r" by (auto split: option.splits)
  obtain db' r' where db': "stDB s' = Some db'" "queueOk now' db'" "rowOf db' i = Some r'" "job = rowJob r'"
    and r': "terminal (rwState r')" "nullString (rwLeaseID r') = l" "rwFence r' = int fence"
      "rwOutcome r' = Some (rsOutcome result)" "nullString (rwSummary r') = rsSummary result"
      "nullString (rwResultRef r') = rsResultRef result"
  proof (cases "terminal (rwState r)")
    case True
    then show thesis
      using that [of db r] eq r db tablesOk_mono [OF ok assms(4)] by (auto split: if_splits)
  next
    case False
    then have acc: "acceptsCompletion r l fence result now0" using eq r by (auto split: if_splits)
    obtain db1 where "propagate (updateJobs (heldLease i l fence) (completeRow result now) db) i now = Inr db1"
        "evolves db db1" "queueOk now db1" "rowOf db1 i = Some (completeRow result now r)"
      using completeTx_ok [OF ok r acc req(4)] by blast
    then show thesis
      using that [of db1 "completeRow result now r"] eq r False acc tablesOk_mono [OF _ assms(4), of "{}" db1]
        getUnlocked_ok [of now db1 i] validateResult_terminal [OF req(4)]
      by (auto simp: acceptsCompletion_def completeRow_def)
  qed
  have "other = result \<longleftrightarrow> rsOutcome result = rsOutcome other \<and> rsSummary result = rsSummary other \<and> rsResultRef result = rsResultRef other"
    by auto
  then show ?thesis
    using Complete_eq [OF db'(1,2) req(1-3) assms(6), of now0'] db'(3,4) r' by auto
qed

text \<open>
  a cancellation always takes effect. For a job that has not ended, a leased one is marked
  and keeps its lease, any other one ends as cancelled; the call returns the job as stored.
\<close>

theorem Cancel_effect:
  assumes "queueReach (n, s)" and "n \<le> now" and "stDB s = Some db" and "jobIDPattern i"
    and "rowOf db i = Some r" and "\<not> terminal (rwState r)"
  shows "\<exists>db' r'. Cancel s i now = (s\<lparr>stDB := Some db'\<rparr>, Inr (rowJob r')) \<and> rowOf db' i = Some r' \<and>
    rwCancel r' \<and> rwState r' = (if rwState r = StateLeased then StateLeased else StateCancelled) \<and>
    rwLeaseID r' = rwLeaseID r \<and> evolves db db'"
proof -
  have ok: "queueOk now db" using storeOk_db [OF reach_storeOk [OF assms(1)] assms(3,2)] .
  have job: "jobByID db i = Inr (Some (rowJob r))"
    using jobByID_ok [of db now i] ok assms(5) by (simp add: tablesOk_def)
  obtain db' where db': "cancelTx db (rowJob r) now = Inr db'" "evolves db db'" "queueOk now db'"
    and row: "rowOf db' i = Some (if rwState r = StateLeased
      then r\<lparr>rwCancel := True, rwReason := ReasonCancelRequested, rwUpdated := now\<rparr> else cancelRow now r)"
    using cancelTx_ok [OF ok assms(5,6)] by blast
  show ?thesis
    using db' row job assms(3,4,6) getUnlocked_ok [OF db'(3) row]
    by (auto simp: Cancel_def cancelRow_def split: if_splits)
qed

text \<open>
  C24: recovery always succeeds and is complete: afterwards no lease of the queue has expired,
  every unexpired lease is untouched, and a job whose lease expired has been requeued,
  or has ended as cancelled when its cancellation was requested, or as failed when it had used
  up its lease attempts.
\<close>

theorem RecoverExpired_complete:
  assumes "queueReach (n, s)" and "n \<le> now" and "stDB s = Some db"
  shows "\<exists>db'. RecoverExpired s now = (s\<lparr>stDB := Some db'\<rparr>, Inr ()) \<and>
    (\<forall>r \<in> set (qdJobs db'). \<not> expiredLease now r) \<and>
    (\<forall>r \<in> set (qdJobs db). rwState r = StateLeased \<and> \<not> expiredLease now r \<longrightarrow> r \<in> set (qdJobs db')) \<and>
    (\<forall>r \<in> set (qdJobs db). expiredLease now r \<longrightarrow>
       (\<exists>r' \<in> set (qdJobs db'). rwID r' = rwID r \<and> rwLeaseID r' = None \<and>
          rwState r' = (if rwCancel r then StateCancelled
                        else if rwAttempt r < MaxLeaseAttempts then StateQueued else StateFailed)))"
proof -
  have ok: "queueOk n db" by (rule reach_queueOk [OF assms(1,3)])
  obtain db' where db': "recoverExpired db now = Inr db'" "queueOk now db'"
    and left: "\<forall>i r. rowOf db' i = Some r \<and> rwState r = StateLeased \<longrightarrow> rowOf db i = Some r \<and> \<not> expiredLease now r"
    and keep: "\<forall>i r. rowOf db i = Some r \<and> \<not> expiredLease now r \<and> rwState r \<noteq> StateBlocked \<longrightarrow> rowOf db' i = Some r"
    and over: "\<forall>i r. rowOf db i = Some r \<and> expiredLease now r \<longrightarrow>
       rowOf db' i = Some (recoverRow (recoveredState (rwCancel r) (rwAttempt r)) now r)"
    using recoverExpired_ok [OF ok assms(2)] by blast
  have un: "uniqueRows db" "uniqueRows db'" using ok db'(2) by (simp_all add: tablesOk_def)
  have "\<not> expiredLease now r" if "r \<in> set (qdJobs db')" for r
    using left rowOf_row [OF un(2) that] by (auto simp: expiredLease_def)
  moreover have "r \<in> set (qdJobs db')" if "r \<in> set (qdJobs db)" "rwState r = StateLeased" "\<not> expiredLease now r" for r
    using keep rowOf_row [OF un(1) that(1)] that(2,3) rowOf_Some by (metis State.distinct(3))
  moreover have "\<exists>r' \<in> set (qdJobs db'). rwID r' = rwID r \<and> rwLeaseID r' = None \<and>
      rwState r' = (if rwCancel r then StateCancelled else if rwAttempt r < MaxLeaseAttempts then StateQueued else StateFailed)"
    if "r \<in> set (qdJobs db)" "expiredLease now r" for r
  proof (rule bexI)
    show "recoverRow (recoveredState (rwCancel r) (rwAttempt r)) now r \<in> set (qdJobs db')"
      using over rowOf_row [OF un(1) that(1)] that(2) rowOf_Some by blast
  qed (auto simp: recoverRow_def recoveredState_def split: prod.splits)
  moreover have "RecoverExpired s now = (s\<lparr>stDB := Some db'\<rparr>, Inr ())"
    using db'(1) assms(3) by (simp add: RecoverExpired_def)
  ultimately show ?thesis by blast
qed

subsection \<open>An example run\<close>

definition exampleConfig :: Config where
  "exampleConfig = \<lparr>cfgRoot = ''/srv/queue'', cfgControllerID = ''controller'', cfgWriters = 1, cfgMaxJobs = 8,
     cfgMaxJobsPerWorkspace = 4\<rparr>"

definition exampleSpec :: "string \<Rightarrow> string list \<Rightarrow> Spec" where
  "exampleSpec key ds = \<lparr>spIdempotencyKey = key, spWorkspace = ''alpha'', spPool = ''pool'', spProfile = ''default'',
     spPayloadHash = ''sha256:'' @ replicate 64 CHR ''a'', spDependencies = ds\<rparr>"

definition exampleBytes :: "byte \<Rightarrow> byte list option" where
  "exampleBytes b = Some (replicate 16 b)"

definition jobA :: string where "jobA = ''wj_'' @ concat (replicate 16 ''01'')"
definition jobB :: string where "jobB = ''wj_'' @ concat (replicate 16 ''02'')"
definition leaseA :: string where "leaseA = ''wl_'' @ concat (replicate 16 ''03'')"

definition exampleResult :: Result where
  "exampleResult = \<lparr>rsOutcome = StateSucceeded, rsSummary = ''done'', rsResultRef = []\<rparr>"

definition store0 :: "queueDB Store" where
  "store0 = projr (OpenFresh exampleConfig)"
definition store1 :: "queueDB Store" where
  "store1 = fst (Enqueue store0 (exampleSpec ''job-key-a'' []) (exampleBytes 1) 1000)"
definition store2 :: "queueDB Store" where
  "store2 = fst (Enqueue store1 (exampleSpec ''job-key-b'' [jobA]) (exampleBytes 2) 2000)"
definition store3 :: "queueDB Store" where
  "store3 = fst (LeaseNext store2 ''pool'' ''worker-one'' MinLeaseTTL (exampleBytes 3) 3000)"
definition store4 :: "queueDB Store" where
  "store4 = fst (Complete store3 jobA leaseA 1 exampleResult 4000 4000)"

definition store5 :: "queueDB Store" where
  "store5 = fst (Cancel store4 jobB 5000)"

text \<open>The tables of these stores, with the rows as the operations write them.\<close>

definition rowA :: jobRow where
  "rowA = newRow (exampleSpec ''job-key-a'' []) jobA StateQueued ReasonNone 1000"
definition rowB :: jobRow where
  "rowB = newRow (exampleSpec ''job-key-b'' [jobA]) jobB StateBlocked ReasonDependencyPending 2000"
definition rowA3 :: jobRow where
  "rowA3 = leaseRow leaseA ''worker-one'' (3000 + MinLeaseTTL) 3000 rowA"

definition db2 :: queueDB where
  "db2 = \<lparr>qdJobs = [rowA, rowB], qdDeps = [(jobB, jobA)]\<rparr>"
definition db3 :: queueDB where
  "db3 = \<lparr>qdJobs = [rowA3, rowB], qdDeps = [(jobB, jobA)]\<rparr>"
definition db4 :: queueDB where
  "db4 = \<lparr>qdJobs = [completeRow exampleResult 4000 rowA3, settle StateQueued ReasonNone 4000 rowB],
          qdDeps = [(jobB, jobA)]\<rparr>"
definition db5 :: queueDB where
  "db5 = \<lparr>qdJobs = [completeRow exampleResult 4000 rowA3, cancelRow 5000 (settle StateQueued ReasonNone 4000 rowB)],
          qdDeps = [(jobB, jobA)]\<rparr>"

lemma store2_db: "stDB store2 = Some db2" by code_simp
lemma store3_db: "stDB store3 = Some db3" by code_simp
lemma store4_db: "stDB store4 = Some db4" by code_simp

lemma exampleBytes_ok: "randomBody (exampleBytes b)"
  by (simp add: randomBody_def exampleBytes_def)

lemma example_reach:
  "queueReach (1000, store0)" "queueReach (1000, store1)" "queueReach (2000, store2)" "queueReach (3000, store3)"
  "queueReach (4000, store4)" "queueReach (5000, store5)"
proof -
  have "\<not> isl (OpenFresh exampleConfig)" by code_simp
  then have "OpenFresh exampleConfig = Inr store0" by (simp add: store0_def)
  then have "freshStore (1000, store0)" by (auto simp: freshStore_def zeroTime_def)
  then show 0: "queueReach (1000, store0)" by (rule reach.start)
  show 1: "queueReach (1000, store1)"
    unfolding store1_def by (rule reach_next [OF 0 queueStep.enqueue]) (simp_all add: exampleBytes_ok)
  show 2: "queueReach (2000, store2)"
    unfolding store2_def by (rule reach_next [OF 1 queueStep.enqueue]) (simp_all add: exampleBytes_ok)
  show 3: "queueReach (3000, store3)"
    unfolding store3_def by (rule reach_next [OF 2 queueStep.lease]) (simp_all add: exampleBytes_ok)
  show 4: "queueReach (4000, store4)"
    unfolding store4_def by (rule reach_next [OF 3 queueStep.complete]) simp_all
  show "queueReach (5000, store5)"
    unfolding store5_def by (rule reach_next [OF 4 queueStep.cancel]) simp
qed

lemmas example_db_defs = db2_def db3_def db4_def db5_def rowA3_def

lemma example_rows:
  "rwState rowA = StateQueued" "rwState rowB = StateBlocked" "rwState rowA3 = StateLeased"
  "rwID rowA = jobA" "rwID rowA3 = jobA" "rwID rowB = jobB" "rwPool rowA = ''pool''" "jobIDPattern jobA" "jobIDPattern jobB"
  "jobA \<noteq> jobB"
  by code_simp+

theorem queue_rows_valid_witness:
  "queueReach (3000, store3) \<and> stDB store3 = Some db3 \<and> length (qdJobs db3) = 2 \<and>
   list_all (\<lambda>r. scanJob r = Inr (rowJob r) \<and> rwFence r = rwAttempt r) (qdJobs db3)"
  using queue_rows_valid [OF example_reach(4) store3_db] example_reach(4) store3_db by (simp add: db3_def)

theorem queue_dependencies_first_witness:
  "\<exists>x \<in> set (qdJobs db4). rwID x = jobA \<and> rwState x = StateSucceeded"
  by (rule queue_dependencies_first [OF example_reach(5) store4_db,
        of "settle StateQueued ReasonNone 4000 rowB"]) (simp_all add: db4_def example_rows)

theorem queue_blocked_waits_witness:
  "\<exists>x \<in> set (qdJobs db2). (jobB, rwID x) \<in> set (qdDeps db2) \<and> activeState (rwState x)"
  using queue_blocked_waits [OF example_reach(3) store2_db, of rowB] by (simp add: db2_def example_rows)


lemma example_rowOf:
  "rowOf db2 jobA = Some rowA" "rowOf db3 jobA = Some rowA3" "rowOf db4 jobB = Some (settle StateQueued ReasonNone 4000 rowB)"
  by (simp_all add: rowOf_def db2_def db3_def db4_def example_rows)

theorem Enqueue_idempotent_witness:
  "Enqueue store2 (exampleSpec ''job-key-b'' [jobA]) (exampleBytes 9) 2500 = (store2, Inr (rowJob rowB, False))"
proof -
  have "snd (Enqueue store1 (exampleSpec ''job-key-b'' [jobA]) (exampleBytes 2) 2000) = Inr (rowJob rowB, True)"
    by code_simp
  then have "Enqueue store1 (exampleSpec ''job-key-b'' [jobA]) (exampleBytes 2) 2000 = (store2, Inr (rowJob rowB, True))"
    by (simp add: store2_def prod_eq_iff)
  from Enqueue_idempotent [OF example_reach(2) _ _ exampleBytes_ok this, of 2500 "exampleBytes 9"] show ?thesis by simp
qed

definition exampleLease :: Lease where
  "exampleLease = \<lparr>lsJob = rowJob rowA3, lsID = leaseA, lsFence = 1, lsAttempt = 1, lsExpires = 3000 + MinLeaseTTL\<rparr>"

lemma example_lease:
  "LeaseNext store2 ''pool'' ''worker-one'' MinLeaseTTL (exampleBytes 3) 3000 = (store3, Inr exampleLease)"
proof -
  have "snd (LeaseNext store2 ''pool'' ''worker-one'' MinLeaseTTL (exampleBytes 3) 3000) = Inr exampleLease" by code_simp
  then show ?thesis by (simp add: store3_def prod_eq_iff)
qed

theorem LeaseNext_grants_witness:
  "(\<exists>r1 db1. recoverExpired db2 3000 = Inr db1 \<and> rowOf db1 jobA = Some r1 \<and> rwState r1 = StateQueued) \<and>
   (\<exists>r'. rowOf db3 jobA = Some r' \<and> rwState r' = StateLeased \<and> rwLeaseID r' = Some leaseA \<and> rwFence r' = 1 \<and>
     readyDeps db3 jobA)"
  using LeaseNext_grants [OF example_reach(3) _ exampleBytes_ok store2_db example_lease] store3_db
  by (auto simp: exampleLease_def example_rows)

theorem LeaseNext_progress_witness:
  "\<exists>lease. snd (LeaseNext store2 ''pool'' ''worker-two'' MaxLeaseTTL (Some (replicate 16 7)) 2600) = Inr lease"
proof -
  have "leaseRequestOk ''pool'' ''worker-two'' MaxLeaseTTL" by code_simp
  from LeaseNext_progress [OF example_reach(3) _ store2_db this, of 2600 "replicate 16 7" rowA] show ?thesis
    by (simp add: db2_def example_rows)
qed

lemma example_completion:
  "leaseIDPattern leaseA" "validateResult exampleResult = None"
  by code_simp+

lemma example_accepts: "acceptsCompletion rowA3 leaseA 1 exampleResult 4000"
proof -
  have "rwState rowA3 = StateLeased" "rwLeaseID rowA3 = Some leaseA" "rwFence rowA3 = 1" "\<not> rwCancel rowA3"
    "rwLeaseUntil rowA3 = Some (3000 + MinLeaseTTL)" "4000 < 3000 + MinLeaseTTL"
    by code_simp+
  then show ?thesis by (simp add: acceptsCompletion_def)
qed

theorem Complete_exact_witness:
  "\<exists>db'. Complete store3 jobA leaseA 1 exampleResult 4000 4000 =
     (store3\<lparr>stDB := Some db'\<rparr>, Inr (rowJob (completeRow exampleResult 4000 rowA3))) \<and>
     rowOf db' jobA = Some (completeRow exampleResult 4000 rowA3)"
  using Complete_exact [OF example_reach(4) _ _ store3_db example_rows(8) example_completion(1) _ example_completion(2)
      example_rowOf(2), of 4000 4000 1] example_accepts example_rows(3)
  by auto

theorem Complete_idempotent_witness:
  "Complete store4 jobA leaseA 1 exampleResult 4500 4500 = (store4, Inr (rowJob (completeRow exampleResult 4000 rowA3)))"
proof -
  have "snd (Complete store3 jobA leaseA 1 exampleResult 4000 4000) = Inr (rowJob (completeRow exampleResult 4000 rowA3))"
    by code_simp
  then have "Complete store3 jobA leaseA 1 exampleResult 4000 4000 =
      (store4, Inr (rowJob (completeRow exampleResult 4000 rowA3)))"
    by (simp add: store4_def prod_eq_iff)
  from Complete_idempotent [OF example_reach(4) _ _ _ this example_completion(2), of 4500 4500] show ?thesis by simp
qed

theorem Cancel_effect_witness:
  "\<exists>db' r'. Cancel store4 jobB 5000 = (store4\<lparr>stDB := Some db'\<rparr>, Inr (rowJob r')) \<and> rwState r' = StateCancelled"
  using Cancel_effect [OF example_reach(5) _ store4_db example_rows(9) example_rowOf(3), of 5000] by auto

theorem RecoverExpired_complete_witness:
  "\<exists>db'. RecoverExpired store3 (3000 + MinLeaseTTL) = (store3\<lparr>stDB := Some db'\<rparr>, Inr ()) \<and>
     (\<exists>r' \<in> set (qdJobs db'). rwID r' = jobA \<and> rwState r' = StateQueued)"
proof -
  have "expiredLease (3000 + MinLeaseTTL) rowA3" "\<not> rwCancel rowA3" "rwAttempt rowA3 < MaxLeaseAttempts" by code_simp+
  then show ?thesis
    using RecoverExpired_complete [OF example_reach(4) _ store3_db, of "3000 + MinLeaseTTL"]
    by (fastforce simp: db3_def example_rows limit_defs)
qed

end
