(* ===== verification/Wq_Admission.thy ===== *)
theory Wq_Admission
  imports Wq_Fairness
begin

text \<open>
  Admission control of the work queue (\<open>internal/workqueue/admission.go\<close>): resource
  vectors, the registry of pool profiles and the decision whether a request fits. The
  components of a vector are 64 bit integers whose sums and differences wrap around;
  \<open>Admit\<close> is shown never to wrap.
\<close>

subsection \<open>Integers\<close>

definition int64 :: "int \<Rightarrow> int" where
  "int64 x = (x + 2 ^ 63) mod 2 ^ 64 - 2 ^ 63"

lemma int64_id: "- (2 ^ 63) \<le> x \<Longrightarrow> x < 2 ^ 63 \<Longrightarrow> int64 x = x"
  by (simp add: int64_def)

subsection \<open>Resource vectors\<close>

record ResourceVector =
  rvCPUMillis :: int
  rvMemoryMiB :: int
  rvIOWeight :: int
  rvPIDs :: int
  rvSlots :: int

definition zeroVector :: ResourceVector where
  "zeroVector = \<lparr>rvCPUMillis = 0, rvMemoryMiB = 0, rvIOWeight = 0, rvPIDs = 0, rvSlots = 0\<rparr>"

definition vectorValues :: "ResourceVector \<Rightarrow> int list" where
  "vectorValues v = [rvCPUMillis v, rvMemoryMiB v, rvIOWeight v, rvPIDs v, rvSlots v]"

definition validateResourceVector :: "ResourceVector \<Rightarrow> bool \<Rightarrow> string option" where
  "validateResourceVector v requirePositive =
     (if list_ex (\<lambda>x. x < 0 \<or> x > maxResourceValue) (vectorValues v) then Some ''workqueue: resource vector is invalid''
      else if requirePositive \<and> list_ex (\<lambda>x. x = 0) (vectorValues v) then Some ''workqueue: resource vector is incomplete''
      else None)"

definition fits :: "ResourceVector \<Rightarrow> ResourceVector \<Rightarrow> bool" where
  "fits v limit \<longleftrightarrow>
     rvCPUMillis v \<le> rvCPUMillis limit \<and> rvMemoryMiB v \<le> rvMemoryMiB limit \<and> rvIOWeight v \<le> rvIOWeight limit \<and>
     rvPIDs v \<le> rvPIDs limit \<and> rvSlots v \<le> rvSlots limit"

definition add_vector :: "ResourceVector \<Rightarrow> ResourceVector \<Rightarrow> ResourceVector option" where
  "add_vector v w =
     (let result = \<lparr>rvCPUMillis = int64 (rvCPUMillis v + rvCPUMillis w), rvMemoryMiB = int64 (rvMemoryMiB v + rvMemoryMiB w),
                    rvIOWeight = int64 (rvIOWeight v + rvIOWeight w), rvPIDs = int64 (rvPIDs v + rvPIDs w),
                    rvSlots = int64 (rvSlots v + rvSlots w)\<rparr>
      in if rvCPUMillis result < rvCPUMillis v \<or> rvMemoryMiB result < rvMemoryMiB v \<or> rvIOWeight result < rvIOWeight v \<or>
            rvPIDs result < rvPIDs v \<or> rvSlots result < rvSlots v \<or> validateResourceVector result False \<noteq> None
         then None else Some result)"

definition subtract_vector :: "ResourceVector \<Rightarrow> ResourceVector \<Rightarrow> ResourceVector" where
  "subtract_vector v w =
     \<lparr>rvCPUMillis = int64 (rvCPUMillis v - rvCPUMillis w), rvMemoryMiB = int64 (rvMemoryMiB v - rvMemoryMiB w),
      rvIOWeight = int64 (rvIOWeight v - rvIOWeight w), rvPIDs = int64 (rvPIDs v - rvPIDs w),
      rvSlots = int64 (rvSlots v - rvSlots w)\<rparr>"

text \<open>
  A floating point number is not a number, infinite, or a finite value given as the
  quotient of two integers. The map of the input is the list of its entries in the order
  of the iteration.
\<close>

datatype float64 = NaN | Infinite | Quotient int nat

definition wholeValue :: "float64 \<Rightarrow> int option" where
  "wholeValue raw =
     (case raw of
        NaN \<Rightarrow> None
      | Infinite \<Rightarrow> None
      | Quotient a b \<Rightarrow>
          if a < 0 \<or> a > maxResourceValue * int b \<or> a mod int b \<noteq> 0 then None else Some (a div int b))"

fun parseResources :: "ResourceVector \<Rightarrow> (string \<times> float64) list \<Rightarrow> string + ResourceVector" where
  "parseResources v [] = Inr v"
| "parseResources v ((name, raw) # entries) =
     (case wholeValue raw of
        None \<Rightarrow> Inl ''workqueue: resource value is invalid''
      | Some value \<Rightarrow>
         if name = ''cpu_millis'' then parseResources (v\<lparr>rvCPUMillis := value\<rparr>) entries
         else if name = ''memory_mib'' then parseResources (v\<lparr>rvMemoryMiB := value\<rparr>) entries
         else if name = ''io_weight'' then parseResources (v\<lparr>rvIOWeight := value\<rparr>) entries
         else if name = ''pids'' then parseResources (v\<lparr>rvPIDs := value\<rparr>) entries
         else if name = ''slots'' then parseResources (v\<lparr>rvSlots := value\<rparr>) entries
         else Inl ''workqueue: resource dimension is unknown'')"

definition ParseResourceVector :: "(string \<times> float64) list \<Rightarrow> string + ResourceVector" where
  "ParseResourceVector input =
     (case parseResources zeroVector input of
        Inl e \<Rightarrow> Inl e
      | Inr v \<Rightarrow> (case validateResourceVector v False of Some e \<Rightarrow> Inl e | None \<Rightarrow> Inr v))"

subsection \<open>The registry\<close>

record PoolProfile =
  pfPool :: string
  pfProfile :: string
  pfBudget :: ResourceVector
  pfMaximum :: ResourceVector

datatype AdmissionReason = AdmissionNone | AdmissionAllowed | AdmissionInsufficientResources | AdmissionProfileMaximumExceeded

record AdmissionDecision =
  adAllowed :: bool
  adReason :: AdmissionReason
  adRemaining :: ResourceVector

record PoolRegistry =
  prProfiles :: "string \<rightharpoonup> PoolProfile"

definition profileKey :: "string \<Rightarrow> string \<Rightarrow> string" where
  "profileKey pool profile = pool @ [CHR 0x00] @ profile"

definition profileValid :: "PoolProfile \<Rightarrow> bool" where
  "profileValid item \<longleftrightarrow>
     poolPattern (pfPool item) \<and> profilePattern (pfProfile item) \<and> validateResourceVector (pfBudget item) True = None \<and>
     validateResourceVector (pfMaximum item) True = None \<and> fits (pfMaximum item) (pfBudget item)"

fun registerProfiles :: "(string \<rightharpoonup> PoolProfile) \<Rightarrow> PoolProfile list \<Rightarrow> string + (string \<rightharpoonup> PoolProfile)" where
  "registerProfiles m [] = Inr m"
| "registerProfiles m (item # items) =
     (if \<not> profileValid item then Inl ''workqueue: pool profile is invalid''
      else if m (profileKey (pfPool item) (pfProfile item)) \<noteq> None then Inl ''workqueue: duplicate pool profile''
      else registerProfiles (m(profileKey (pfPool item) (pfProfile item) \<mapsto> item)) items)"

definition NewPoolRegistry :: "PoolProfile list \<Rightarrow> string + PoolRegistry" where
  "NewPoolRegistry profiles =
     (if length profiles = 0 \<or> length profiles > 256 then Inl ''workqueue: pool registry is invalid''
      else
        case registerProfiles Map.empty profiles of
          Inl e \<Rightarrow> Inl e
        | Inr m \<Rightarrow> Inr \<lparr>prProfiles = m\<rparr>)"

text \<open>A nil registry is \<^const>\<open>None\<close>.\<close>

definition Admit ::
  "PoolRegistry option \<Rightarrow> string \<Rightarrow> string \<Rightarrow> ResourceVector \<Rightarrow> ResourceVector \<Rightarrow> string + AdmissionDecision" where
  "Admit r pool profile active requested =
     (if r = None \<or> \<not> poolPattern pool \<or> \<not> profilePattern profile \<or> validateResourceVector active False \<noteq> None \<or>
         validateResourceVector requested True \<noteq> None
      then Inl ''workqueue: admission request is invalid''
      else
        case prProfiles (the r) (profileKey pool profile) of
          None \<Rightarrow> Inl ''workqueue: pool profile not found''
        | Some item \<Rightarrow>
           if \<not> fits requested (pfMaximum item) then
             Inr \<lparr>adAllowed = False, adReason = AdmissionProfileMaximumExceeded, adRemaining = zeroVector\<rparr>
           else
             case add_vector active requested of
               None \<Rightarrow> Inr \<lparr>adAllowed = False, adReason = AdmissionInsufficientResources, adRemaining = zeroVector\<rparr>
             | Some used \<Rightarrow>
                if \<not> fits used (pfBudget item) then
                  Inr \<lparr>adAllowed = False, adReason = AdmissionInsufficientResources, adRemaining = zeroVector\<rparr>
                else Inr \<lparr>adAllowed = True, adReason = AdmissionAllowed, adRemaining = subtract_vector (pfBudget item) used\<rparr>)"

subsection \<open>Bounds\<close>

definition sumValues :: "ResourceVector \<Rightarrow> ResourceVector \<Rightarrow> int list" where
  "sumValues v w = map2 (+) (vectorValues v) (vectorValues w)"

lemma fits_values: "fits v w \<longleftrightarrow> list_all2 (\<le>) (vectorValues v) (vectorValues w)"
  by (simp add: fits_def vectorValues_def)

lemma validate_bounds:
  "validateResourceVector v b = None \<Longrightarrow> \<forall>x \<in> set (vectorValues v). 0 \<le> x \<and> x \<le> maxResourceValue"
  by (auto simp: validateResourceVector_def list_ex_iff split: if_splits)

lemma validate_iff:
  "validateResourceVector v False = None \<longleftrightarrow> (\<forall>x \<in> set (vectorValues v). 0 \<le> x \<and> x \<le> maxResourceValue)"
  unfolding validateResourceVector_def list_ex_iff by simp (meson linorder_not_less)

lemma int64_sum:
  "0 \<le> x \<Longrightarrow> x \<le> maxResourceValue \<Longrightarrow> 0 \<le> y \<Longrightarrow> y \<le> maxResourceValue \<Longrightarrow> int64 (x + y) = x + y"
  "0 \<le> x \<Longrightarrow> x \<le> maxResourceValue \<Longrightarrow> 0 \<le> y \<Longrightarrow> y \<le> maxResourceValue \<Longrightarrow> int64 (x - y) = x - y"
  by (rule int64_id; simp add: maxResourceValue_def)+

lemma add_vector_exact:
  assumes "validateResourceVector v False = None" and "validateResourceVector w b = None"
  shows "case add_vector v w of
      None \<Rightarrow> \<not> list_all (\<lambda>x. x \<le> maxResourceValue) (sumValues v w)
    | Some u \<Rightarrow> vectorValues u = sumValues v w \<and> validateResourceVector u False = None"
proof -
  define u where "u = \<lparr>rvCPUMillis = rvCPUMillis v + rvCPUMillis w, rvMemoryMiB = rvMemoryMiB v + rvMemoryMiB w,
      rvIOWeight = rvIOWeight v + rvIOWeight w, rvPIDs = rvPIDs v + rvPIDs w, rvSlots = rvSlots v + rvSlots w\<rparr>"
  have v: "\<forall>x \<in> set (vectorValues v). 0 \<le> x \<and> x \<le> maxResourceValue" by (rule validate_bounds [OF assms(1)])
  have w: "\<forall>x \<in> set (vectorValues w). 0 \<le> x \<and> x \<le> maxResourceValue" by (rule validate_bounds [OF assms(2)])
  have u: "vectorValues u = sumValues v w" by (simp add: u_def vectorValues_def sumValues_def)
  have "add_vector v w = (if validateResourceVector u False \<noteq> None then None else Some u)"
    using v w by (simp add: add_vector_def vectorValues_def int64_sum u_def)
  moreover have "validateResourceVector u False = None \<longleftrightarrow> list_all (\<lambda>x. x \<le> maxResourceValue) (sumValues v w)"
    using v w unfolding validate_iff u by (simp add: sumValues_def vectorValues_def)
  ultimately show ?thesis using u by simp
qed

lemma subtract_vector_exact:
  assumes "validateResourceVector v False = None" and "validateResourceVector w False = None"
  shows "vectorValues (subtract_vector v w) = map2 (-) (vectorValues v) (vectorValues w)"
  using validate_bounds [OF assms(1)] validate_bounds [OF assms(2)]
  by (simp add: subtract_vector_def vectorValues_def int64_sum)

lemma pattern_no_zero: "poolPattern s \<Longrightarrow> CHR 0x00 \<notin> set s"
proof -
  assume "poolPattern s"
  then have "list_all plain s"
    unfolding poolPattern_def by (rule headPattern_plain) (auto simp: aliasChar_def, simp_all add: plain_def)
  then show ?thesis by (auto simp: list_all_iff plain_def)
qed

lemma profileKey_inj:
  assumes "poolPattern a" and "poolPattern b" and "profileKey a x = profileKey b y"
  shows "a = b \<and> x = y"
  using assms(3) pattern_no_zero [OF assms(1)] pattern_no_zero [OF assms(2)]
  by (auto simp: profileKey_def append_eq_append_conv2 Cons_eq_append_conv append_eq_Cons_conv)

lemma registerProfiles_items:
  assumes "registerProfiles m items = Inr m'" and "\<forall>k i. m k = Some i \<longrightarrow> k = profileKey (pfPool i) (pfProfile i) \<and> profileValid i \<and> i \<in> S"
  shows "\<forall>k i. m' k = Some i \<longrightarrow> k = profileKey (pfPool i) (pfProfile i) \<and> profileValid i \<and> i \<in> S \<union> set items"
  using assms
proof (induction items arbitrary: m S)
  case (Cons item items)
  from Cons.prems(1) have reg: "registerProfiles (m(profileKey (pfPool item) (pfProfile item) \<mapsto> item)) items = Inr m'"
    and valid: "profileValid item"
    by (simp_all split: if_splits)
  have "k = profileKey (pfPool i) (pfProfile i) \<and> profileValid i \<and> i \<in> insert item S"
    if "(m(profileKey (pfPool item) (pfProfile item) \<mapsto> item)) k = Some i" for k i
  proof (cases "k = profileKey (pfPool item) (pfProfile item)")
    case True
    then show ?thesis using that valid by simp
  next
    case False
    then have "m k = Some i" using that by simp
    then show ?thesis using Cons.prems(2) by blast
  qed
  then have "\<forall>k i. m' k = Some i \<longrightarrow> k = profileKey (pfPool i) (pfProfile i) \<and> profileValid i \<and> i \<in> insert item S \<union> set items"
    by (intro Cons.IH [OF reg]) blast
  then show ?case unfolding list.set by blast
next
  case Nil
  from Nil.prems(1) have "m' = m" by simp
  then show ?case using Nil.prems(2) by blast
qed

lemma registry_lookup:
  assumes "NewPoolRegistry profiles = Inr r" and "prProfiles r (profileKey pool profile) = Some item" and "poolPattern pool"
  shows "item \<in> set profiles \<and> profileValid item \<and> pfPool item = pool \<and> pfProfile item = profile"
proof -
  obtain m where "registerProfiles Map.empty profiles = Inr m" "r = \<lparr>prProfiles = m\<rparr>"
    using assms(1) by (auto simp: NewPoolRegistry_def split: if_splits sum.splits)
  with registerProfiles_items [of Map.empty profiles m "{}"] assms(2)
  have "profileKey pool profile = profileKey (pfPool item) (pfProfile item)" "profileValid item" "item \<in> set profiles"
    by (metis PoolRegistry.select_convs(1) Un_empty_left empty_iff option.distinct(1))+
  then show ?thesis using profileKey_inj [OF assms(3), of "pfPool item"] by (auto simp: profileValid_def)
qed

text \<open>
  C40: admission is exact and never wraps. A decision is made against the one profile
  registered under the requested pool and profile names. The request is allowed exactly
  if it is within the profile's maximum and, added to the active resources without any
  wrap-around, within the budget in every component; then the remaining resources are
  the exact differences, none of them negative.
\<close>

theorem Admit_exact:
  assumes "NewPoolRegistry profiles = Inr r" and "Admit (Some r) pool profile active requested = Inr d"
  shows "\<exists>item \<in> set profiles. pfPool item = pool \<and> pfProfile item = profile \<and>
    (adAllowed d \<longleftrightarrow> list_all2 (\<le>) (vectorValues requested) (vectorValues (pfMaximum item)) \<and>
                   list_all2 (\<le>) (sumValues active requested) (vectorValues (pfBudget item))) \<and>
    (adAllowed d \<longrightarrow>
       vectorValues (adRemaining d) = map2 (-) (vectorValues (pfBudget item)) (sumValues active requested) \<and>
       list_all (\<lambda>x. 0 \<le> x) (vectorValues (adRemaining d)))"
proof -
  obtain item where item: "prProfiles r (profileKey pool profile) = Some item" and pool: "poolPattern pool"
    and a: "validateResourceVector active False = None" and q: "validateResourceVector requested True = None"
    using assms(2) by (auto simp: Admit_def split: if_splits option.splits)
  note look = registry_lookup [OF assms(1) item pool]
  then have "validateResourceVector (pfBudget item) True = None" by (simp add: profileValid_def)
  then have budget: "validateResourceVector (pfBudget item) False = None" unfolding validate_iff by (rule validate_bounds)
  note add = add_vector_exact [OF a q]
  have small: "list_all (\<lambda>x. x \<le> maxResourceValue) (sumValues active requested)"
    if "list_all2 (\<le>) (sumValues active requested) (vectorValues (pfBudget item))"
    using that validate_bounds [OF budget] by (simp add: list_all2_conv_all_nth list_all_length) (metis nth_mem order_trans)
  show ?thesis
  proof (intro bexI [of _ item] conjI)
    show "adAllowed d \<longleftrightarrow> list_all2 (\<le>) (vectorValues requested) (vectorValues (pfMaximum item)) \<and>
        list_all2 (\<le>) (sumValues active requested) (vectorValues (pfBudget item))"
      using assms(2) item add small by (auto simp: Admit_def fits_values split: if_splits option.splits)
    show "adAllowed d \<longrightarrow>
        vectorValues (adRemaining d) = map2 (-) (vectorValues (pfBudget item)) (sumValues active requested) \<and>
        list_all (\<lambda>x. 0 \<le> x) (vectorValues (adRemaining d))"
    proof
      assume "adAllowed d"
      then obtain u where u: "add_vector active requested = Some u" "fits u (pfBudget item)" "adRemaining d = subtract_vector (pfBudget item) u"
        using assms(2) item by (auto simp: Admit_def split: if_splits option.splits)
      have uv: "vectorValues u = sumValues active requested" "validateResourceVector u False = None" using add u(1) by simp_all
      note rem = subtract_vector_exact [OF budget uv(2), folded u(3)]
      have "list_all (\<lambda>x. 0 \<le> x) (map2 (-) (vectorValues (pfBudget item)) (vectorValues u))"
        using u(2) by (auto simp: fits_values list_all2_conv_all_nth list_all_length)
      then show "vectorValues (adRemaining d) = map2 (-) (vectorValues (pfBudget item)) (sumValues active requested) \<and>
        list_all (\<lambda>x. 0 \<le> x) (vectorValues (adRemaining d))" using rem uv(1) by simp
    qed
  qed (use look in simp_all)
qed

definition uniformVector :: "int \<Rightarrow> ResourceVector" where
  "uniformVector n = \<lparr>rvCPUMillis = n, rvMemoryMiB = n, rvIOWeight = n, rvPIDs = n, rvSlots = n\<rparr>"

definition exampleProfile :: PoolProfile where
  "exampleProfile = \<lparr>pfPool = ''default'', pfProfile = ''go'', pfBudget = uniformVector 1000000000, pfMaximum = uniformVector 600000000\<rparr>"

theorem Admit_exact_witness:
  "list_all2 (\<le>) (sumValues (uniformVector 400000000) (uniformVector 600000000)) (vectorValues (uniformVector 1000000000))"
proof -
  define r where "r = projr (NewPoolRegistry [exampleProfile])"
  have valid: "profileValid exampleProfile" by code_simp
  have r: "NewPoolRegistry [exampleProfile] = Inr r" by (simp add: r_def NewPoolRegistry_def valid)
  have "prProfiles r (profileKey ''default'' ''go'') = Some exampleProfile"
    by (simp add: r_def NewPoolRegistry_def valid) (simp add: exampleProfile_def)
  moreover have "poolPattern ''default''" "profilePattern ''go''" by code_simp+
  moreover have "validateResourceVector (uniformVector 400000000) False = None" "validateResourceVector (uniformVector 600000000) True = None"
    by code_simp+
  moreover have "add_vector (uniformVector 400000000) (uniformVector 600000000) = Some (uniformVector 1000000000)"
    "fits (uniformVector 600000000) (pfMaximum exampleProfile)" "fits (uniformVector 1000000000) (pfBudget exampleProfile)"
    by code_simp+
  ultimately obtain d where d: "Admit (Some r) ''default'' ''go'' (uniformVector 400000000) (uniformVector 600000000) = Inr d" "adAllowed d"
    by (simp add: Admit_def)
  show ?thesis using Admit_exact [OF r d(1)] d(2) by (auto simp: exampleProfile_def)
qed

end
