(* ===== verification/Go_Json.thy ===== *)
theory Go_Json
  imports Policy_Redact
begin

text \<open>
  Decimal output (\<open>strconv.FormatUint\<close>, \<open>strconv.Itoa\<close>) and the text \<open>json.Marshal\<close>
  produces: objects with their fields in the order of the struct, no white space, and
  strings with the escapes of the encoder (quotes, backslashes, control characters,
  the HTML characters, the two line separators, and the replacement character for a byte that is not
  UTF-8).
\<close>

subsection \<open>Decimal numbers\<close>

function formatNat :: "nat \<Rightarrow> string" where
  "formatNat n =
     (if n < 10 then [hexDigit n] else formatNat (n div 10) @ [hexDigit (n mod 10)])"
  by pat_completeness auto
termination
  by (relation "measure id") auto

declare formatNat.simps [simp del]

definition formatInt :: "int \<Rightarrow> string" where
  "formatInt i = (if i < 0 then ''-'' @ formatNat (nat (- i)) else formatNat (nat i))"

subsection \<open>JSON texts\<close>

datatype json =
    JNull
  | JBool bool
  | JInt int
  | JString string
  | JArray "json list"
  | JObject "(string \<times> json) list"

definition shortEscapes :: "(char \<times> string) list" where
  "shortEscapes =
     [(CHR 0x22, [CHR 0x5C, CHR 0x22]), (CHR 0x5C, [CHR 0x5C, CHR 0x5C]),
      (CHR 0x08, [CHR 0x5C, CHR ''b'']), (CHR 0x0C, [CHR 0x5C, CHR ''f'']),
      (CHR 0x0A, [CHR 0x5C, CHR ''n'']), (CHR 0x0D, [CHR 0x5C, CHR ''r'']),
      (CHR 0x09, [CHR 0x5C, CHR ''t''])]"

definition unicodeEscape :: "char \<Rightarrow> string" where
  "unicodeEscape c =
     CHR 0x5C # ''u00'' @ [hexDigit (of_char c div 16), hexDigit (of_char c mod 16)]"

definition escapeAscii :: "char \<Rightarrow> string" where
  "escapeAscii c =
     (case map_of shortEscapes c of
        Some e \<Rightarrow> e
      | None \<Rightarrow> if c < CHR 0x20 \<or> c \<in> {CHR ''<'', CHR ''>'', CHR ''&''} then unicodeEscape c else [c])"

definition replacementEscape :: string where
  "replacementEscape = CHR 0x5C # ''ufffd''"

definition separatorEscapes :: "(string \<times> string) list" where
  "separatorEscapes =
     [([CHR 0xE2, CHR 0x80, CHR 0xA8], CHR 0x5C # ''u2028''), ([CHR 0xE2, CHR 0x80, CHR 0xA9], CHR 0x5C # ''u2029'')]"

function escapeString :: "string \<Rightarrow> string" where
  "escapeString s =
     (case s of [] \<Rightarrow> []
      | c # cs \<Rightarrow>
         if c < CHR 0x80 then escapeAscii c @ escapeString cs
         else
           let w = max 1 (runeWidth s)
           in (if w = 1 then replacementEscape
               else case map_of separatorEscapes (take w s) of Some e \<Rightarrow> e | None \<Rightarrow> take w s)
              @ escapeString (drop w s))"
  by pat_completeness auto
termination
  by (relation "measure length") (auto simp: Let_def)

declare escapeString.simps [simp del]

definition encodeString :: "string \<Rightarrow> string" where
  "encodeString s = [CHR 0x22] @ escapeString s @ [CHR 0x22]"

fun encodeJson :: "json \<Rightarrow> string" where
  "encodeJson JNull = ''null''"
| "encodeJson (JBool b) = (if b then ''true'' else ''false'')"
| "encodeJson (JInt i) = formatInt i"
| "encodeJson (JString s) = encodeString s"
| "encodeJson (JArray js) = ''['' @ joinWith '','' (map encodeJson js) @ '']''"
| "encodeJson (JObject fs) =
     CHR 0x7B # joinWith '','' (map (\<lambda>(k, v). encodeString k @ '':'' @ encodeJson v) fs) @ [CHR 0x7D]"

text \<open>A string of plain characters none of which the encoder escapes is quoted as it is.\<close>

definition verbatim :: "char \<Rightarrow> bool" where
  "verbatim c \<longleftrightarrow> CHR 0x20 \<le> c \<and> c < CHR 0x80 \<and> c \<notin> {CHR 0x22, CHR 0x5C, CHR ''<'', CHR ''>'', CHR ''&''}"

lemma escapeAscii_verbatim:
  assumes "verbatim c"
  shows "escapeAscii c = [c]"
proof -
  have "c \<notin> {CHR 0x22, CHR 0x5C, CHR 0x08, CHR 0x0C, CHR 0x0A, CHR 0x0D, CHR 0x09}"
  proof
    assume "c \<in> {CHR 0x22, CHR 0x5C, CHR 0x08, CHR 0x0C, CHR 0x0A, CHR 0x0D, CHR 0x09}"
    then have "\<not> verbatim c" by (elim insertE emptyE) (simp_all add: verbatim_def)
    with assms show False by contradiction
  qed
  then have "map_of shortEscapes c = None" by (simp add: shortEscapes_def)
  moreover have "\<not> (c < CHR 0x20 \<or> c \<in> {CHR ''<'', CHR ''>'', CHR ''&''})"
    using assms unfolding verbatim_def by (meson insertCI not_le)
  ultimately show ?thesis unfolding escapeAscii_def by (simp only: option.case if_False)
qed

lemma escapeString_verbatim: "list_all verbatim s \<Longrightarrow> escapeString s = s"
proof (induction s)
  case Nil
  show ?case by (subst escapeString.simps) simp
next
  case (Cons c cs)
  then have "verbatim c" and "c < CHR 0x80" by (simp_all add: verbatim_def)
  with Cons show ?case by (subst escapeString.simps) (simp add: escapeAscii_verbatim)
qed

end
