(* ===== verification/Go_Sha256.thy ===== *)
theory Go_Sha256
  imports Prelude
begin

unbundle bit_operations_syntax

text \<open>
  \<open>crypto/sha256\<close> (FIPS 180-4) and the form in which every component of the program
  prints a digest, \<open>"sha256:" + hex.EncodeToString(sum)\<close>. The properties of the
  library use only what holds of the printed form; the computation itself is here so
  that the digests of the model are the digests of the program.
\<close>

type_synonym w32 = "32 word"

subsection \<open>Constants\<close>

text \<open>
  The standard takes its constants from the fractions of the square and cube roots of the
  first primes; they are computed here from that description. \<open>rootBits k n b r\<close> adds to
  \<open>r\<close> the lower \<open>b\<close> bits of the integer \<open>k\<close>-th root of \<open>n\<close>.
\<close>

definition isPrime :: "nat \<Rightarrow> bool" where
  "isPrime n \<longleftrightarrow> list_all (\<lambda>d. n mod d \<noteq> 0) [2..<n]"

fun rootBits :: "nat \<Rightarrow> int \<Rightarrow> nat \<Rightarrow> int \<Rightarrow> int" where
  "rootBits k n 0 r = r"
| "rootBits k n (Suc b) r =
     (let r' = r + 2 ^ b in if r' ^ k \<le> n then rootBits k n b r' else rootBits k n b r)"

definition rootFraction :: "nat \<Rightarrow> nat \<Rightarrow> w32" where
  "rootFraction k p = word_of_int (rootBits k (int p * 2 ^ (32 * k)) 37 0)"

definition roundConstants :: "w32 list" where
  "roundConstants = map (rootFraction 3) (filter isPrime [2..<312])"

type_synonym hashState = "w32 \<times> w32 \<times> w32 \<times> w32 \<times> w32 \<times> w32 \<times> w32 \<times> w32"

definition initialHash :: hashState where
  "initialHash =
     (rootFraction 2 2, rootFraction 2 3, rootFraction 2 5, rootFraction 2 7,
      rootFraction 2 11, rootFraction 2 13, rootFraction 2 17, rootFraction 2 19)"

subsection \<open>The compression function\<close>

definition rotr :: "nat \<Rightarrow> w32 \<Rightarrow> w32" where
  "rotr n x = drop_bit n x OR push_bit (32 - n) x"

text \<open>The message schedule keeps the last sixteen words, most recent first.\<close>

fun schedule :: "nat \<Rightarrow> w32 list \<Rightarrow> w32 list" where
  "schedule 0 ws = ws"
| "schedule (Suc n) ws =
     (let a = ws ! 14; b = ws ! 1;
          s0 = rotr 7 a XOR rotr 18 a XOR drop_bit 3 a;
          s1 = rotr 17 b XOR rotr 19 b XOR drop_bit 10 b
      in schedule n ((ws ! 15 + s0 + ws ! 6 + s1) # ws))"

definition sha256Round :: "hashState \<Rightarrow> w32 \<times> w32 \<Rightarrow> hashState" where
  "sha256Round st kw =
     (case st of (a, b, c, d, e, f, g, h) \<Rightarrow>
        let s1 = rotr 6 e XOR rotr 11 e XOR rotr 25 e;
            ch = (e AND f) XOR (NOT e AND g);
            t1 = h + s1 + ch + fst kw + snd kw;
            s0 = rotr 2 a XOR rotr 13 a XOR rotr 22 a;
            maj = (a AND b) XOR (a AND c) XOR (b AND c);
            t2 = s0 + maj
        in (t1 + t2, a, b, c, d + t1, e, f, g))"

definition sha256Block :: "hashState \<Rightarrow> w32 list \<Rightarrow> hashState" where
  "sha256Block st block =
     (let ws = rev (schedule 48 (rev block))
      in case (st, foldl sha256Round st (zip roundConstants ws)) of
           ((a, b, c, d, e, f, g, h), (a', b', c', d', e', f', g', h')) \<Rightarrow>
             (a + a', b + b', c + c', d + d', e + e', f + f', g + g', h + h'))"

subsection \<open>Padding and blocks\<close>

definition bigEndian64 :: "64 word \<Rightarrow> byte list" where
  "bigEndian64 w = map (\<lambda>i. ucast (drop_bit (8 * i) w)) [7, 6, 5, 4, 3, 2, 1, 0]"

definition sha256Pad :: "byte list \<Rightarrow> byte list" where
  "sha256Pad m =
     m @ [0x80] @ replicate ((119 - length m mod 64) mod 64) 0 @ bigEndian64 (word_of_nat (8 * length m))"

fun packWords :: "byte list \<Rightarrow> w32 list" where
  "packWords (a # b # c # d # rest) =
     (push_bit 24 (ucast a) OR push_bit 16 (ucast b) OR push_bit 8 (ucast c) OR ucast d) # packWords rest"
| "packWords _ = []"

fun sha256Blocks :: "nat \<Rightarrow> hashState \<Rightarrow> w32 list \<Rightarrow> hashState" where
  "sha256Blocks 0 st ws = st"
| "sha256Blocks (Suc n) st ws = sha256Blocks n (sha256Block st (take 16 ws)) (drop 16 ws)"

definition unpackWord :: "w32 \<Rightarrow> byte list" where
  "unpackWord w = [ucast (drop_bit 24 w), ucast (drop_bit 16 w), ucast (drop_bit 8 w), ucast w]"

definition sha256Sum :: "byte list \<Rightarrow> byte list" where
  "sha256Sum m =
     (let padded = packWords (sha256Pad m)
      in case sha256Blocks (length padded div 16) initialHash padded of
           (a, b, c, d, e, f, g, h) \<Rightarrow>
             unpackWord a @ unpackWord b @ unpackWord c @ unpackWord d @
             unpackWord e @ unpackWord f @ unpackWord g @ unpackWord h)"

definition stringBytes :: "string \<Rightarrow> byte list" where
  "stringBytes s = map of_char s"

definition sha256Digest :: "string \<Rightarrow> string" where
  "sha256Digest s = ''sha256:'' @ hexEncode (sha256Sum (stringBytes s))"

text \<open>\<open>^sha256:[a-f0-9]{64}$\<close>, under several names in the sources.\<close>

definition digestPattern :: "string \<Rightarrow> bool" where
  "digestPattern s = prefixPattern ''sha256:'' isHex 64 64 s"

lemma length_sha256Sum: "length (sha256Sum m) = 32"
  by (simp add: sha256Sum_def unpackWord_def Let_def split: prod.splits)

lemma digestPattern_sha256Digest [simp]: "digestPattern (sha256Digest s)"
  unfolding digestPattern_def sha256Digest_def
  by (simp only: prefixPattern_append list_all_hexEncode length_hexEncode length_sha256Sum)
    simp

lemma sha256Digest_not_empty [simp]: "sha256Digest s \<noteq> []"
  by (simp add: sha256Digest_def)

end
