(* ===== verification/Go_Sort.thy ===== *)
theory Go_Sort
  imports Prelude
begin

text \<open>
  Go's \<open>sort.Search\<close>: the binary search over the indices below \<open>n\<close> that returns the
  first one a monotone predicate accepts, with the fact every caller relies on: on a
  list in strictly ascending order the search for the first element not below a key
  decides membership.
\<close>

function searchRange :: "(nat \<Rightarrow> bool) \<Rightarrow> nat \<Rightarrow> nat \<Rightarrow> nat" where
  "searchRange f i j =
     (if i < j then
        let h = (i + j) div 2
        in if f h then searchRange f i h else searchRange f (h + 1) j
      else i)"
  by pat_completeness auto
termination
  by (relation "measure (\<lambda>(f, i, j). j - i)") auto

declare searchRange.simps [simp del]

definition sortSearch :: "nat \<Rightarrow> (nat \<Rightarrow> bool) \<Rightarrow> nat" where
  "sortSearch n f = searchRange f 0 n"

text \<open>\<open>index < len(xs) && xs[index] == x\<close> for the index \<open>sort.Search\<close> finds.\<close>

definition searchHit :: "'a::linorder list \<Rightarrow> 'a \<Rightarrow> bool" where
  "searchHit xs x =
     (let index = sortSearch (length xs) (\<lambda>i. x \<le> xs ! i)
      in index < length xs \<and> xs ! index = x)"

lemma searchRange_least:
  assumes "i \<le> j" and "\<And>a b. a \<le> b \<Longrightarrow> b < n \<Longrightarrow> f a \<Longrightarrow> f b" and "j \<le> n"
    and "\<And>a. a < i \<Longrightarrow> \<not> f a" and "\<And>a. j \<le> a \<Longrightarrow> a < n \<Longrightarrow> f a"
  shows "(\<forall>a < searchRange f i j. \<not> f a) \<and> (\<forall>a. searchRange f i j \<le> a \<and> a < n \<longrightarrow> f a) \<and> searchRange f i j \<le> n"
  using assms
proof (induction f i j rule: searchRange.induct)
  case (1 f i j)
  show ?case
  proof (cases "i < j")
    case False
    then show ?thesis using "1.prems" by (subst (1 2 3) searchRange.simps) auto
  next
    case True
    define h where "h = (i + j) div 2"
    have h: "i \<le> h" "h < j" using True by (auto simp: h_def)
    show ?thesis
    proof (cases "f h")
      case True
      have "searchRange f i j = searchRange f i h"
        using \<open>i < j\<close> True by (subst searchRange.simps) (simp add: h_def Let_def)
      moreover have "(\<forall>a < searchRange f i h. \<not> f a) \<and> (\<forall>a. searchRange f i h \<le> a \<and> a < n \<longrightarrow> f a) \<and> searchRange f i h \<le> n"
        using "1.IH"(1) [OF \<open>i < j\<close> h_def True h(1)] "1.prems" h True by simp
      ultimately show ?thesis by simp
    next
      case False
      have eq: "searchRange f i j = searchRange f (h + 1) j"
        using \<open>i < j\<close> False by (subst searchRange.simps) (simp add: h_def Let_def)
      have low: "\<not> f a" if "a < h + 1" for a
        using "1.prems"(2) [of a h] "1.prems"(3) h that False by linarith
      have "(\<forall>a < searchRange f (h + 1) j. \<not> f a) \<and>
          (\<forall>a. searchRange f (h + 1) j \<le> a \<and> a < n \<longrightarrow> f a) \<and> searchRange f (h + 1) j \<le> n"
        by (rule "1.IH"(2) [OF \<open>i < j\<close> h_def False _ "1.prems"(2,3) low "1.prems"(5)]) (use h in simp)
      then show ?thesis by (simp add: eq)
    qed
  qed
qed

lemma searchHit_iff:
  assumes "sorted xs"
  shows "searchHit xs x \<longleftrightarrow> x \<in> set xs"
proof -
  define k where "k = sortSearch (length xs) (\<lambda>i. x \<le> xs ! i)"
  have mono: "x \<le> xs ! a \<Longrightarrow> x \<le> xs ! b" if "a \<le> b" "b < length xs" for a b
    using assms that by (meson order_trans sorted_nth_mono)
  have k: "(\<forall>a < k. \<not> x \<le> xs ! a) \<and> (\<forall>a. k \<le> a \<and> a < length xs \<longrightarrow> x \<le> xs ! a) \<and> k \<le> length xs"
    unfolding k_def sortSearch_def by (rule searchRange_least) (use mono in auto)
  show ?thesis
  proof
    assume "searchHit xs x"
    then show "x \<in> set xs" unfolding searchHit_def Let_def by (metis nth_mem)
  next
    assume "x \<in> set xs"
    then obtain i where i: "i < length xs" "xs ! i = x" by (auto simp: in_set_conv_nth)
    have "k \<le> i" using k i(2) by (metis leI order_refl)
    have "xs ! k \<le> xs ! i" by (rule sorted_nth_mono [OF assms \<open>k \<le> i\<close> i(1)])
    moreover have "x \<le> xs ! k" using k \<open>k \<le> i\<close> i by auto
    ultimately show "searchHit xs x"
      using i \<open>k \<le> i\<close> unfolding searchHit_def k_def [symmetric] Let_def by auto
  qed
qed

end
