(* ===== verification/Dev_Capability.thy ===== *)
theory Dev_Capability
  imports Go_Json Go_Sha256 Go_Sort "HOL-Library.Product_Lexorder"
begin

text \<open>
  \<open>internal/development/capability.go\<close> and \<open>environment_record.go\<close>: capability
  identifiers and sets, version capabilities, authority tiers, environment attestations
  with their digests, and the authority policy of an objective. An execution class is
  its text, because the code sorts and searches classes by their text.
\<close>

subsection \<open>Errors of the development package\<close>

datatype ResolutionFailure = ResolutionFailurePolicy | ResolutionFailureCapabilities

text \<open>An error is the text \<open>errors.New\<close> is given, or a \<open>ResolutionError\<close> with its fields.\<close>

datatype devError = Err string | ResolutionError ResolutionFailure "string list"

abbreviation fail :: "string \<Rightarrow> devError + 'a" where
  "fail msg \<equiv> Inl (Err msg)"

subsection \<open>Capability identifiers\<close>

type_synonym CapabilityID = string

definition capabilitySetDigestDomain :: string where
  "capabilitySetDigestDomain = ''aeontra-development-capability-set-v1'' @ [CHR 0x00]"

definition attestationDigestDomain :: string where
  "attestationDigestDomain = ''aeontra-development-capability-attestation-v1'' @ [CHR 0x00]"

text \<open>The rest of \<open>^[a-z][a-z0-9]*(?:[.-][a-z0-9]+)*$\<close> after its first character.\<close>

fun capabilityTail :: "string \<Rightarrow> bool" where
  "capabilityTail [] = True"
| "capabilityTail [c] = isLowerNum c"
| "capabilityTail (c # d # cs) =
     (if isLowerNum c then capabilityTail (d # cs)
      else (c = CHR ''.'' \<or> c = CHR ''-'') \<and> isLowerNum d \<and> capabilityTail cs)"

definition capabilityIDPattern :: "string \<Rightarrow> bool" where
  "capabilityIDPattern s = (case s of [] \<Rightarrow> False | c # cs \<Rightarrow> isLower c \<and> capabilityTail cs)"

text \<open>\<open>^v?[0-9]+(?:\.[0-9]+){0,3}$\<close>\<close>

definition capabilityVersionPattern :: "string \<Rightarrow> bool" where
  "capabilityVersionPattern s =
     (let digits = (case stripPrefix ''v'' s of Some r \<Rightarrow> r | None \<Rightarrow> s);
          parts = splitOn (CHR ''.'') digits
      in length parts \<le> 4 \<and> list_all (\<lambda>p. p \<noteq> [] \<and> list_all isDigit p) parts)"

definition identityPattern :: "string \<Rightarrow> bool" where
  [pattern_defs]: "identityPattern = headPattern isAlnum keyChar 0 127"

record Requirement =
  reqID :: CapabilityID

record CapabilitySet =
  csIDs :: "CapabilityID list"

definition normalizeCapabilityID :: "string \<Rightarrow> devError + CapabilityID" where
  "normalizeCapabilityID raw =
     (let v = ToLower (TrimSpace raw)
      in if capabilityIDPattern v then Inr v else fail ''development capability id is invalid'')"

text \<open>\<open>seen\<close> is the set of the identifiers of \<open>canonical\<close>, which grows at its end.\<close>

fun collectIDs :: "CapabilityID list \<Rightarrow> CapabilityID list \<Rightarrow> devError + CapabilityID list" where
  "collectIDs canonical [] = Inr canonical"
| "collectIDs canonical (i # ids) =
     (if \<not> capabilityIDPattern i then fail ''development capability id is invalid''
      else if i \<in> set canonical then collectIDs canonical ids
      else collectIDs (canonical @ [i]) ids)"

definition capabilitySetFromIDs :: "CapabilityID list \<Rightarrow> devError + CapabilitySet" where
  "capabilitySetFromIDs ids =
     (case collectIDs [] ids of Inl e \<Rightarrow> Inl e | Inr canonical \<Rightarrow> Inr \<lparr>csIDs = sort canonical\<rparr>)"

fun normalizeAll :: "string list \<Rightarrow> devError + CapabilityID list" where
  "normalizeAll [] = Inr []"
| "normalizeAll (raw # raws) =
     (case normalizeCapabilityID raw of
        Inl e \<Rightarrow> Inl e
      | Inr i \<Rightarrow> (case normalizeAll raws of Inl e \<Rightarrow> Inl e | Inr ids \<Rightarrow> Inr (i # ids)))"

definition NewCapabilitySet :: "string list \<Rightarrow> devError + CapabilitySet" where
  "NewCapabilitySet raw =
     (case normalizeAll raw of Inl e \<Rightarrow> Inl e | Inr ids \<Rightarrow> capabilitySetFromIDs ids)"

definition Requirements :: "string list \<Rightarrow> devError + Requirement list" where
  "Requirements raw =
     (case normalizeAll raw of
        Inl e \<Rightarrow> Inl e
      | Inr ids \<Rightarrow>
         (case capabilitySetFromIDs ids of
            Inl e \<Rightarrow> Inl e
          | Inr s \<Rightarrow> Inr (map (\<lambda>i. \<lparr>reqID = i\<rparr>) (csIDs s))))"

definition Has :: "CapabilitySet \<Rightarrow> CapabilityID \<Rightarrow> bool" where
  "Has s i \<longleftrightarrow> capabilityIDPattern i \<and> searchHit (csIDs s) i"

definition Missing :: "CapabilitySet \<Rightarrow> Requirement list \<Rightarrow> CapabilityID list" where
  "Missing s requirements = sort (map reqID (filter (\<lambda>r. \<not> Has s (reqID r)) requirements))"

text \<open>Each value followed by a zero byte, as the digests write their fields.\<close>

definition terminated :: "string list \<Rightarrow> string" where
  "terminated vs = concat (map (\<lambda>v. v @ [CHR 0x00]) vs)"

definition Digest_set :: "CapabilitySet \<Rightarrow> string" where
  "Digest_set s = sha256Digest (capabilitySetDigestDomain @ terminated (csIDs s))"

subsection \<open>Version capabilities\<close>

definition canonicalCapabilityVersion :: "string \<Rightarrow> devError + string" where
  "canonicalCapabilityVersion raw =
     (let v = TrimSpace (ToLower raw)
      in if \<not> capabilityVersionPattern v then fail ''development capability version is invalid''
         else
           let v = (case stripPrefix ''v'' v of Some r \<Rightarrow> r | None \<Rightarrow> v);
               parts = splitOn (CHR ''.'') v
           in if list_ex (\<lambda>p. length p > 1 \<and> hd p = CHR ''0'') parts then fail ''development capability version is not canonical''
              else Inr (joinWith ''.'' parts))"

fun versionPrefixes :: "CapabilityID \<Rightarrow> string list \<Rightarrow> nat \<Rightarrow> nat \<Rightarrow> devError + CapabilityID list" where
  "versionPrefixes baseID parts index 0 = Inr []"
| "versionPrefixes baseID parts index (Suc n) =
     (case normalizeCapabilityID (baseID @ ''.v'' @ joinWith ''-'' (take (index + 1) parts)) of
        Inl e \<Rightarrow> Inl e
      | Inr i \<Rightarrow>
         (case versionPrefixes baseID parts (index + 1) n of Inl e \<Rightarrow> Inl e | Inr ids \<Rightarrow> Inr (i # ids)))"

definition VersionCapabilityIDs :: "string \<Rightarrow> string \<Rightarrow> devError + CapabilityID list" where
  "VersionCapabilityIDs base version =
     (case normalizeCapabilityID base of
        Inl e \<Rightarrow> Inl e
      | Inr baseID \<Rightarrow>
         (case canonicalCapabilityVersion version of
            Inl e \<Rightarrow> Inl e
          | Inr canonical \<Rightarrow>
             let parts = splitOn (CHR ''.'') canonical
             in case versionPrefixes baseID parts 0 (length parts) of
                  Inl e \<Rightarrow> Inl e
                | Inr ids \<Rightarrow> Inr (baseID # ids)))"

definition VersionRequirement :: "string \<Rightarrow> string \<Rightarrow> devError + Requirement" where
  "VersionRequirement base version =
     (case VersionCapabilityIDs base version of Inl e \<Rightarrow> Inl e | Inr ids \<Rightarrow> Inr \<lparr>reqID = last ids\<rparr>)"

subsection \<open>Tiers and classes\<close>

type_synonym AuthorityTier = nat

definition TierL3Sandbox :: AuthorityTier where "TierL3Sandbox = 1"
definition TierWorkcell :: AuthorityTier where "TierWorkcell = 2"
definition TierManagedToolchain :: AuthorityTier where "TierManagedToolchain = 3"
definition TierToolbox :: AuthorityTier where "TierToolbox = 4"
definition TierRootlessRuntime :: AuthorityTier where "TierRootlessRuntime = 5"
definition TierBrokeredPrivileged :: AuthorityTier where "TierBrokeredPrivileged = 6"
definition TierIsolatedRunner :: AuthorityTier where "TierIsolatedRunner = 7"

lemmas tier_defs =
  TierL3Sandbox_def TierWorkcell_def TierManagedToolchain_def TierToolbox_def TierRootlessRuntime_def
  TierBrokeredPrivileged_def TierIsolatedRunner_def

type_synonym ExecutionClass = string

definition ClassL3Sandbox :: ExecutionClass where "ClassL3Sandbox = ''l3-sandbox''"
definition ClassWorkcell :: ExecutionClass where "ClassWorkcell = ''workcell''"
definition ClassManagedToolchain :: ExecutionClass where "ClassManagedToolchain = ''managed-toolchain''"
definition ClassToolbox :: ExecutionClass where "ClassToolbox = ''toolbox''"
definition ClassRootlessRuntime :: ExecutionClass where "ClassRootlessRuntime = ''rootless-runtime''"
definition ClassBrokeredPrivileged :: ExecutionClass where "ClassBrokeredPrivileged = ''brokered-privileged''"
definition ClassIsolatedRunner :: ExecutionClass where "ClassIsolatedRunner = ''isolated-runner''"
definition ClassExternalValidationRunner :: ExecutionClass where
  "ClassExternalValidationRunner = ''external-validation-runner''"

lemmas class_defs =
  ClassL3Sandbox_def ClassWorkcell_def ClassManagedToolchain_def ClassToolbox_def ClassRootlessRuntime_def
  ClassBrokeredPrivileged_def ClassIsolatedRunner_def ClassExternalValidationRunner_def

definition Tier :: "ExecutionClass \<Rightarrow> AuthorityTier option" where
  "Tier c =
     (if c = ClassL3Sandbox then Some TierL3Sandbox
      else if c = ClassWorkcell then Some TierWorkcell
      else if c = ClassManagedToolchain then Some TierManagedToolchain
      else if c = ClassToolbox then Some TierToolbox
      else if c = ClassRootlessRuntime then Some TierRootlessRuntime
      else if c = ClassBrokeredPrivileged then Some TierBrokeredPrivileged
      else if c = ClassIsolatedRunner \<or> c = ClassExternalValidationRunner then Some TierIsolatedRunner
      else None)"

subsection \<open>Environment attestations\<close>

type_synonym uint64 = "64 word"

record EnvironmentAttestation =
  atEnvironmentID :: string
  atClass :: ExecutionClass
  atGeneration :: uint64
  atCapabilities :: CapabilitySet
  atDigest :: string

definition attestationDigest :: "EnvironmentAttestation \<Rightarrow> string" where
  "attestationDigest a =
     sha256Digest (attestationDigestDomain @ atEnvironmentID a @ [CHR 0x00] @ atClass a @ [CHR 0x00] @
       formatNat (unat (atGeneration a)) @ [CHR 0x00] @ Digest_set (atCapabilities a))"

definition NewEnvironmentAttestation ::
  "string \<Rightarrow> ExecutionClass \<Rightarrow> uint64 \<Rightarrow> CapabilitySet \<Rightarrow> devError + EnvironmentAttestation" where
  "NewEnvironmentAttestation environmentID0 class generation capabilities =
     (let environmentID = TrimSpace environmentID0
      in if \<not> identityPattern environmentID \<or> generation = 0 then fail ''development environment identity is invalid''
         else if Tier class = None then fail ''development execution class is invalid''
         else
           case capabilitySetFromIDs (csIDs capabilities) of
             Inl e \<Rightarrow> Inl e
           | Inr canonical \<Rightarrow>
              let attestation = \<lparr>atEnvironmentID = environmentID, atClass = class, atGeneration = generation,
                                atCapabilities = canonical, atDigest = []\<rparr>
              in Inr (attestation\<lparr>atDigest := attestationDigest attestation\<rparr>))"

definition Valid_attestation :: "EnvironmentAttestation \<Rightarrow> bool" where
  "Valid_attestation a \<longleftrightarrow>
     identityPattern (atEnvironmentID a) \<and> atGeneration a \<noteq> 0 \<and> Tier (atClass a) \<noteq> None \<and>
     (case capabilitySetFromIDs (csIDs (atCapabilities a)) of
        Inl e \<Rightarrow> False
      | Inr canonical \<Rightarrow> Digest_set canonical = Digest_set (atCapabilities a)) \<and>
     atDigest a = attestationDigest a"

record EnvironmentRecord =
  erEnvironmentID :: string
  erClass :: ExecutionClass
  erGeneration :: uint64
  erCapabilities :: "CapabilityID list"
  erDigest :: string

definition Record_attestation :: "EnvironmentAttestation \<Rightarrow> devError + EnvironmentRecord" where
  "Record_attestation a =
     (if \<not> Valid_attestation a then fail ''development environment attestation is invalid''
      else Inr \<lparr>erEnvironmentID = atEnvironmentID a, erClass = atClass a, erGeneration = atGeneration a,
               erCapabilities = csIDs (atCapabilities a), erDigest = atDigest a\<rparr>)"

definition canonicalCapabilityIDs :: "CapabilityID list \<Rightarrow> devError + CapabilityID list" where
  "canonicalCapabilityIDs ids =
     (case capabilitySetFromIDs ids of Inl e \<Rightarrow> Inl e | Inr s \<Rightarrow> Inr (csIDs s))"

definition sameCapabilityIDs :: "CapabilityID list \<Rightarrow> CapabilityID list \<Rightarrow> bool" where
  "sameCapabilityIDs left right \<longleftrightarrow> length left = length right \<and> list_all (\<lambda>(l, r). l = r) (zip left right)"

definition Attestation :: "EnvironmentRecord \<Rightarrow> devError + EnvironmentAttestation" where
  "Attestation rec =
     (case canonicalCapabilityIDs (erCapabilities rec) of
        Inl e \<Rightarrow> fail ''development environment capabilities are not canonical''
      | Inr canonical \<Rightarrow>
         if \<not> sameCapabilityIDs canonical (erCapabilities rec) then fail ''development environment capabilities are not canonical''
         else
           case capabilitySetFromIDs canonical of
             Inl e \<Rightarrow> Inl e
           | Inr capabilities \<Rightarrow>
              (case NewEnvironmentAttestation (erEnvironmentID rec) (erClass rec) (erGeneration rec) capabilities of
                 Inl e \<Rightarrow> fail ''development environment digest is invalid''
               | Inr attestation \<Rightarrow>
                  if erDigest rec \<noteq> atDigest attestation then fail ''development environment digest is invalid'' else Inr attestation))"

subsection \<open>The authority policy of an objective\<close>

record ResolutionPolicy =
  rpMaxTier :: AuthorityTier
  rpAllowed :: "ExecutionClass list"

fun collectClasses :: "AuthorityTier \<Rightarrow> ExecutionClass list \<Rightarrow> ExecutionClass list \<Rightarrow> devError + ExecutionClass list" where
  "collectClasses maxTier classes [] = Inr classes"
| "collectClasses maxTier classes (c # cs) =
     (case Tier c of
        None \<Rightarrow> fail ''development resolution policy is invalid''
      | Some tier \<Rightarrow>
         if tier > maxTier then fail ''development resolution policy is invalid''
         else if c \<in> set classes then collectClasses maxTier classes cs
         else collectClasses maxTier (classes @ [c]) cs)"

definition NewResolutionPolicy :: "AuthorityTier \<Rightarrow> ExecutionClass list \<Rightarrow> devError + ResolutionPolicy" where
  "NewResolutionPolicy maxTier allowed =
     (if maxTier < TierL3Sandbox \<or> maxTier > TierIsolatedRunner \<or> length allowed = 0 then fail ''development resolution policy is invalid''
      else
        case collectClasses maxTier [] allowed of
          Inl e \<Rightarrow> Inl e
        | Inr classes \<Rightarrow> Inr \<lparr>rpMaxTier = maxTier, rpAllowed = sort classes\<rparr>)"

definition AllowsClass :: "ResolutionPolicy \<Rightarrow> ExecutionClass \<Rightarrow> bool" where
  "AllowsClass p c \<longleftrightarrow>
     (case Tier c of None \<Rightarrow> False | Some tier \<Rightarrow> tier \<le> rpMaxTier p \<and> searchHit (rpAllowed p) c)"

definition Allows :: "ResolutionPolicy \<Rightarrow> EnvironmentAttestation \<Rightarrow> bool" where
  "Allows p a \<longleftrightarrow>
     Valid_attestation a \<and> the (Tier (atClass a)) \<le> rpMaxTier p \<and> searchHit (rpAllowed p) (atClass a)"

fun allowedFrom :: "AuthorityTier \<Rightarrow> ExecutionClass option \<Rightarrow> ExecutionClass list \<Rightarrow> bool" where
  "allowedFrom maxTier previous [] = True"
| "allowedFrom maxTier previous (c # cs) =
     (case Tier c of
        None \<Rightarrow> False
      | Some tier \<Rightarrow>
         tier \<le> maxTier \<and> (case previous of None \<Rightarrow> True | Some p \<Rightarrow> p < c) \<and> allowedFrom maxTier (Some c) cs)"

definition valid_policy :: "ResolutionPolicy \<Rightarrow> bool" where
  "valid_policy p \<longleftrightarrow>
     TierL3Sandbox \<le> rpMaxTier p \<and> rpMaxTier p \<le> TierIsolatedRunner \<and> length (rpAllowed p) \<noteq> 0 \<and>
     allowedFrom (rpMaxTier p) None (rpAllowed p)"

subsection \<open>Canonical sets\<close>

lemma collectIDs_Inr:
  "collectIDs canonical ids = Inr c \<Longrightarrow> distinct canonical \<Longrightarrow>
   list_all capabilityIDPattern ids \<and> set c = set canonical \<union> set ids \<and> distinct c"
  by (induction canonical ids rule: collectIDs.induct) (auto split: if_splits)

lemma collectIDs_total: "list_all capabilityIDPattern ids \<Longrightarrow> \<exists>c. collectIDs canonical ids = Inr c"
  by (induction canonical ids rule: collectIDs.induct) auto

lemma sort_distinct_set: "distinct xs \<Longrightarrow> sort xs = sorted_list_of_set (set xs)"
  by (simp add: sorted_list_of_set_sort_remdups distinct_remdups_id)

lemma sort_Nil_iff [simp]: "sort xs = [] \<longleftrightarrow> xs = []"
  by (metis length_0_conv length_sort)

text \<open>The constructor succeeds on well-formed identifiers, with their set in ascending order.\<close>

lemma capabilitySetFromIDs_eq:
  "capabilitySetFromIDs ids =
     (if list_all capabilityIDPattern ids then Inr \<lparr>csIDs = sorted_list_of_set (set ids)\<rparr> else fail ''development capability id is invalid'')"
proof (cases "list_all capabilityIDPattern ids")
  case True
  then obtain c where c: "collectIDs [] ids = Inr c" using collectIDs_total by blast
  with collectIDs_Inr [OF c] True show ?thesis
    by (simp add: capabilitySetFromIDs_def sort_distinct_set)
next
  case False
  have "collectIDs canonical ids = fail ''development capability id is invalid''" if "\<not> list_all capabilityIDPattern ids" for canonical
    using that by (induction canonical ids rule: collectIDs.induct) auto
  with False show ?thesis by (simp add: capabilitySetFromIDs_def)
qed

definition canonicalIDs :: "CapabilityID list \<Rightarrow> bool" where
  "canonicalIDs ids \<longleftrightarrow> list_all capabilityIDPattern ids \<and> sorted ids \<and> distinct ids"

lemma canonicalIDs_fix: "canonicalIDs ids \<Longrightarrow> capabilitySetFromIDs ids = Inr \<lparr>csIDs = ids\<rparr>"
  by (simp add: capabilitySetFromIDs_eq canonicalIDs_def sorted_list_of_set.idem_if_sorted_distinct)

lemma capabilitySetFromIDs_canonical:
  "capabilitySetFromIDs ids = Inr s \<Longrightarrow> canonicalIDs (csIDs s) \<and> set (csIDs s) = set ids"
  by (auto simp: capabilitySetFromIDs_eq canonicalIDs_def list_all_iff split: if_splits)

lemma canonicalIDs_unique:
  "canonicalIDs xs \<Longrightarrow> canonicalIDs ys \<Longrightarrow> set xs = set ys \<Longrightarrow> xs = ys"
  unfolding canonicalIDs_def by (metis sorted_distinct_set_unique)

lemma Has_member: "Has s i \<Longrightarrow> i \<in> set (csIDs s)"
  unfolding Has_def searchHit_def Let_def by (metis nth_mem)

lemma Has_iff: "sorted (csIDs s) \<Longrightarrow> Has s i \<longleftrightarrow> capabilityIDPattern i \<and> i \<in> set (csIDs s)"
  by (simp add: Has_def searchHit_iff)

lemma Missing_empty: "Missing s rs = [] \<longleftrightarrow> (\<forall>r \<in> set rs. Has s (reqID r))"
  by (auto simp: Missing_def filter_empty_conv)

lemma sameCapabilityIDs_eq [simp]: "sameCapabilityIDs l r \<longleftrightarrow> l = r"
  using list_all2_iff [of "(=)" l r] by (simp add: sameCapabilityIDs_def list_all_iff list.rel_eq)

subsection \<open>Identifiers are plain text\<close>

lemma keyChar_plain: "keyChar c \<Longrightarrow> plain c"
  by (auto simp: keyChar_def plain_def charClass_defs less_eq_char_def)

lemma identityPattern_plain: "identityPattern s \<Longrightarrow> list_all plain s"
  unfolding identityPattern_def by (erule headPattern_plain) (auto intro: keyChar_plain)

lemma identityPattern_trim [simp]: "identityPattern s \<Longrightarrow> TrimSpace s = s"
  by (simp add: identityPattern_plain)

lemma identityPattern_not_empty [simp]: "\<not> identityPattern []"
  by (simp add: identityPattern_def)

lemma capabilityTail_chars:
  "capabilityTail s \<Longrightarrow> list_all (\<lambda>c. isLowerNum c \<or> c = CHR ''.'' \<or> c = CHR ''-'') s"
  by (induction s rule: capabilityTail.induct) (auto split: if_splits)

lemma capabilityID_chars:
  assumes "capabilityIDPattern s"
  shows "list_all (\<lambda>c. plain c \<and> \<not> isUpper c) s"
proof -
  have "list_all (\<lambda>c. isLowerNum c \<or> c = CHR ''.'' \<or> c = CHR ''-'') s"
    using assms capabilityTail_chars by (auto simp: capabilityIDPattern_def isLowerNum_def split: list.splits)
  then show ?thesis
    by (rule list.pred_mono_strong) (auto simp: plain_def charClass_defs less_eq_char_def)
qed

lemma normalizeCapabilityID_fix: "capabilityIDPattern s \<Longrightarrow> normalizeCapabilityID s = Inr s"
proof -
  assume s: "capabilityIDPattern s"
  then have "list_all plain s" and "ToLower s = s"
    using capabilityID_chars [OF s] by (auto simp: list_all_iff)
  with s show ?thesis by (simp add: normalizeCapabilityID_def)
qed

subsection \<open>Tiers\<close>

lemma Tier_range: "Tier c = Some t \<Longrightarrow> TierL3Sandbox \<le> t \<and> t \<le> TierIsolatedRunner"
  by (auto simp: Tier_def tier_defs split: if_splits)

lemma allowedFrom_iff:
  "allowedFrom m p cs \<longleftrightarrow>
     (\<forall>c \<in> set cs. \<exists>t. Tier c = Some t \<and> t \<le> m) \<and> sorted_wrt (<) cs \<and>
     (\<forall>q c. p = Some q \<and> c \<in> set cs \<longrightarrow> q < c)"
proof (induction cs arbitrary: p)
  case (Cons c cs)
  show ?case
  proof (cases "Tier c")
    case (Some t)
    then show ?thesis using Cons.IH [of "Some c"] by (cases p) (auto intro: order.strict_trans)
  qed simp
qed simp

lemma valid_policy_allowed:
  assumes "valid_policy p"
  shows "sorted (rpAllowed p)" and "c \<in> set (rpAllowed p) \<Longrightarrow> \<exists>t. Tier c = Some t \<and> t \<le> rpMaxTier p"
  using assms unfolding valid_policy_def allowedFrom_iff
  by (auto simp: strict_sorted_iff)

lemma AllowsClass_iff: "valid_policy p \<Longrightarrow> AllowsClass p c \<longleftrightarrow> c \<in> set (rpAllowed p)"
  using valid_policy_allowed(1) [of p] valid_policy_allowed(2) [of p c]
  by (auto simp: AllowsClass_def searchHit_iff split: option.splits)

lemma Allows_iff: "valid_policy p \<Longrightarrow> Allows p a \<longleftrightarrow> Valid_attestation a \<and> atClass a \<in> set (rpAllowed p)"
  using valid_policy_allowed(1) [of p] valid_policy_allowed(2) [of p "atClass a"]
  by (fastforce simp: Allows_def searchHit_iff)

lemma collectClasses_Inr:
  "collectClasses m classes cs = Inr r \<Longrightarrow> distinct classes \<Longrightarrow>
   set r = set classes \<union> set cs \<and> distinct r \<and> (\<forall>c \<in> set cs. \<exists>t. Tier c = Some t \<and> t \<le> m)"
  by (induction m classes cs rule: collectClasses.induct) (auto split: if_splits option.splits)

lemma NewResolutionPolicy_valid:
  assumes "NewResolutionPolicy m allowed = Inr p"
  shows "valid_policy p \<and> rpMaxTier p = m \<and> set (rpAllowed p) = set allowed"
proof -
  obtain r where r: "collectClasses m [] allowed = Inr r" and p: "p = \<lparr>rpMaxTier = m, rpAllowed = sort r\<rparr>"
    and m: "TierL3Sandbox \<le> m" "m \<le> TierIsolatedRunner" "allowed \<noteq> []"
    using assms by (auto simp: NewResolutionPolicy_def split: if_splits sum.splits)
  from collectClasses_Inr [OF r] m show ?thesis
    unfolding p valid_policy_def by (auto simp: allowedFrom_iff strict_sorted_iff)
qed

subsection \<open>Attestations and their records\<close>

lemma attestationDigest_digest [simp]: "attestationDigest (a\<lparr>atDigest := d\<rparr>) = attestationDigest a"
  by (simp add: attestationDigest_def)

lemma canonicalIDs_set: "canonicalIDs (csIDs s) \<Longrightarrow> capabilitySetFromIDs (csIDs s) = Inr s"
  using canonicalIDs_fix [of "csIDs s"] by simp

lemma NewEnvironmentAttestation_Inr:
  assumes "NewEnvironmentAttestation i c g caps = Inr a"
  shows "Valid_attestation a" and "canonicalIDs (csIDs (atCapabilities a))"
    and "atEnvironmentID a = TrimSpace i" and "atClass a = c" and "atGeneration a = g"
    and "set (csIDs (atCapabilities a)) = set (csIDs caps)"
proof -
  define a0 where "a0 s = \<lparr>atEnvironmentID = TrimSpace i, atClass = c, atGeneration = g, atCapabilities = s, atDigest = []\<rparr>" for s
  obtain s where s: "capabilitySetFromIDs (csIDs caps) = Inr s" and a: "a = (a0 s)\<lparr>atDigest := attestationDigest (a0 s)\<rparr>"
    and id: "identityPattern (TrimSpace i)" "g \<noteq> 0" "Tier c \<noteq> None"
    using assms by (auto simp: NewEnvironmentAttestation_def a0_def Let_def split: if_splits sum.splits)
  have canon: "canonicalIDs (csIDs s)" "set (csIDs s) = set (csIDs caps)"
    using capabilitySetFromIDs_canonical [OF s] by simp_all
  show "canonicalIDs (csIDs (atCapabilities a))" "set (csIDs (atCapabilities a)) = set (csIDs caps)"
    "atEnvironmentID a = TrimSpace i" "atClass a = c" "atGeneration a = g"
    using canon by (simp_all add: a a0_def)
  show "Valid_attestation a"
    using id canonicalIDs_set [OF canon(1)] by (simp add: Valid_attestation_def a) (simp add: a0_def)
qed

text \<open>An attestation the constructor built is what it rebuilds from its own fields.\<close>

lemma NewEnvironmentAttestation_again:
  assumes "Valid_attestation a" and "canonicalIDs (csIDs (atCapabilities a))"
  shows "NewEnvironmentAttestation (atEnvironmentID a) (atClass a) (atGeneration a) (atCapabilities a) = Inr a"
proof -
  have "capabilitySetFromIDs (csIDs (atCapabilities a)) = Inr (atCapabilities a)"
    by (rule canonicalIDs_set [OF assms(2)])
  moreover have "attestationDigest (a\<lparr>atDigest := []\<rparr>) = atDigest a"
    using assms(1) by (simp add: Valid_attestation_def)
  moreover have "a\<lparr>atDigest := []\<rparr> = \<lparr>atEnvironmentID = atEnvironmentID a, atClass = atClass a,
      atGeneration = atGeneration a, atCapabilities = atCapabilities a, atDigest = []\<rparr>"
    by simp
  ultimately show ?thesis
    using assms(1) by (auto simp: NewEnvironmentAttestation_def Valid_attestation_def Let_def)
qed

text \<open>
  C39: an environment attestation survives its transport. The record of an attestation
  the constructor built parses back to exactly that attestation, digest included.
\<close>

theorem Attestation_roundtrip:
  assumes "NewEnvironmentAttestation i c g caps = Inr a"
  shows "\<exists>r. Record_attestation a = Inr r \<and> Attestation r = Inr a"
proof -
  note new = NewEnvironmentAttestation_Inr [OF assms]
  have "canonicalCapabilityIDs (csIDs (atCapabilities a)) = Inr (csIDs (atCapabilities a))"
    using canonicalIDs_fix [OF new(2)] by (simp add: canonicalCapabilityIDs_def)
  then show ?thesis
    using new(1) canonicalIDs_set [OF new(2)] NewEnvironmentAttestation_again [OF new(1,2)]
    by (simp add: Record_attestation_def Attestation_def)
qed

text \<open>
  parsing a record grants nothing. Whatever record is parsed successfully, the
  attestation is valid, holds exactly the listed capabilities and carries the digest
  computed from them, which the record had to state.
\<close>

theorem Attestation_exact:
  assumes "Attestation r = Inr a"
  shows "Valid_attestation a \<and> csIDs (atCapabilities a) = erCapabilities r \<and> atClass a = erClass r \<and>
     atGeneration a = erGeneration r \<and> atDigest a = erDigest r \<and> erDigest r = attestationDigest a"
proof -
  obtain caps where caps: "capabilitySetFromIDs (erCapabilities r) = Inr caps" "csIDs caps = erCapabilities r"
    and new: "NewEnvironmentAttestation (erEnvironmentID r) (erClass r) (erGeneration r) caps = Inr a"
    and digest: "erDigest r = atDigest a"
    using assms by (auto simp: Attestation_def canonicalCapabilityIDs_def split: sum.splits if_splits)
  have "csIDs (atCapabilities a) = erCapabilities r"
    using NewEnvironmentAttestation_Inr(2,6) [OF new] capabilitySetFromIDs_canonical [OF caps(1)] caps(2)
    by (metis canonicalIDs_unique)
  then show ?thesis
    using NewEnvironmentAttestation_Inr [OF new] digest by (simp add: Valid_attestation_def)
qed

subsection \<open>Version capabilities\<close>

definition versionPart :: "string \<Rightarrow> bool" where
  "versionPart p \<longleftrightarrow> p \<noteq> [] \<and> list_all isDigit p \<and> (length p > 1 \<longrightarrow> hd p \<noteq> CHR ''0'')"

lemma joinWith_splitOn_dot [simp]: "joinWith ''.'' (splitOn CHR ''.'' s) = s"
  by (rule joinWith_splitOn)

lemma canonicalCapabilityVersion_parts:
  assumes "canonicalCapabilityVersion raw = Inr v"
  shows "list_all versionPart (splitOn CHR ''.'' v)" and "length (splitOn CHR ''.'' v) \<le> 4"
proof -
  define v0 where "v0 = TrimSpace (ToLower raw)"
  define d where "d = (case stripPrefix ''v'' v0 of Some r \<Rightarrow> r | None \<Rightarrow> v0)"
  have "capabilityVersionPattern v0" "\<not> list_ex (\<lambda>p. length p > 1 \<and> hd p = CHR ''0'') (splitOn CHR ''.'' d)" "v = d"
    using assms unfolding canonicalCapabilityVersion_def Let_def v0_def [symmetric] d_def [symmetric]
    by (auto split: if_splits)
  then show "list_all versionPart (splitOn CHR ''.'' v)" and "length (splitOn CHR ''.'' v) \<le> 4"
    by (auto simp: capabilityVersionPattern_def Let_def d_def versionPart_def list_all_iff list_ex_iff)
qed

lemma capabilityTail_lowerNum: "list_all isLowerNum w \<Longrightarrow> capabilityTail w"
  by (induction w rule: capabilityTail.induct) auto

lemma separator_not_lowerNum [simp]: "\<not> isLowerNum CHR ''.''" "\<not> isLowerNum CHR ''-''"
  by (simp_all add: charClass_defs)

lemma capabilityTail_append:
  assumes "capabilityTail s" and "sep = CHR ''.'' \<or> sep = CHR ''-''" and "w \<noteq> []" and "list_all isLowerNum w"
  shows "capabilityTail (s @ sep # w)"
  using assms(1)
proof (induction s rule: capabilityTail.induct)
  case 1
  show ?case using assms(2-4) capabilityTail_lowerNum [of "tl w"] by (cases w) auto
next
  case (2 c)
  then show ?case using assms(2-4) capabilityTail_lowerNum [of "tl w"] by (cases w) auto
next
  case (3 c d cs)
  then show ?case by (cases cs) (auto split: if_splits)
qed

lemma isDigit_lowerNum: "isDigit c \<Longrightarrow> isLowerNum c"
  by (simp add: isLowerNum_def)

lemma versionPart_lowerNum: "versionPart p \<Longrightarrow> list_all isLowerNum p"
  unfolding versionPart_def list_all_iff by (auto intro: isDigit_lowerNum)

lemma capabilityID_append:
  "capabilityIDPattern s \<Longrightarrow> sep = CHR ''.'' \<or> sep = CHR ''-'' \<Longrightarrow> w \<noteq> [] \<Longrightarrow> list_all isLowerNum w \<Longrightarrow>
   capabilityIDPattern (s @ sep # w)"
  by (cases s) (auto simp: capabilityIDPattern_def intro: capabilityTail_append)

definition versionID :: "CapabilityID \<Rightarrow> string list \<Rightarrow> CapabilityID" where
  "versionID b ps = b @ ''.v'' @ joinWith ''-'' ps"

lemma versionID_pattern:
  "capabilityIDPattern b \<Longrightarrow> ps \<noteq> [] \<Longrightarrow> list_all versionPart ps \<Longrightarrow> capabilityIDPattern (versionID b ps)"
proof (induction ps rule: rev_induct)
  case (snoc p ps)
  have p: "p \<noteq> []" "list_all isLowerNum p"
    using snoc.prems(3) versionPart_lowerNum [of p] by (simp_all add: versionPart_def)
  show ?case
  proof (cases "ps = []")
    case True
    have "list_all isLowerNum (CHR ''v'' # p)" using p by (simp add: charClass_defs)
    from capabilityID_append [OF snoc.prems(1) _ _ this, of "CHR ''.''"] show ?thesis
      by (simp add: versionID_def True)
  next
    case False
    with snoc have "capabilityIDPattern (versionID b ps)" by simp
    from capabilityID_append [OF this _ p, of "CHR ''-''"] show ?thesis
      using False by (simp add: versionID_def joinWith_snoc)
  qed
qed simp

lemma versionPrefixes_eq:
  assumes "capabilityIDPattern b" and "list_all versionPart parts" and "index + n \<le> length parts"
  shows "versionPrefixes b parts index n = Inr (map (\<lambda>k. versionID b (take (k + 1) parts)) [index..<index + n])"
  using assms(3)
proof (induction n arbitrary: index)
  case (Suc n)
  have "capabilityIDPattern (versionID b (take (index + 1) parts))"
    using assms(1,2) Suc.prems
    by (intro versionID_pattern) (auto simp: list_all_iff dest: in_set_takeD)
  then have "normalizeCapabilityID (b @ ''.v'' @ joinWith ''-'' (take (index + 1) parts)) =
      Inr (versionID b (take (index + 1) parts))"
    unfolding versionID_def by (rule normalizeCapabilityID_fix)
  then show ?case
    using Suc.IH [of "index + 1"] Suc.prems
    by (simp del: upt_Suc add: upt_conv_Cons)
qed simp

lemma VersionCapabilityIDs_Inr:
  assumes "VersionCapabilityIDs base version = Inr ids"
  obtains b v where "normalizeCapabilityID base = Inr b" and "canonicalCapabilityVersion version = Inr v"
    and "capabilityIDPattern b" and "list_all versionPart (splitOn CHR ''.'' v)"
    and "ids = b # map (\<lambda>k. versionID b (take (k + 1) (splitOn CHR ''.'' v))) [0..<length (splitOn CHR ''.'' v)]"
proof -
  obtain b v where b: "normalizeCapabilityID base = Inr b" and v: "canonicalCapabilityVersion version = Inr v"
    using assms by (auto simp: VersionCapabilityIDs_def split: sum.splits)
  have "capabilityIDPattern b" using b by (auto simp: normalizeCapabilityID_def Let_def split: if_splits)
  moreover note parts = canonicalCapabilityVersion_parts(1) [OF v]
  ultimately show thesis
    using that [OF b v] assms b v versionPrefixes_eq [of b "splitOn CHR ''.'' v" 0 "length (splitOn CHR ''.'' v)"]
    by (simp add: VersionCapabilityIDs_def Let_def)
qed

lemma versionPart_no_dash: "versionPart p \<Longrightarrow> CHR ''-'' \<notin> set p"
  by (auto simp: versionPart_def list_all_iff charClass_defs)

lemma versionID_inj:
  assumes "versionID b ps = versionID b qs" and "list_all versionPart ps" and "list_all versionPart qs"
    and "ps \<noteq> []" and "qs \<noteq> []"
  shows "ps = qs"
proof -
  have "joinWith ''-'' ps = joinWith ''-'' qs" using assms(1) by (simp add: versionID_def)
  then have "splitOn CHR ''-'' (joinWith ''-'' ps) = splitOn CHR ''-'' (joinWith ''-'' qs)" by simp
  then show ?thesis
    using assms(2-5) versionPart_no_dash by (simp add: splitOn_joinWith list_all_iff)
qed

lemma VersionRequirement_Inr:
  assumes "VersionRequirement base version = Inr r"
  obtains b v where "normalizeCapabilityID base = Inr b" and "canonicalCapabilityVersion version = Inr v"
    and "list_all versionPart (splitOn CHR ''.'' v)" and "reqID r = versionID b (splitOn CHR ''.'' v)"
proof -
  obtain ids where ids: "VersionCapabilityIDs base version = Inr ids" and r: "reqID r = last ids"
    using assms by (auto simp: VersionRequirement_def split: sum.splits)
  from ids show thesis
  proof (rule VersionCapabilityIDs_Inr)
    fix b v
    define n where "n = length (splitOn CHR ''.'' v) - 1"
    have n: "length (splitOn CHR ''.'' v) = Suc n"
      unfolding n_def by simp
    assume "normalizeCapabilityID base = Inr b" "canonicalCapabilityVersion version = Inr v"
      "list_all versionPart (splitOn CHR ''.'' v)"
      and "ids = b # map (\<lambda>k. versionID b (take (k + 1) (splitOn CHR ''.'' v))) [0..<length (splitOn CHR ''.'' v)]"
    then show thesis using that r by (simp add: n)
  qed
qed

text \<open>
  an observed version satisfies exactly the requirements for its own component
  prefixes. The requirement for version \<open>w\<close> is among the capabilities of an observed
  version \<open>v\<close> of the same tool precisely when the components of \<open>w\<close> are a prefix of
  the components of \<open>v\<close>: 1.26.6 satisfies 1, 1.26 and 1.26.6 and no other version.
\<close>

theorem VersionRequirement_satisfied:
  assumes "VersionCapabilityIDs base v = Inr ids" and "VersionRequirement base w = Inr r"
    and "canonicalCapabilityVersion v = Inr cv" and "canonicalCapabilityVersion w = Inr cw"
  shows "reqID r \<in> set ids \<longleftrightarrow> prefix (splitOn CHR ''.'' cw) (splitOn CHR ''.'' cv)"
proof -
  let ?v = "splitOn CHR ''.'' cv" and ?w = "splitOn CHR ''.'' cw"
  obtain b where b: "normalizeCapabilityID base = Inr b"
    and ids: "ids = b # map (\<lambda>k. versionID b (take (k + 1) ?v)) [0..<length ?v]" and v: "list_all versionPart ?v"
    using VersionCapabilityIDs_Inr [OF assms(1)] assms(3) by (metis Inr_inject)
  have r: "reqID r = versionID b ?w" and w: "list_all versionPart ?w"
    using VersionRequirement_Inr [OF assms(2)] assms(4) b by (metis Inr_inject)+
  have "reqID r \<in> set ids \<longleftrightarrow> (\<exists>k < length ?v. versionID b ?w = versionID b (take (k + 1) ?v))"
    by (auto simp: ids r versionID_def)
  also have "\<dots> \<longleftrightarrow> (\<exists>k < length ?v. ?w = take (k + 1) ?v)"
    using versionID_inj [OF _ w] v by (metis (no_types, lifting) Suc_eq_plus1 append_take_drop_id list_all_append
        splitOn_not_Nil take_eq_Nil nat.distinct(1))
  also have "\<dots> \<longleftrightarrow> prefix ?w ?v"
  proof
    assume "prefix ?w ?v"
    then have "?w = take (length ?w) ?v" and "length ?w \<le> length ?v"
      by (auto simp: prefix_def)
    moreover obtain n where "length ?w = Suc n" by (cases "length ?w") auto
    ultimately show "\<exists>k < length ?v. ?w = take (k + 1) ?v"
      by (intro exI [of _ n]) auto
  qed (auto simp: take_is_prefix)
  finally show ?thesis .
qed

subsection \<open>Examples\<close>

definition goEnvironment :: EnvironmentAttestation where
  "goEnvironment = projr (NewEnvironmentAttestation ''edge-one'' ClassWorkcell 3 \<lparr>csIDs = [''toolchain.go'', ''os.linux'']\<rparr>)"

lemma goEnvironment_new:
  "NewEnvironmentAttestation ''edge-one'' ClassWorkcell 3 \<lparr>csIDs = [''toolchain.go'', ''os.linux'']\<rparr> = Inr goEnvironment"
proof -
  have "TrimSpace ''edge-one'' = ''edge-one''" "identityPattern ''edge-one''" "Tier ClassWorkcell = Some 2"
    "capabilitySetFromIDs [''toolchain.go'', ''os.linux''] = Inr \<lparr>csIDs = [''os.linux'', ''toolchain.go'']\<rparr>"
    by code_simp+
  then show ?thesis by (simp add: goEnvironment_def NewEnvironmentAttestation_def Let_def)
qed

theorem Attestation_roundtrip_witness:
  "\<exists>r. Record_attestation goEnvironment = Inr r \<and> Attestation r = Inr goEnvironment"
  by (rule Attestation_roundtrip [OF goEnvironment_new])

theorem VersionRequirement_satisfied_witness:
  "\<exists>ids r. VersionCapabilityIDs ''Toolchain.Go'' ''v1.26.6'' = Inr ids \<and>
     VersionRequirement ''toolchain.go'' ''1.26'' = Inr r \<and> reqID r \<in> set ids"
proof -
  have v: "VersionCapabilityIDs ''Toolchain.Go'' ''v1.26.6'' =
      Inr [''toolchain.go'', ''toolchain.go.v1'', ''toolchain.go.v1-26'', ''toolchain.go.v1-26-6'']"
    and w: "VersionRequirement ''Toolchain.Go'' ''1.26'' = Inr \<lparr>reqID = ''toolchain.go.v1-26''\<rparr>"
    and w': "VersionRequirement ''toolchain.go'' ''1.26'' = Inr \<lparr>reqID = ''toolchain.go.v1-26''\<rparr>"
    and cv: "canonicalCapabilityVersion ''v1.26.6'' = Inr ''1.26.6''"
    and cw: "canonicalCapabilityVersion ''1.26'' = Inr ''1.26''"
    and "prefix (splitOn CHR ''.'' ''1.26'') (splitOn CHR ''.'' ''1.26.6'')"
    by code_simp+
  with VersionRequirement_satisfied [OF v w cv cw] show ?thesis by blast
qed

theorem Attestation_exact_witness:
  "\<exists>r. Attestation r = Inr goEnvironment \<and> Valid_attestation goEnvironment \<and>
     erCapabilities r = [''os.linux'', ''toolchain.go'']"
proof -
  have "Valid_attestation goEnvironment" by (rule NewEnvironmentAttestation_Inr(1) [OF goEnvironment_new])
  note canon = NewEnvironmentAttestation_Inr(2) [OF goEnvironment_new]
  define r where "r = \<lparr>erEnvironmentID = atEnvironmentID goEnvironment, erClass = atClass goEnvironment,
    erGeneration = atGeneration goEnvironment, erCapabilities = csIDs (atCapabilities goEnvironment), erDigest = atDigest goEnvironment\<rparr>"
  have "Attestation r = Inr goEnvironment"
    using canonicalIDs_set [OF canon] NewEnvironmentAttestation_again [OF \<open>Valid_attestation goEnvironment\<close> canon]
    by (simp add: r_def Attestation_def canonicalCapabilityIDs_def)
  moreover have "canonicalIDs [''os.linux'', ''toolchain.go'']" by code_simp
  then have "csIDs (atCapabilities goEnvironment) = [''os.linux'', ''toolchain.go'']"
    by (rule canonicalIDs_unique [OF canon]) (simp add: NewEnvironmentAttestation_Inr(6) [OF goEnvironment_new] insert_commute)
  ultimately show ?thesis using Attestation_exact [of r goEnvironment] by (intro exI [of _ r]) simp
qed

end
