(* ===== verification/Dev_Resolver.thy ===== *)
theory Dev_Resolver
  imports Dev_Capability "HOL-Library.Multiset"
begin

text \<open>
  \<open>internal/development/resolver.go\<close> and \<open>catalog.go\<close>: the choice of one environment
  for a list of requirements inside the authority policy of an objective, and the
  bounded catalog of current attestations the candidates come from.
\<close>

subsection \<open>Requirement lists\<close>

fun requirementsValid :: "Requirement list \<Rightarrow> bool" where
  "requirementsValid [] = True"
| "requirementsValid (r # rs) = (if \<not> capabilityIDPattern (reqID r) then False else requirementsValid rs)"

definition normalizeRequirementList :: "Requirement list \<Rightarrow> devError + Requirement list" where
  "normalizeRequirementList requirements =
     (if \<not> requirementsValid requirements then fail ''development capability requirement is invalid''
      else
        case capabilitySetFromIDs (map reqID requirements) of
          Inl e \<Rightarrow> Inl e
        | Inr s \<Rightarrow> Inr (map (\<lambda>i. \<lparr>reqID = i\<rparr>) (csIDs s)))"

definition requirementIDs :: "Requirement list \<Rightarrow> CapabilityID list" where
  "requirementIDs requirements = map reqID requirements"

definition sameRequirements :: "Requirement list \<Rightarrow> Requirement list \<Rightarrow> bool" where
  "sameRequirements left right \<longleftrightarrow>
     length left = length right \<and> list_all (\<lambda>(l, r). reqID l = reqID r) (zip left right)"

subsection \<open>Resolution\<close>

record Resolution =
  rsEnvironment :: EnvironmentAttestation
  rsMigrated :: bool

record resolutionCandidate =
  rcEnvironment :: EnvironmentAttestation
  rcTier :: AuthorityTier
  rcMissing :: "CapabilityID list"

text \<open>The loop over the candidates; \<open>seen\<close> maps an environment to the digest first met.\<close>

fun collectEligible ::
  "Requirement list \<Rightarrow> ResolutionPolicy \<Rightarrow> (string \<rightharpoonup> string) \<Rightarrow> EnvironmentAttestation list \<Rightarrow>
   devError + resolutionCandidate list" where
  "collectEligible normalized policy seen [] = Inr []"
| "collectEligible normalized policy seen (c # cs) =
     (if \<not> Valid_attestation c then fail ''development environment attestation is invalid''
      else
        case seen (atEnvironmentID c) of
          Some digest \<Rightarrow>
            if digest \<noteq> atDigest c then fail ''development environment generation is ambiguous''
            else collectEligible normalized policy seen cs
        | None \<Rightarrow>
            (case collectEligible normalized policy (seen(atEnvironmentID c \<mapsto> atDigest c)) cs of
               Inl e \<Rightarrow> Inl e
             | Inr eligible \<Rightarrow>
                if \<not> Allows policy c then Inr eligible
                else Inr (\<lparr>rcEnvironment = c, rcTier = the (Tier (atClass c)),
                           rcMissing = Missing (atCapabilities c) normalized\<rparr> # eligible)))"

text \<open>The order of the candidates: what is missing, then authority, then the two names.\<close>

definition resolutionKey :: "resolutionCandidate \<Rightarrow> nat \<times> nat \<times> string \<times> string" where
  "resolutionKey c =
     (length (rcMissing c), rcTier c, atClass (rcEnvironment c), atEnvironmentID (rcEnvironment c))"

definition Resolve ::
  "Requirement list \<Rightarrow> EnvironmentAttestation option \<Rightarrow> EnvironmentAttestation list \<Rightarrow> ResolutionPolicy \<Rightarrow>
   devError + Resolution" where
  "Resolve requirements current candidates policy =
     (if \<not> valid_policy policy then fail ''development resolution policy is invalid''
      else
        case normalizeRequirementList requirements of
          Inl e \<Rightarrow> Inl e
        | Inr normalized \<Rightarrow>
           if current \<noteq> None \<and> \<not> Valid_attestation (the current) then
             fail ''current development environment attestation is invalid''
           else if current \<noteq> None \<and> Allows policy (the current) \<and>
               length (Missing (atCapabilities (the current)) normalized) = 0 then
             Inr \<lparr>rsEnvironment = the current, rsMigrated = False\<rparr>
           else
             case collectEligible normalized policy Map.empty candidates of
               Inl e \<Rightarrow> Inl e
             | Inr eligible \<Rightarrow>
                (case sort_key resolutionKey eligible of
                   [] \<Rightarrow> Inl (ResolutionError ResolutionFailurePolicy (requirementIDs normalized))
                 | best # _ \<Rightarrow>
                    if length (rcMissing best) \<noteq> 0 then
                      Inl (ResolutionError ResolutionFailureCapabilities (rcMissing best))
                    else Inr \<lparr>rsEnvironment = rcEnvironment best,
                              rsMigrated = (current \<noteq> None \<and> atDigest (the current) \<noteq> atDigest (rcEnvironment best))\<rparr>))"

subsection \<open>The environment catalog\<close>

definition MaxEnvironmentCatalogEntries :: nat where "MaxEnvironmentCatalogEntries = 64"

definition environmentCatalogDigestDomain :: string where
  "environmentCatalogDigestDomain = ''aeontra-development-environment-catalog-v1'' @ [CHR 0x00]"

record EnvironmentCatalog =
  ecEnvironments :: "EnvironmentAttestation list"
  ecDigest :: string

definition environmentCatalogDigest :: "EnvironmentAttestation list \<Rightarrow> string" where
  "environmentCatalogDigest environments =
     sha256Digest (environmentCatalogDigestDomain @
       concat (map (\<lambda>e. atEnvironmentID e @ [CHR 0x00] @ atDigest e @ [CHR 0x00]) environments))"

fun checkCatalog :: "string list \<Rightarrow> EnvironmentAttestation list \<Rightarrow> devError option" where
  "checkCatalog identities [] = None"
| "checkCatalog identities (e # es) =
     (if \<not> Valid_attestation e then Some (Err ''development environment catalog contains invalid attestation'')
      else if atEnvironmentID e \<in> set identities then Some (Err ''development environment catalog has ambiguous identity'')
      else checkCatalog (atEnvironmentID e # identities) es)"

definition catalogKey :: "EnvironmentAttestation \<Rightarrow> nat \<times> string \<times> string \<times> string" where
  "catalogKey e = (the (Tier (atClass e)), atClass e, atEnvironmentID e, atDigest e)"

definition NewEnvironmentCatalog :: "EnvironmentAttestation list \<Rightarrow> devError + EnvironmentCatalog" where
  "NewEnvironmentCatalog environments =
     (if length environments = 0 \<or> length environments > MaxEnvironmentCatalogEntries then
        fail ''development environment catalog is invalid''
      else
        case checkCatalog [] environments of
          Some e \<Rightarrow> Inl e
        | None \<Rightarrow>
           let canonical = sort_key catalogKey environments
           in Inr \<lparr>ecEnvironments = canonical, ecDigest = environmentCatalogDigest canonical\<rparr>)"

definition Valid_catalog :: "EnvironmentCatalog \<Rightarrow> bool" where
  "Valid_catalog catalog \<longleftrightarrow>
     length (ecEnvironments catalog) \<noteq> 0 \<and> length (ecEnvironments catalog) \<le> MaxEnvironmentCatalogEntries \<and>
     ecDigest catalog \<noteq> [] \<and>
     (case NewEnvironmentCatalog (ecEnvironments catalog) of
        Inl e \<Rightarrow> False
      | Inr rebuilt \<Rightarrow> ecDigest rebuilt = ecDigest catalog)"

definition FindDigest :: "EnvironmentCatalog \<Rightarrow> string \<Rightarrow> EnvironmentAttestation option" where
  "FindDigest catalog digest =
     (if \<not> Valid_catalog catalog then None
      else find (\<lambda>e. atDigest e = digest) (ecEnvironments catalog))"

subsection \<open>Facts about requirement lists\<close>

lemma requirementsValid_iff: "requirementsValid rs \<longleftrightarrow> list_all (\<lambda>r. capabilityIDPattern (reqID r)) rs"
  by (induction rs) auto

lemma sameRequirements_eq [simp]: "sameRequirements l r \<longleftrightarrow> l = r"
proof -
  have "sameRequirements l r \<longleftrightarrow> list_all2 (\<lambda>a b. reqID a = reqID b) l r"
    by (simp add: sameRequirements_def list_all2_iff list_all_iff)
  also have "(\<lambda>a b :: Requirement. reqID a = reqID b) = (=)" by (intro ext) auto
  finally show ?thesis by (simp add: list.rel_eq)
qed

lemma normalizeRequirementList_eq:
  "normalizeRequirementList rs =
     (if list_all (\<lambda>r. capabilityIDPattern (reqID r)) rs
      then Inr (map (\<lambda>i. \<lparr>reqID = i\<rparr>) (sorted_list_of_set (reqID ` set rs)))
      else fail ''development capability requirement is invalid'')"
  by (auto simp: normalizeRequirementList_def requirementsValid_iff capabilitySetFromIDs_eq list_all_iff)

definition canonicalRequirements :: "Requirement list \<Rightarrow> bool" where
  "canonicalRequirements rs \<longleftrightarrow> canonicalIDs (map reqID rs)"

lemma canonicalRequirements_iff: "canonicalRequirements rs \<longleftrightarrow> normalizeRequirementList rs = Inr rs"
proof
  assume "canonicalRequirements rs"
  then have "list_all (\<lambda>r. capabilityIDPattern (reqID r)) rs" and "sorted_list_of_set (set (map reqID rs)) = map reqID rs"
    using sorted_list_of_set.idem_if_sorted_distinct [of "map reqID rs"]
    by (simp_all add: canonicalRequirements_def canonicalIDs_def list.pred_map comp_def)
  then show "normalizeRequirementList rs = Inr rs"
    by (auto simp: normalizeRequirementList_eq comp_def intro!: map_idI)
next
  assume n: "normalizeRequirementList rs = Inr rs"
  then have "rs = map (\<lambda>i. \<lparr>reqID = i\<rparr>) (sorted_list_of_set (reqID ` set rs))"
    and p: "list_all (\<lambda>r. capabilityIDPattern (reqID r)) rs"
    by (auto simp: normalizeRequirementList_eq split: if_splits)
  from arg_cong [OF this(1), of "map reqID"] have "map reqID rs = sorted_list_of_set (reqID ` set rs)"
    by (simp add: comp_def)
  then show "canonicalRequirements rs"
    using p unfolding canonicalRequirements_def canonicalIDs_def
    by (metis list.pred_map comp_def list_all_cong sorted_list_of_set.sorted_sorted_key_list_of_set
        sorted_list_of_set.distinct_sorted_key_list_of_set)
qed

lemma normalizeRequirementList_Inr:
  assumes "normalizeRequirementList rs = Inr ns"
  shows "set (map reqID ns) = set (map reqID rs)" and "canonicalRequirements ns"
  using assms
  by (auto simp: normalizeRequirementList_eq canonicalRequirements_def canonicalIDs_def comp_def list_all_iff image_image
      split: if_splits)

subsection \<open>Facts about resolution\<close>

lemma collectEligible_Inr:
  "collectEligible ns p seen cs = Inr es \<Longrightarrow>
   set es \<subseteq> {\<lparr>rcEnvironment = c, rcTier = the (Tier (atClass c)), rcMissing = Missing (atCapabilities c) ns\<rparr> | c.
      c \<in> set cs \<and> Allows p c}"
  by (induction ns p seen cs arbitrary: es rule: collectEligible.induct)
    (auto split: if_splits option.splits sum.splits, blast+)

lemma collectEligible_distinct:
  "list_all Valid_attestation cs \<Longrightarrow> distinct (map atEnvironmentID cs) \<Longrightarrow>
   (\<forall>c \<in> set cs. seen (atEnvironmentID c) = None) \<Longrightarrow>
   collectEligible ns p seen cs =
     Inr (map (\<lambda>c. \<lparr>rcEnvironment = c, rcTier = the (Tier (atClass c)), rcMissing = Missing (atCapabilities c) ns\<rparr>)
            (filter (Allows p) cs))"
proof (induction cs arbitrary: seen)
  case (Cons c cs)
  then have "\<forall>d \<in> set cs. (seen(atEnvironmentID c \<mapsto> atDigest c)) (atEnvironmentID d) = None"
    by (auto simp: image_iff)
  from Cons.IH [OF _ _ this] Cons.prems(1,2)
  have IH: "collectEligible ns p (seen(atEnvironmentID c \<mapsto> atDigest c)) cs =
      Inr (map (\<lambda>c. \<lparr>rcEnvironment = c, rcTier = the (Tier (atClass c)), rcMissing = Missing (atCapabilities c) ns\<rparr>)
            (filter (Allows p) cs))" by (simp add: fun_upd_def)
  from Cons.prems show ?case by (simp add: IH)
qed simp

lemma sort_key_head_least:
  "sort_key f xs = y # ys \<Longrightarrow> y \<in> set xs \<and> (\<forall>x \<in> set xs. f y \<le> f x)"
  using sorted_sort_key [of f xs] set_sort [of f xs]
  by (auto simp del: set_sort)

text \<open>What \<open>Resolve\<close> computes from candidates with distinct identities, as a catalog has them.\<close>

definition satisfying :: "ResolutionPolicy \<Rightarrow> Requirement list \<Rightarrow> EnvironmentAttestation \<Rightarrow> bool" where
  "satisfying p rs c \<longleftrightarrow> Allows p c \<and> reqID ` set rs \<subseteq> set (csIDs (atCapabilities c))"

lemma Missing_satisfying:
  assumes "normalizeRequirementList rs = Inr ns"
  shows "Missing s ns = [] \<Longrightarrow> reqID ` set rs \<subseteq> set (csIDs s)"
    and "canonicalIDs (csIDs s) \<Longrightarrow> reqID ` set rs \<subseteq> set (csIDs s) \<Longrightarrow> Missing s ns = []"
proof -
  have ns: "reqID ` set ns = reqID ` set rs" using normalizeRequirementList_Inr(1) [OF assms] by simp
  show "Missing s ns = [] \<Longrightarrow> reqID ` set rs \<subseteq> set (csIDs s)"
    unfolding ns [symmetric] Missing_empty by (auto intro: Has_member)
  assume canon: "canonicalIDs (csIDs s)" and sub: "reqID ` set rs \<subseteq> set (csIDs s)"
  show "Missing s ns = []"
    unfolding Missing_empty
  proof
    fix r assume "r \<in> set ns"
    then have "reqID r \<in> set (csIDs s)" using ns sub by blast
    then show "Has s (reqID r)"
      using canon by (auto simp: Has_iff canonicalIDs_def list_all_iff)
  qed
qed

text \<open>The three ways a resolution can end well, and what each of them means.\<close>

lemma Resolve_Inr:
  assumes "Resolve rs current cs p = Inr res"
  obtains ns where "valid_policy p" and "normalizeRequirementList rs = Inr ns"
    and "current = Some (rsEnvironment res) \<and> Allows p (rsEnvironment res) \<and>
      Missing (atCapabilities (rsEnvironment res)) ns = [] \<and> \<not> rsMigrated res \<or>
      rsEnvironment res \<in> set cs \<and> Allows p (rsEnvironment res) \<and> Missing (atCapabilities (rsEnvironment res)) ns = []"
proof -
  obtain ns where p: "valid_policy p" and ns: "normalizeRequirementList rs = Inr ns"
    using assms by (auto simp: Resolve_def split: if_splits sum.splits)
  show thesis
  proof (cases "current \<noteq> None \<and> Allows p (the current) \<and> length (Missing (atCapabilities (the current)) ns) = 0")
    case True
    then have "res = \<lparr>rsEnvironment = the current, rsMigrated = False\<rparr>"
      using assms p ns by (simp add: Resolve_def split: if_splits)
    with True p ns that show thesis by auto
  next
    case False
    then obtain es best bs where es: "collectEligible ns p Map.empty cs = Inr es" "sort_key resolutionKey es = best # bs"
      "rcMissing best = []" "rsEnvironment res = rcEnvironment best"
      using assms p ns by (auto simp: Resolve_def split: if_splits sum.splits list.splits)
    have "best \<in> set es" using sort_key_head_least [OF es(2)] by simp
    with collectEligible_Inr [OF es(1)] es(3,4) that p ns show thesis by auto
  qed
qed

text \<open>
  C38: resolution never exceeds authority and never combines environments. The chosen
  environment is the current one or one of the candidates, its attestation is valid, its
  class is in the allow-list of the policy and at most at its tier, and this one
  environment holds every required capability.
\<close>

theorem Resolve_sound:
  assumes "Resolve rs current cs p = Inr res"
  shows "(current = Some (rsEnvironment res) \<or> rsEnvironment res \<in> set cs) \<and>
    Valid_attestation (rsEnvironment res) \<and> atClass (rsEnvironment res) \<in> set (rpAllowed p) \<and>
    the (Tier (atClass (rsEnvironment res))) \<le> rpMaxTier p \<and>
    reqID ` set rs \<subseteq> set (csIDs (atCapabilities (rsEnvironment res)))"
  using assms
proof (rule Resolve_Inr)
  fix ns
  assume p: "valid_policy p" and ns: "normalizeRequirementList rs = Inr ns"
    and "current = Some (rsEnvironment res) \<and> Allows p (rsEnvironment res) \<and>
      Missing (atCapabilities (rsEnvironment res)) ns = [] \<and> \<not> rsMigrated res \<or>
      rsEnvironment res \<in> set cs \<and> Allows p (rsEnvironment res) \<and> Missing (atCapabilities (rsEnvironment res)) ns = []"
  then have "Allows p (rsEnvironment res)" "Missing (atCapabilities (rsEnvironment res)) ns = []"
    and "current = Some (rsEnvironment res) \<or> rsEnvironment res \<in> set cs" by auto
  with Missing_satisfying(1) [OF ns] Allows_iff [OF p] show ?thesis
    by (auto simp: Allows_def)
qed

text \<open>Resolution among the candidates: without a current environment, or with one that does not suffice.\<close>

lemma Resolve_candidates:
  assumes "valid_policy p" and "normalizeRequirementList rs = Inr ns"
    and "list_all Valid_attestation cs" and "distinct (map atEnvironmentID cs)"
    and "\<forall>c \<in> set cs. canonicalIDs (csIDs (atCapabilities c))"
    and "\<forall>e. current = Some e \<longrightarrow> Valid_attestation e \<and> \<not> satisfying p rs e"
    and "c \<in> set cs" and "satisfying p rs c"
  obtains res where "Resolve rs current cs p = Inr res" and "rsEnvironment res \<in> set cs"
    and "the (Tier (atClass (rsEnvironment res))) \<le> the (Tier (atClass c))"
    and "rsMigrated res \<longleftrightarrow> (\<exists>e. current = Some e \<and> atDigest e \<noteq> atDigest (rsEnvironment res))"
proof -
  define mk where "mk c = \<lparr>rcEnvironment = c, rcTier = the (Tier (atClass c)), rcMissing = Missing (atCapabilities c) ns\<rparr>" for c
  have es: "collectEligible ns p Map.empty cs = Inr (map mk (filter (Allows p) cs))"
    using collectEligible_distinct [OF assms(3,4)] by (simp add: mk_def)
  have c: "mk c \<in> set (map mk (filter (Allows p) cs))" "rcMissing (mk c) = []"
    using assms(7,8) Missing_satisfying(2) [OF assms(2)] assms(5) by (auto simp: mk_def satisfying_def)
  then obtain best bs where best: "sort_key resolutionKey (map mk (filter (Allows p) cs)) = best # bs"
    by (metis neq_Nil_conv set_empty2 set_sort empty_iff)
  have least: "best \<in> set (map mk (filter (Allows p) cs))" "resolutionKey best \<le> resolutionKey (mk c)"
    using sort_key_head_least [OF best] c(1) by blast+
  then have "rcMissing best = []" "rcTier best \<le> rcTier (mk c)"
    using c(2) by (auto simp: resolutionKey_def less_eq_prod_def)
  moreover obtain b where "best = mk b" "b \<in> set cs" using least(1) by auto
  moreover have "\<not> (current \<noteq> None \<and> \<not> Valid_attestation (the current))"
    and "\<not> (current \<noteq> None \<and> Allows p (the current) \<and> length (Missing (atCapabilities (the current)) ns) = 0)"
    using assms(6) Missing_satisfying(1) [OF assms(2)] by (cases current; auto simp: satisfying_def)+
  ultimately show thesis
    using that [of "\<lparr>rsEnvironment = b, rsMigrated = (current \<noteq> None \<and> atDigest (the current) \<noteq> atDigest b)\<rparr>"] assms(1,2) es best
    by (cases current; cases "Allows p (the current)"; simp add: Resolve_def mk_def)
qed

lemma Resolve_current:
  assumes "valid_policy p" and "normalizeRequirementList rs = Inr ns"
    and "Valid_attestation e" and "canonicalIDs (csIDs (atCapabilities e))" and "satisfying p rs e"
  shows "Resolve rs (Some e) cs p = Inr \<lparr>rsEnvironment = e, rsMigrated = False\<rparr>"
  using assms Missing_satisfying(2) [OF assms(2,4)] by (simp add: Resolve_def satisfying_def)

text \<open>
  C37: resolution finds the lowest authority that suffices, unless the current environment
  suffices. Take candidates as a catalog has them, with valid attestations, canonical
  capabilities and distinct identifiers, of which some one is allowed and holds every required
  capability, and a current environment, if any, that is valid and canonical. Then \<open>Resolve\<close> succeeds. A current environment that is allowed and holds
  the capabilities is returned as it is, whatever its tier. Without a current
  environment, or with one that does not suffice, the result is a candidate that
  suffices, no such candidate has a lower authority tier, and the result counts as a
  migration exactly if there is a current environment with another digest.
\<close>

theorem Resolve_lowest_authority:
  assumes "valid_policy p" and "list_all (\<lambda>r. capabilityIDPattern (reqID r)) rs"
    and "list_all Valid_attestation cs" and "distinct (map atEnvironmentID cs)"
    and "list_all (\<lambda>c. canonicalIDs (csIDs (atCapabilities c))) cs"
    and "\<exists>c \<in> set cs. satisfying p rs c"
    and "pred_option (\<lambda>e. Valid_attestation e \<and> canonicalIDs (csIDs (atCapabilities e))) current"
  shows "\<exists>res. Resolve rs current cs p = Inr res \<and> satisfying p rs (rsEnvironment res) \<and>
    (if \<exists>e. current = Some e \<and> satisfying p rs e
     then current = Some (rsEnvironment res) \<and> \<not> rsMigrated res
     else rsEnvironment res \<in> set cs \<and>
       (\<forall>c \<in> set cs. satisfying p rs c \<longrightarrow> the (Tier (atClass (rsEnvironment res))) \<le> the (Tier (atClass c))) \<and>
       (rsMigrated res \<longleftrightarrow> (\<exists>e. current = Some e \<and> atDigest e \<noteq> atDigest (rsEnvironment res))))"
proof -
  obtain ns where ns: "normalizeRequirementList rs = Inr ns"
    using assms(2) by (simp add: normalizeRequirementList_eq)
  have canon: "\<forall>c \<in> set cs. canonicalIDs (csIDs (atCapabilities c))" using assms(5) by (simp add: list_all_iff)
  show ?thesis
  proof (cases "\<exists>e. current = Some e \<and> satisfying p rs e")
    case True
    then show ?thesis using Resolve_current [OF assms(1) ns] assms(7) by auto
  next
    case False
    then have current: "\<forall>e. current = Some e \<longrightarrow> Valid_attestation e \<and> \<not> satisfying p rs e" using assms(7) by auto
    note find = Resolve_candidates [OF assms(1) ns assms(3,4) canon current]
    obtain c where c: "c \<in> set cs" "satisfying p rs c" using assms(6) by blast
    obtain res where res: "Resolve rs current cs p = Inr res" "rsEnvironment res \<in> set cs"
      "rsMigrated res \<longleftrightarrow> (\<exists>e. current = Some e \<and> atDigest e \<noteq> atDigest (rsEnvironment res))"
      by (rule find [OF c])
    have "satisfying p rs (rsEnvironment res)"
      using res(1) by (rule Resolve_Inr) (auto simp: satisfying_def dest: Missing_satisfying(1))
    moreover have "the (Tier (atClass (rsEnvironment res))) \<le> the (Tier (atClass d))"
      if "d \<in> set cs" "satisfying p rs d" for d
      using find [OF that] res(1) by (metis Inr_inject)
    ultimately show ?thesis using res False by auto
  qed
qed

subsection \<open>Facts about catalogs\<close>

lemma checkCatalog_None:
  "checkCatalog ids es = None \<longleftrightarrow>
     list_all Valid_attestation es \<and> distinct (map atEnvironmentID es) \<and> set ids \<inter> atEnvironmentID ` set es = {}"
  by (induction ids es rule: checkCatalog.induct) auto

lemma NewEnvironmentCatalog_Inr:
  assumes "NewEnvironmentCatalog es = Inr c"
  shows "ecEnvironments c = sort_key catalogKey es" and "ecDigest c = environmentCatalogDigest (ecEnvironments c)"
    and "list_all Valid_attestation es" and "distinct (map atEnvironmentID es)"
    and "es \<noteq> []" and "length es \<le> MaxEnvironmentCatalogEntries"
  using assms by (auto simp: NewEnvironmentCatalog_def Let_def checkCatalog_None split: if_splits option.splits)

lemma NewEnvironmentCatalog_valid:
  assumes "NewEnvironmentCatalog es = Inr c"
  shows "NewEnvironmentCatalog (ecEnvironments c) = Inr c" and "Valid_catalog c"
proof -
  note new = NewEnvironmentCatalog_Inr [OF assms]
  have set: "set (ecEnvironments c) = set es" "length (ecEnvironments c) = length es" by (simp_all add: new(1))
  have "mset (map atEnvironmentID (ecEnvironments c)) = mset (map atEnvironmentID es)" by (simp add: new(1))
  then have "distinct (map atEnvironmentID (ecEnvironments c))"
    using new(4) by (metis mset_eq_imp_distinct_iff)
  then have "checkCatalog [] (ecEnvironments c) = None"
    using new(3) set by (simp add: checkCatalog_None list_all_iff)
  moreover have "sort_key catalogKey (ecEnvironments c) = ecEnvironments c"
    unfolding new(1) by (simp add: sort_key_id_if_sorted)
  ultimately show again: "NewEnvironmentCatalog (ecEnvironments c) = Inr c"
    using new set by (auto simp: NewEnvironmentCatalog_def Let_def)
  show "Valid_catalog c"
    using again new set by (auto simp: Valid_catalog_def environmentCatalogDigest_def)
qed

text \<open>
  a catalog does not depend on the order its source lists the environments in. Two
  lists with the same environments give the same catalog, digest included, and the
  catalog is valid.
\<close>

theorem NewEnvironmentCatalog_canonical:
  assumes "NewEnvironmentCatalog es = Inr c" and "mset es' = mset es"
  shows "NewEnvironmentCatalog es' = Inr c \<and> Valid_catalog c"
proof -
  note new = NewEnvironmentCatalog_Inr [OF assms(1)]
  have same: "set es' = set es" "length es' = length es"
    using assms(2) by (metis mset_eq_setD, metis mset_eq_length)
  have distinct: "distinct (map atEnvironmentID es')"
    using new(4) assms(2) by (metis mset_eq_imp_distinct_iff mset_map)
  have inj: "inj_on catalogKey (set es)"
    using new(4) by (auto simp: catalogKey_def inj_on_def distinct_map)
  have "sort_key catalogKey es' = sort_key catalogKey es"
    by (rule sort_key_inj_key_eq) (simp_all add: assms(2) inj same)
  moreover have "checkCatalog [] es' = None"
    using new(3) same distinct by (simp add: checkCatalog_None list_all_iff)
  ultimately show ?thesis
    using new(1,2,5,6) same NewEnvironmentCatalog_valid(2) [OF assms(1)]
    by (simp add: NewEnvironmentCatalog_def Let_def)
qed

subsection \<open>Examples\<close>

definition exampleEnvironment :: "string \<Rightarrow> ExecutionClass \<Rightarrow> EnvironmentAttestation" where
  "exampleEnvironment i c = projr (NewEnvironmentAttestation i c 1 \<lparr>csIDs = [''os.linux'', ''toolchain.go'']\<rparr>)"

definition examplePolicy :: ResolutionPolicy where
  "examplePolicy = \<lparr>rpMaxTier = TierToolbox, rpAllowed = [ClassToolbox, ClassWorkcell]\<rparr>"

lemma examplePolicy_valid: "valid_policy examplePolicy"
  by code_simp

lemma exampleEnvironment_new:
  assumes "identityPattern i" and "Tier c \<noteq> None"
  shows "NewEnvironmentAttestation i c 1 \<lparr>csIDs = [''os.linux'', ''toolchain.go'']\<rparr> = Inr (exampleEnvironment i c)"
proof -
  have "capabilitySetFromIDs [''os.linux'', ''toolchain.go''] = Inr \<lparr>csIDs = [''os.linux'', ''toolchain.go'']\<rparr>"
    by code_simp
  then show ?thesis using assms by (simp add: exampleEnvironment_def NewEnvironmentAttestation_def Let_def)
qed

lemma exampleEnvironment_facts:
  assumes "identityPattern i" and "Tier c \<noteq> None"
  shows "Valid_attestation (exampleEnvironment i c)" "atClass (exampleEnvironment i c) = c"
    "atEnvironmentID (exampleEnvironment i c) = i"
    "canonicalIDs (csIDs (atCapabilities (exampleEnvironment i c)))"
    "csIDs (atCapabilities (exampleEnvironment i c)) = [''os.linux'', ''toolchain.go'']"
proof -
  note new = NewEnvironmentAttestation_Inr [OF exampleEnvironment_new [OF assms]]
  show "Valid_attestation (exampleEnvironment i c)" "atClass (exampleEnvironment i c) = c"
    "atEnvironmentID (exampleEnvironment i c) = i"
    and canon: "canonicalIDs (csIDs (atCapabilities (exampleEnvironment i c)))"
    using new(1-4) assms by simp_all
  have "canonicalIDs [''os.linux'', ''toolchain.go'']" by code_simp
  from canonicalIDs_unique [OF canon this] new(6)
  show "csIDs (atCapabilities (exampleEnvironment i c)) = [''os.linux'', ''toolchain.go'']" by simp
qed

definition boxEnvironment :: EnvironmentAttestation where
  "boxEnvironment = exampleEnvironment ''edge-box'' ClassToolbox"
definition cellEnvironment :: EnvironmentAttestation where
  "cellEnvironment = exampleEnvironment ''edge-cell'' ClassWorkcell"

lemma example_classes:
  "identityPattern ''edge-box''" "identityPattern ''edge-cell''" "Tier ClassToolbox = Some 4" "Tier ClassWorkcell = Some 2"
  by code_simp+

lemmas boxEnvironment_facts =
  exampleEnvironment_facts [of "''edge-box''" ClassToolbox, folded boxEnvironment_def, simplified example_classes, simplified]
lemmas cellEnvironment_facts =
  exampleEnvironment_facts [of "''edge-cell''" ClassWorkcell, folded cellEnvironment_def, simplified example_classes, simplified]

theorem Resolve_lowest_authority_witness:
  "(\<exists>res. Resolve [\<lparr>reqID = ''toolchain.go''\<rparr>] None [boxEnvironment, cellEnvironment] examplePolicy = Inr res \<and>
      the (Tier (atClass (rsEnvironment res))) \<le> TierWorkcell) \<and>
   (\<exists>res. Resolve [\<lparr>reqID = ''toolchain.go''\<rparr>] (Some boxEnvironment) [cellEnvironment] examplePolicy = Inr res \<and>
      rsEnvironment res = boxEnvironment) \<and> TierWorkcell < the (Tier (atClass boxEnvironment))"
proof -
  have cls: "ClassToolbox \<in> set (rpAllowed examplePolicy)" "ClassWorkcell \<in> set (rpAllowed examplePolicy)"
    by (simp_all add: examplePolicy_def)
  have sat: "satisfying examplePolicy [\<lparr>reqID = ''toolchain.go''\<rparr>] cellEnvironment"
    "satisfying examplePolicy [\<lparr>reqID = ''toolchain.go''\<rparr>] boxEnvironment"
    using cellEnvironment_facts boxEnvironment_facts cls by (simp_all add: satisfying_def Allows_iff [OF examplePolicy_valid])
  have "capabilityIDPattern ''toolchain.go''" by code_simp
  then have req: "list_all (\<lambda>r. capabilityIDPattern (reqID r)) [\<lparr>reqID = ''toolchain.go''\<rparr>]" by simp
  note lowest = Resolve_lowest_authority [OF examplePolicy_valid req]
  from lowest [of "[boxEnvironment, cellEnvironment]" None] sat boxEnvironment_facts cellEnvironment_facts
  obtain res where "Resolve [\<lparr>reqID = ''toolchain.go''\<rparr>] None [boxEnvironment, cellEnvironment] examplePolicy = Inr res"
    "the (Tier (atClass (rsEnvironment res))) \<le> the (Tier (atClass cellEnvironment))" by auto
  moreover from lowest [of "[cellEnvironment]" "Some boxEnvironment"] sat boxEnvironment_facts cellEnvironment_facts
  have "\<exists>res. Resolve [\<lparr>reqID = ''toolchain.go''\<rparr>] (Some boxEnvironment) [cellEnvironment] examplePolicy = Inr res \<and>
    rsEnvironment res = boxEnvironment" by auto
  ultimately show ?thesis
    by (auto simp: cellEnvironment_facts boxEnvironment_facts example_classes TierWorkcell_def)
qed

lemma example_resolution:
  "Resolve [\<lparr>reqID = ''toolchain.go''\<rparr>] (Some boxEnvironment) [] examplePolicy =
     Inr \<lparr>rsEnvironment = boxEnvironment, rsMigrated = False\<rparr>"
proof -
  have "normalizeRequirementList [\<lparr>reqID = ''toolchain.go''\<rparr>] = Inr [\<lparr>reqID = ''toolchain.go''\<rparr>]" by code_simp
  moreover have eq: "atCapabilities boxEnvironment = \<lparr>csIDs = [''os.linux'', ''toolchain.go'']\<rparr>"
    using boxEnvironment_facts(5) by (cases "atCapabilities boxEnvironment") simp
  have "Missing (atCapabilities boxEnvironment) [\<lparr>reqID = ''toolchain.go''\<rparr>] = []" unfolding eq by code_simp
  ultimately show ?thesis
    using boxEnvironment_facts
    by (simp add: Resolve_def examplePolicy_valid Allows_iff [OF examplePolicy_valid]) (simp add: examplePolicy_def)
qed

theorem Resolve_sound_witness:
  "Valid_attestation boxEnvironment \<and> the (Tier (atClass boxEnvironment)) \<le> rpMaxTier examplePolicy \<and>
   ''toolchain.go'' \<in> set (csIDs (atCapabilities boxEnvironment))"
  using Resolve_sound [OF example_resolution] by simp

theorem NewEnvironmentCatalog_canonical_witness:
  "\<exists>c. NewEnvironmentCatalog [boxEnvironment, cellEnvironment] = Inr c \<and>
     NewEnvironmentCatalog [cellEnvironment, boxEnvironment] = Inr c \<and> Valid_catalog c"
proof -
  obtain c where c: "NewEnvironmentCatalog [boxEnvironment, cellEnvironment] = Inr c"
    using boxEnvironment_facts cellEnvironment_facts
    by (auto simp: NewEnvironmentCatalog_def MaxEnvironmentCatalogEntries_def Let_def checkCatalog_None)
  show ?thesis
    using NewEnvironmentCatalog_canonical [OF c, of "[cellEnvironment, boxEnvironment]"] c by simp
qed

end
