(* ===== verification/Dev_Attempt.thy ===== *)
theory Dev_Attempt
  imports Dev_Resolver
begin

text \<open>
  \<open>internal/development/attempt.go\<close>: one attempt to execute a step, its state machine,
  the classification of failures and the only legal continuation of a failed attempt.
\<close>

subsection \<open>Failures\<close>

datatype FailureClass =
    NoFailure
  | FailureCode | FailureCapabilityMissing | FailureCapabilityDrift | FailureDependencyMissing
  | FailureServiceUnavailable | FailureKernelSemantics | FailureCIContract | FailureFilesystemMapping
  | FailurePlatformMismatch | FailureExternalTransient | FailurePolicyDenied | FailureReconciliationNeeded
  | OtherFailure string

datatype ContinuationAction =
    ActionFixCode | ActionProvisionOrMigrate | ActionRetrySameEnvironment | ActionStopPolicy | ActionReconcile

fun ContinuationForFailure :: "FailureClass \<Rightarrow> ContinuationAction option" where
  "ContinuationForFailure FailureCode = Some ActionFixCode"
| "ContinuationForFailure FailureCapabilityMissing = Some ActionProvisionOrMigrate"
| "ContinuationForFailure FailureCapabilityDrift = Some ActionProvisionOrMigrate"
| "ContinuationForFailure FailureDependencyMissing = Some ActionProvisionOrMigrate"
| "ContinuationForFailure FailureServiceUnavailable = Some ActionProvisionOrMigrate"
| "ContinuationForFailure FailureKernelSemantics = Some ActionProvisionOrMigrate"
| "ContinuationForFailure FailureCIContract = Some ActionProvisionOrMigrate"
| "ContinuationForFailure FailureFilesystemMapping = Some ActionProvisionOrMigrate"
| "ContinuationForFailure FailurePlatformMismatch = Some ActionProvisionOrMigrate"
| "ContinuationForFailure FailureExternalTransient = Some ActionRetrySameEnvironment"
| "ContinuationForFailure FailurePolicyDenied = Some ActionStopPolicy"
| "ContinuationForFailure FailureReconciliationNeeded = Some ActionReconcile"
| "ContinuationForFailure NoFailure = None"
| "ContinuationForFailure (OtherFailure s) = None"

definition preflightFailureAllowed :: "FailureClass \<Rightarrow> bool" where
  "preflightFailureAllowed class =
     (case ContinuationForFailure class of
        None \<Rightarrow> False
      | Some action \<Rightarrow> action = ActionProvisionOrMigrate \<or> action = ActionStopPolicy \<or> action = ActionReconcile)"

subsection \<open>Attempts\<close>

datatype AttemptState =
    AttemptPlanned | AttemptRunning | AttemptSucceeded | AttemptFailed | AttemptCancelled | OtherAttemptState string

record ExecutionAttempt =
  eaAttemptID :: string
  eaStepID :: string
  eaParentAttemptID :: string
  eaSourceDigest :: string
  eaEnvironmentID :: string
  eaEnvironmentDigest :: string
  eaEnvironmentGeneration :: uint64
  eaClass :: ExecutionClass
  eaTier :: AuthorityTier
  eaState :: AttemptState
  eaFailure :: FailureClass

text \<open>\<open>^sha256:[a-f0-9]{64}$\<close>\<close>

definition sourceDigestPattern :: "string \<Rightarrow> bool" where
  "sourceDigestPattern = digestPattern"

definition NewExecutionAttempt ::
  "string \<Rightarrow> string \<Rightarrow> string \<Rightarrow> EnvironmentAttestation \<Rightarrow> devError + ExecutionAttempt" where
  "NewExecutionAttempt attemptID0 stepID0 sourceDigest0 environment =
     (let attemptID = TrimSpace attemptID0;
          stepID = TrimSpace stepID0;
          sourceDigest = ToLower (TrimSpace sourceDigest0)
      in if \<not> identityPattern attemptID \<or> \<not> identityPattern stepID \<or> \<not> sourceDigestPattern sourceDigest \<or>
            \<not> Valid_attestation environment
         then fail ''development execution attempt is invalid''
         else Inr \<lparr>eaAttemptID = attemptID, eaStepID = stepID, eaParentAttemptID = [], eaSourceDigest = sourceDigest,
                   eaEnvironmentID = atEnvironmentID environment, eaEnvironmentDigest = atDigest environment,
                   eaEnvironmentGeneration = atGeneration environment, eaClass = atClass environment,
                   eaTier = the (Tier (atClass environment)), eaState = AttemptPlanned, eaFailure = NoFailure\<rparr>)"

definition validIdentity :: "ExecutionAttempt \<Rightarrow> bool" where
  "validIdentity a \<longleftrightarrow>
     identityPattern (eaAttemptID a) \<and> identityPattern (eaStepID a) \<and> identityPattern (eaEnvironmentID a) \<and>
     sourceDigestPattern (eaSourceDigest a) \<and> eaEnvironmentGeneration a \<noteq> 0 \<and>
     sourceDigestPattern (eaEnvironmentDigest a) \<and> Tier (eaClass a) = Some (eaTier a)"

definition attemptTransitionAllowed :: "AttemptState \<Rightarrow> AttemptState \<Rightarrow> bool" where
  "attemptTransitionAllowed state nxt =
     (case state of
        AttemptPlanned \<Rightarrow> nxt = AttemptRunning \<or> nxt = AttemptCancelled
      | AttemptRunning \<Rightarrow> nxt = AttemptSucceeded \<or> nxt = AttemptFailed \<or> nxt = AttemptCancelled
      | _ \<Rightarrow> False)"

definition Transition :: "ExecutionAttempt \<Rightarrow> AttemptState \<Rightarrow> devError + ExecutionAttempt" where
  "Transition attempt nxt =
     (if \<not> validIdentity attempt then fail ''development execution attempt is invalid''
      else if nxt = eaState attempt then Inr attempt
      else if \<not> attemptTransitionAllowed (eaState attempt) nxt then
        fail ''development execution attempt transition is invalid''
      else
        let copy = attempt\<lparr>eaState := nxt\<rparr>
        in if nxt \<noteq> AttemptFailed then Inr (copy\<lparr>eaFailure := NoFailure\<rparr>) else Inr copy)"

definition Fail_attempt :: "ExecutionAttempt \<Rightarrow> FailureClass \<Rightarrow> devError + ExecutionAttempt" where
  "Fail_attempt attempt class =
     (if ContinuationForFailure class = None \<or> eaState attempt \<noteq> AttemptRunning then
        fail ''development execution attempt failure is invalid''
      else Inr (attempt\<lparr>eaState := AttemptFailed, eaFailure := class\<rparr>))"

definition RejectPreflight :: "ExecutionAttempt \<Rightarrow> FailureClass \<Rightarrow> devError + ExecutionAttempt" where
  "RejectPreflight attempt class =
     (if eaState attempt \<noteq> AttemptPlanned \<or> \<not> preflightFailureAllowed class then
        fail ''development execution attempt preflight rejection is invalid''
      else Inr (attempt\<lparr>eaState := AttemptFailed, eaFailure := class\<rparr>))"

text \<open>The guards of the \<open>switch\<close> on the action, for the source and environment digests.\<close>

definition continuationAllowed ::
  "ContinuationAction \<Rightarrow> ExecutionAttempt \<Rightarrow> string \<Rightarrow> string \<Rightarrow> bool" where
  "continuationAllowed action previous sourceDigest environmentDigest =
     (case action of
        ActionFixCode \<Rightarrow>
          \<not> (sourceDigest = eaSourceDigest previous \<or> environmentDigest \<noteq> eaEnvironmentDigest previous)
      | ActionProvisionOrMigrate \<Rightarrow> environmentDigest \<noteq> eaEnvironmentDigest previous
      | ActionRetrySameEnvironment \<Rightarrow>
          \<not> (sourceDigest \<noteq> eaSourceDigest previous \<or> environmentDigest \<noteq> eaEnvironmentDigest previous)
      | _ \<Rightarrow> False)"

definition ContinueExecutionAttempt ::
  "string \<Rightarrow> string \<Rightarrow> ExecutionAttempt \<Rightarrow> EnvironmentAttestation \<Rightarrow> devError + ExecutionAttempt" where
  "ContinueExecutionAttempt newAttemptID sourceDigest0 previous environment =
     (if eaState previous \<noteq> AttemptFailed \<or> \<not> validIdentity previous \<or> \<not> Valid_attestation environment then
        fail ''development execution attempt cannot continue''
      else
        case ContinuationForFailure (eaFailure previous) of
          None \<Rightarrow> fail ''development execution attempt cannot continue''
        | Some action \<Rightarrow>
           let sourceDigest = ToLower (TrimSpace sourceDigest0)
           in if \<not> sourceDigestPattern sourceDigest then fail ''development execution attempt cannot continue''
              else if \<not> continuationAllowed action previous sourceDigest (atDigest environment) then
                fail ''development execution attempt cannot continue''
              else
                case NewExecutionAttempt newAttemptID (eaStepID previous) sourceDigest environment of
                  Inl e \<Rightarrow> Inl e
                | Inr nxt \<Rightarrow> Inr (nxt\<lparr>eaParentAttemptID := eaAttemptID previous\<rparr>))"

definition MigrateExecutionAttempt ::
  "string \<Rightarrow> string \<Rightarrow> ExecutionAttempt \<Rightarrow> EnvironmentAttestation \<Rightarrow> devError + ExecutionAttempt" where
  "MigrateExecutionAttempt newAttemptID sourceDigest previous environment =
     (if ContinuationForFailure (eaFailure previous) \<noteq> Some ActionProvisionOrMigrate then
        fail ''development execution attempt cannot migrate''
      else ContinueExecutionAttempt newAttemptID sourceDigest previous environment)"

definition validAttemptContinuation :: "ExecutionAttempt \<Rightarrow> ExecutionAttempt \<Rightarrow> bool" where
  "validAttemptContinuation previous nxt =
     (if eaState previous \<noteq> AttemptFailed \<or> eaParentAttemptID nxt \<noteq> eaAttemptID previous then False
      else
        case ContinuationForFailure (eaFailure previous) of
          None \<Rightarrow> False
        | Some action \<Rightarrow>
           (case action of
              ActionFixCode \<Rightarrow>
                eaSourceDigest nxt \<noteq> eaSourceDigest previous \<and> eaEnvironmentDigest nxt = eaEnvironmentDigest previous
            | ActionProvisionOrMigrate \<Rightarrow> eaEnvironmentDigest nxt \<noteq> eaEnvironmentDigest previous
            | ActionRetrySameEnvironment \<Rightarrow>
                eaSourceDigest nxt = eaSourceDigest previous \<and> eaEnvironmentDigest nxt = eaEnvironmentDigest previous
            | _ \<Rightarrow> False))"

subsection \<open>Facts about attempts\<close>

lemma digestPattern_lower: "digestPattern s \<Longrightarrow> list_all (\<lambda>c. plain c \<and> \<not> isUpper c) s"
  unfolding digestPattern_def
  by (erule prefixPattern_all) (auto simp: plain_def charClass_defs less_eq_char_def)

lemma digest_fixed [simp]:
  assumes "digestPattern s"
  shows "ToLower s = s" and "TrimSpace s = s"
proof -
  show "ToLower s = s" using digestPattern_lower [OF assms] by simp
  have "list_all plain s" using digestPattern_lower [OF assms] by (simp add: list_all_iff)
  then show "TrimSpace s = s" by simp
qed

lemma Valid_attestation_digest: "Valid_attestation a \<Longrightarrow> digestPattern (atDigest a)"
  by (simp add: Valid_attestation_def attestationDigest_def)

lemma NewExecutionAttempt_Inr:
  assumes "NewExecutionAttempt i j d env = Inr a"
  shows "validIdentity a" and "eaState a = AttemptPlanned" and "eaFailure a = NoFailure" and "eaParentAttemptID a = []"
    and "eaAttemptID a = TrimSpace i" and "eaStepID a = TrimSpace j" and "eaSourceDigest a = ToLower (TrimSpace d)"
    and "eaEnvironmentDigest a = atDigest env" and "eaClass a = atClass env"
  using assms Valid_attestation_digest [of env]
  by (auto simp: NewExecutionAttempt_def validIdentity_def sourceDigestPattern_def Valid_attestation_def Let_def
      split: if_splits)

lemma Transition_Inr:
  assumes "Transition a s = Inr b"
  shows "validIdentity a" and "b = a \<and> s = eaState a \<or> attemptTransitionAllowed (eaState a) s \<and> s \<noteq> eaState a \<and>
    b = (if s = AttemptFailed then a\<lparr>eaState := s\<rparr> else a\<lparr>eaState := s, eaFailure := NoFailure\<rparr>)"
  using assms by (auto simp: Transition_def Let_def split: if_splits)

lemma validIdentity_state [simp]:
  "validIdentity (a\<lparr>eaState := s\<rparr>) = validIdentity a" "validIdentity (a\<lparr>eaFailure := f\<rparr>) = validIdentity a"
  "validIdentity (a\<lparr>eaParentAttemptID := p\<rparr>) = validIdentity a"
  by (simp_all add: validIdentity_def)

lemma ContinueExecutionAttempt_Inr:
  assumes "ContinueExecutionAttempt i d before env = Inr a"
  obtains b action where "NewExecutionAttempt i (eaStepID before) (ToLower (TrimSpace d)) env = Inr b"
    and "a = b\<lparr>eaParentAttemptID := eaAttemptID before\<rparr>" and "eaState before = AttemptFailed" and "validIdentity before"
    and "ContinuationForFailure (eaFailure before) = Some action" and "digestPattern (ToLower (TrimSpace d))"
    and "continuationAllowed action before (ToLower (TrimSpace d)) (atDigest env)" and "Valid_attestation env"
  using assms
  by (auto simp: ContinueExecutionAttempt_def Let_def sourceDigestPattern_def split: if_splits option.splits sum.splits)

lemma ContinueExecutionAttempt_continues:
  assumes "ContinueExecutionAttempt i d before env = Inr a"
  shows "validAttemptContinuation before a \<and> validIdentity a \<and> eaState a = AttemptPlanned \<and>
    eaStepID a = eaStepID before \<and> eaClass a = atClass env"
  using assms
proof (rule ContinueExecutionAttempt_Inr)
  fix b action
  assume b: "NewExecutionAttempt i (eaStepID before) (ToLower (TrimSpace d)) env = Inr b"
    and a: "a = b\<lparr>eaParentAttemptID := eaAttemptID before\<rparr>"
    and before: "eaState before = AttemptFailed" "validIdentity before" "ContinuationForFailure (eaFailure before) = Some action"
    and d: "digestPattern (ToLower (TrimSpace d))"
    and ok: "continuationAllowed action before (ToLower (TrimSpace d)) (atDigest env)"
  have "eaStepID b = eaStepID before" and "eaSourceDigest b = ToLower (TrimSpace d)"
    using NewExecutionAttempt_Inr(6,7) [OF b] before(2) d by (simp_all add: validIdentity_def)
  then show ?thesis
    using NewExecutionAttempt_Inr [OF b] a before ok
    by (cases action) (simp_all add: validAttemptContinuation_def continuationAllowed_def)
qed

text \<open>
  C35: a failed attempt has at most one kind of continuation, given by the class of its
  failure. A code failure is continued with another source in the same environment, a
  transient failure with the same source in the same environment, a policy denial and a
  required reconciliation are never continued, and every other failure is continued only
  in another environment. The continuation is a planned attempt of the same step.
\<close>

theorem ContinueExecutionAttempt_by_failure:
  assumes "ContinueExecutionAttempt i d before env = Inr a"
  shows "eaState a = AttemptPlanned \<and> eaStepID a = eaStepID before \<and> eaParentAttemptID a = eaAttemptID before \<and>
    (case eaFailure before of
       FailureCode \<Rightarrow> eaSourceDigest a \<noteq> eaSourceDigest before \<and> eaEnvironmentDigest a = eaEnvironmentDigest before
     | FailureExternalTransient \<Rightarrow>
         eaSourceDigest a = eaSourceDigest before \<and> eaEnvironmentDigest a = eaEnvironmentDigest before
     | FailurePolicyDenied \<Rightarrow> False
     | FailureReconciliationNeeded \<Rightarrow> False
     | NoFailure \<Rightarrow> False
     | OtherFailure _ \<Rightarrow> False
     | _ \<Rightarrow> eaEnvironmentDigest a \<noteq> eaEnvironmentDigest before)"
  using ContinueExecutionAttempt_continues [OF assms]
  by (cases "eaFailure before") (auto simp: validAttemptContinuation_def split: if_splits)

definition failedAttempt :: ExecutionAttempt where
  "failedAttempt = \<lparr>eaAttemptID = ''attempt-1'', eaStepID = ''build'', eaParentAttemptID = [],
     eaSourceDigest = ''sha256:'' @ replicate 64 (CHR ''a''), eaEnvironmentID = ''edge-box'',
     eaEnvironmentDigest = atDigest boxEnvironment, eaEnvironmentGeneration = 1,
     eaClass = ClassToolbox, eaTier = TierToolbox, eaState = AttemptFailed, eaFailure = FailureCode\<rparr>"

lemma failedAttempt_texts:
  "identityPattern ''attempt-1''" "identityPattern ''attempt-2''" "identityPattern ''build''" "TrimSpace ''attempt-2'' = ''attempt-2''"
  "TrimSpace ''build'' = ''build''"
  "sourceDigestPattern (''sha256:'' @ replicate 64 (CHR ''a''))" "sourceDigestPattern (''sha256:'' @ replicate 64 (CHR ''b''))"
  "ToLower (TrimSpace (''sha256:'' @ replicate 64 (CHR ''b''))) = ''sha256:'' @ replicate 64 (CHR ''b'')"
  "''sha256:'' @ replicate 64 (CHR ''a'') \<noteq> ''sha256:'' @ replicate 64 (CHR ''b'')"
  by code_simp+

lemma failedAttempt_continued:
  "\<exists>a. ContinueExecutionAttempt ''attempt-2'' (''sha256:'' @ replicate 64 (CHR ''b'')) failedAttempt boxEnvironment = Inr a"
proof -
  define b where "b = ''sha256:'' @ replicate 64 (CHR ''b'')"
  have env: "sourceDigestPattern (atDigest boxEnvironment)"
    using boxEnvironment_facts(1) by (auto simp: Valid_attestation_def attestationDigest_def sourceDigestPattern_def)
  have "validIdentity failedAttempt"
    unfolding validIdentity_def failedAttempt_def
    by (simp only: ExecutionAttempt.simps failedAttempt_texts env example_classes TierToolbox_def) simp
  then show ?thesis
    using boxEnvironment_facts(1) failedAttempt_texts(2-5,7-9) unfolding b_def [symmetric]
    by (simp add: ContinueExecutionAttempt_def NewExecutionAttempt_def continuationAllowed_def failedAttempt_def Let_def)
qed

theorem ContinueExecutionAttempt_by_failure_witness:
  "\<exists>a. ContinueExecutionAttempt ''attempt-2'' (''sha256:'' @ replicate 64 (CHR ''b'')) failedAttempt boxEnvironment = Inr a \<and>
     eaSourceDigest a \<noteq> eaSourceDigest failedAttempt \<and> eaEnvironmentDigest a = atDigest boxEnvironment"
proof -
  obtain a where a: "ContinueExecutionAttempt ''attempt-2'' (''sha256:'' @ replicate 64 (CHR ''b'')) failedAttempt boxEnvironment = Inr a"
    using failedAttempt_continued by blast
  moreover have "eaFailure failedAttempt = FailureCode" "eaEnvironmentDigest failedAttempt = atDigest boxEnvironment"
    by (simp_all add: failedAttempt_def Let_def)
  ultimately show ?thesis using ContinueExecutionAttempt_by_failure [OF a] by auto
qed

end
