(* ===== verification/Dev_Provision.thy ===== *)
theory Dev_Provision
  imports Dev_Attempt
begin

text \<open>
  \<open>internal/development/provision.go\<close>: the plan to provision an environment, with its
  digest, and one attempt to carry the plan out through a job of the work queue, with the
  state machine of that attempt and the check of its revisions.
\<close>

subsection \<open>Plans\<close>

definition ProvisionPlanVersion :: int where "ProvisionPlanVersion = 1"
definition MaxProvisioningAttemptsPerStep :: nat where "MaxProvisioningAttemptsPerStep = 16"
definition provisionPlanDigestDomain :: string where
  "provisionPlanDigestDomain = ''aeontra-development-provision-plan-v1'' @ [CHR 0x00]"

definition provisionIdentityPattern :: "string \<Rightarrow> bool" where
  [pattern_defs]: "provisionIdentityPattern = headPattern isLower aliasChar 0 63"

definition provisionJobIDPattern :: "string \<Rightarrow> bool" where
  [pattern_defs]: "provisionJobIDPattern = prefixPattern ''wj_'' isHex 32 32"

record ProvisionPlan =
  ppVersion :: int
  ppProvider :: string
  ppPool :: string
  ppProfile :: string
  ppOutputClass :: ExecutionClass
  ppBaseEnvironmentDigest :: string
  ppCapabilities :: "CapabilityID list"
  ppDigest :: string

definition provisionPlanDigest :: "ProvisionPlan \<Rightarrow> string" where
  "provisionPlanDigest plan =
     sha256Digest (provisionPlanDigestDomain @
       terminated [ppProvider plan, ppPool plan, ppProfile plan, ppOutputClass plan, ppBaseEnvironmentDigest plan] @
       terminated (ppCapabilities plan))"

definition NewProvisionPlan ::
  "string \<Rightarrow> string \<Rightarrow> string \<Rightarrow> ExecutionClass \<Rightarrow> string \<Rightarrow> CapabilityID list \<Rightarrow> devError + ProvisionPlan" where
  "NewProvisionPlan provider0 pool0 profile0 outputClass base0 capabilities =
     (let provider = ToLower (TrimSpace provider0);
          pool = ToLower (TrimSpace pool0);
          profile = ToLower (TrimSpace profile0);
          base = ToLower (TrimSpace base0)
      in if \<not> provisionIdentityPattern provider \<or> \<not> provisionIdentityPattern pool \<or>
            \<not> provisionIdentityPattern profile
         then fail ''development provision plan identity is invalid''
         else if Tier outputClass = None then fail ''development provision plan execution class is invalid''
         else if base \<noteq> [] \<and> \<not> digestPattern base then fail ''development provision plan base environment is invalid''
         else
           case canonicalCapabilityIDs capabilities of
             Inl e \<Rightarrow> fail ''development provision plan capabilities are invalid''
           | Inr canonical \<Rightarrow>
              if length canonical = 0 \<or> length canonical > MaxEnvironmentCatalogEntries then
                fail ''development provision plan capabilities are invalid''
              else
                let plan = \<lparr>ppVersion = ProvisionPlanVersion, ppProvider = provider, ppPool = pool, ppProfile = profile,
                           ppOutputClass = outputClass, ppBaseEnvironmentDigest = base, ppCapabilities = canonical,
                           ppDigest = []\<rparr>
                in Inr (plan\<lparr>ppDigest := provisionPlanDigest plan\<rparr>))"

definition Valid_plan :: "ProvisionPlan \<Rightarrow> bool" where
  "Valid_plan plan \<longleftrightarrow>
     ppVersion plan = ProvisionPlanVersion \<and> provisionIdentityPattern (ppProvider plan) \<and>
     provisionIdentityPattern (ppPool plan) \<and> provisionIdentityPattern (ppProfile plan) \<and>
     (ppBaseEnvironmentDigest plan = [] \<or> digestPattern (ppBaseEnvironmentDigest plan)) \<and>
     digestPattern (ppDigest plan) \<and> Tier (ppOutputClass plan) \<noteq> None \<and>
     (case canonicalCapabilityIDs (ppCapabilities plan) of
        Inl e \<Rightarrow> False
      | Inr canonical \<Rightarrow>
          length canonical \<noteq> 0 \<and> length canonical \<le> MaxEnvironmentCatalogEntries \<and>
          sameCapabilityIDs canonical (ppCapabilities plan) \<and> ppDigest plan = provisionPlanDigest plan)"

definition Covers :: "ProvisionPlan \<Rightarrow> CapabilityID list \<Rightarrow> bool" where
  "Covers plan requirements \<longleftrightarrow>
     Valid_plan plan \<and> list_all (\<lambda>r. searchHit (ppCapabilities plan) r) requirements"

subsection \<open>Attempts\<close>

datatype ProvisioningState =
    ProvisioningPlanned | ProvisioningQueued | ProvisioningSucceeded | ProvisioningFailed | ProvisioningCancelled
  | OtherProvisioningState string

record ProvisioningAttempt =
  paProvisionID :: string
  paSourceDigest :: string
  paPlan :: ProvisionPlan
  paState :: ProvisioningState
  paJobID :: string
  paJobFence :: uint64
  paReceiptDigest :: string
  paFailure :: FailureClass

definition NewProvisioningAttempt :: "string \<Rightarrow> string \<Rightarrow> ProvisionPlan \<Rightarrow> devError + ProvisioningAttempt" where
  "NewProvisioningAttempt provisionID0 sourceDigest plan =
     (let provisionID = TrimSpace provisionID0
      in if \<not> identityPattern provisionID \<or> \<not> digestPattern sourceDigest \<or> \<not> Valid_plan plan then
           fail ''development provisioning attempt is invalid''
         else Inr \<lparr>paProvisionID = provisionID, paSourceDigest = sourceDigest, paPlan = plan,
                   paState = ProvisioningPlanned, paJobID = [], paJobFence = 0, paReceiptDigest = [],
                   paFailure = NoFailure\<rparr>)"

definition Valid_provision :: "ProvisioningAttempt \<Rightarrow> bool" where
  "Valid_provision attempt \<longleftrightarrow>
     identityPattern (paProvisionID attempt) \<and> digestPattern (paSourceDigest attempt) \<and> Valid_plan (paPlan attempt) \<and>
     (case paState attempt of
        ProvisioningPlanned \<Rightarrow>
          paJobID attempt = [] \<and> paJobFence attempt = 0 \<and> paReceiptDigest attempt = [] \<and> paFailure attempt = NoFailure
      | ProvisioningQueued \<Rightarrow>
          provisionJobIDPattern (paJobID attempt) \<and> paReceiptDigest attempt = [] \<and> paFailure attempt = NoFailure
      | ProvisioningSucceeded \<Rightarrow>
          provisionJobIDPattern (paJobID attempt) \<and> paJobFence attempt > 0 \<and>
          digestPattern (paReceiptDigest attempt) \<and> paFailure attempt = NoFailure
      | ProvisioningFailed \<Rightarrow>
          provisionJobIDPattern (paJobID attempt) \<and> paReceiptDigest attempt = [] \<and>
          ContinuationForFailure (paFailure attempt) \<noteq> None
      | ProvisioningCancelled \<Rightarrow>
          paReceiptDigest attempt = [] \<and> paFailure attempt = NoFailure \<and>
          (paJobID attempt = [] \<and> paJobFence attempt = 0 \<or> provisionJobIDPattern (paJobID attempt))
      | OtherProvisioningState _ \<Rightarrow> False)"

definition BindJob :: "ProvisioningAttempt \<Rightarrow> string \<Rightarrow> devError + ProvisioningAttempt" where
  "BindJob attempt jobID0 =
     (let jobID = TrimSpace jobID0
      in if \<not> Valid_provision attempt \<or> paState attempt \<noteq> ProvisioningPlanned \<or> \<not> provisionJobIDPattern jobID then
           fail ''development provisioning job binding is invalid''
         else Inr (attempt\<lparr>paState := ProvisioningQueued, paJobID := jobID\<rparr>))"

definition Succeed :: "ProvisioningAttempt \<Rightarrow> string \<Rightarrow> devError + ProvisioningAttempt" where
  "Succeed attempt receiptDigest0 =
     (let receiptDigest = ToLower (TrimSpace receiptDigest0)
      in if \<not> Valid_provision attempt \<or> paState attempt \<noteq> ProvisioningQueued \<or> paJobFence attempt = 0 \<or>
            \<not> digestPattern receiptDigest
         then fail ''development provisioning success is invalid''
         else Inr (attempt\<lparr>paState := ProvisioningSucceeded, paReceiptDigest := receiptDigest\<rparr>))"

definition Fail_provision :: "ProvisioningAttempt \<Rightarrow> FailureClass \<Rightarrow> devError + ProvisioningAttempt" where
  "Fail_provision attempt class =
     (if \<not> Valid_provision attempt \<or> paState attempt \<noteq> ProvisioningQueued then
        fail ''development provisioning failure is invalid''
      else if ContinuationForFailure class = None then fail ''development provisioning failure is invalid''
      else Inr (attempt\<lparr>paState := ProvisioningFailed, paFailure := class\<rparr>))"

definition Cancel_provision :: "ProvisioningAttempt \<Rightarrow> devError + ProvisioningAttempt" where
  "Cancel_provision attempt =
     (if \<not> Valid_provision attempt \<or> paState attempt \<noteq> ProvisioningPlanned \<and> paState attempt \<noteq> ProvisioningQueued then
        fail ''development provisioning cancellation is invalid''
      else Inr (attempt\<lparr>paState := ProvisioningCancelled, paReceiptDigest := [], paFailure := NoFailure\<rparr>))"

definition BindFence :: "ProvisioningAttempt \<Rightarrow> uint64 \<Rightarrow> devError + ProvisioningAttempt" where
  "BindFence attempt fence =
     (if \<not> Valid_provision attempt \<or> paState attempt \<noteq> ProvisioningQueued \<or> fence = 0 \<or> fence < paJobFence attempt then
        fail ''development provisioning fence binding is invalid''
      else Inr (attempt\<lparr>paJobFence := fence\<rparr>))"

definition sameProvisionAttempt :: "ProvisioningAttempt \<Rightarrow> ProvisioningAttempt \<Rightarrow> bool" where
  "sameProvisionAttempt left right \<longleftrightarrow>
     paProvisionID left = paProvisionID right \<and> paSourceDigest left = paSourceDigest right \<and>
     ppDigest (paPlan left) = ppDigest (paPlan right) \<and> paState left = paState right \<and> paJobID left = paJobID right \<and>
     paJobFence left = paJobFence right \<and> paReceiptDigest left = paReceiptDigest right \<and>
     paFailure left = paFailure right"

definition validProvisionRevision :: "ProvisioningAttempt \<Rightarrow> ProvisioningAttempt \<Rightarrow> bool" where
  "validProvisionRevision before after =
     (if \<not> Valid_provision before \<or> \<not> Valid_provision after \<or> paProvisionID before \<noteq> paProvisionID after \<or>
         paSourceDigest before \<noteq> paSourceDigest after \<or> ppDigest (paPlan before) \<noteq> ppDigest (paPlan after)
      then False
      else if sameProvisionAttempt before after then True
      else if paState before = ProvisioningPlanned then
        paState after = ProvisioningQueued \<and> paJobFence after = 0 \<or>
        paState after = ProvisioningCancelled \<and> paJobID after = [] \<and> paJobFence after = 0
      else if paState before \<noteq> ProvisioningQueued \<or> paJobID before \<noteq> paJobID after \<or>
          paJobFence after < paJobFence before
      then False
      else if paState before = paState after then paJobFence after > paJobFence before
      else paJobFence before = paJobFence after \<and>
        (paState after = ProvisioningSucceeded \<or> paState after = ProvisioningFailed \<or>
         paState after = ProvisioningCancelled))"

subsection \<open>Facts about plans and attempts\<close>

lemma canonicalCapabilityIDs_eq:
  "canonicalCapabilityIDs ids = Inr c \<longleftrightarrow>
     list_all capabilityIDPattern ids \<and> c = sorted_list_of_set (set ids)"
  by (auto simp: canonicalCapabilityIDs_def capabilitySetFromIDs_eq)

lemma canonicalCapabilityIDs_fix: "canonicalCapabilityIDs ids = Inr ids \<longleftrightarrow> canonicalIDs ids"
  unfolding canonicalCapabilityIDs_eq canonicalIDs_def
  by (metis sorted_list_of_set.idem_if_sorted_distinct sorted_list_of_set.sorted_sorted_key_list_of_set
      sorted_list_of_set.distinct_sorted_key_list_of_set)

lemma Valid_plan_capabilities:
  "Valid_plan plan \<Longrightarrow> canonicalIDs (ppCapabilities plan) \<and> ppCapabilities plan \<noteq> []"
  by (auto simp: Valid_plan_def canonicalCapabilityIDs_fix split: sum.splits)

lemma Covers_iff: "Covers plan rs \<longleftrightarrow> Valid_plan plan \<and> set rs \<subseteq> set (ppCapabilities plan)"
  using Valid_plan_capabilities [of plan]
  by (auto simp: Covers_def list_all_iff searchHit_iff canonicalIDs_def)

lemma provisionPlanDigest_digest [simp]: "provisionPlanDigest (plan\<lparr>ppDigest := d\<rparr>) = provisionPlanDigest plan"
  by (simp add: provisionPlanDigest_def)

lemma NewProvisionPlan_valid:
  assumes "NewProvisionPlan a b c k e caps = Inr plan"
  shows "Valid_plan plan" and "ppOutputClass plan = k" and "set (ppCapabilities plan) = set caps"
proof -
  define plan0 where "plan0 canonical = \<lparr>ppVersion = ProvisionPlanVersion, ppProvider = ToLower (TrimSpace a),
    ppPool = ToLower (TrimSpace b), ppProfile = ToLower (TrimSpace c), ppOutputClass = k,
    ppBaseEnvironmentDigest = ToLower (TrimSpace e), ppCapabilities = canonical, ppDigest = []\<rparr>" for canonical
  obtain canonical where canon: "canonicalCapabilityIDs caps = Inr canonical"
    and len: "canonical \<noteq> []" "length canonical \<le> MaxEnvironmentCatalogEntries"
    and ids: "provisionIdentityPattern (ToLower (TrimSpace a))" "provisionIdentityPattern (ToLower (TrimSpace b))"
      "provisionIdentityPattern (ToLower (TrimSpace c))" "Tier k \<noteq> None"
      "ToLower (TrimSpace e) = [] \<or> digestPattern (ToLower (TrimSpace e))"
    and plan: "plan = (plan0 canonical)\<lparr>ppDigest := provisionPlanDigest (plan0 canonical)\<rparr>"
    using assms unfolding NewProvisionPlan_def Let_def plan0_def [symmetric]
    by (auto split: if_splits sum.splits)
  have digest: "ppDigest plan = provisionPlanDigest plan" by (simp add: plan)
  have "canonicalIDs canonical" and set: "set canonical = set caps"
    using canon by (auto simp: canonicalCapabilityIDs_eq canonicalIDs_def list_all_iff)
  moreover have fields: "ppCapabilities plan = canonical" "ppOutputClass plan = k" "ppVersion plan = ProvisionPlanVersion"
    "ppProvider plan = ToLower (TrimSpace a)" "ppPool plan = ToLower (TrimSpace b)" "ppProfile plan = ToLower (TrimSpace c)"
    "ppBaseEnvironmentDigest plan = ToLower (TrimSpace e)"
    by (simp_all add: plan plan0_def)
  moreover have "digestPattern (ppDigest plan)" unfolding digest by (simp add: provisionPlanDigest_def)
  ultimately show "Valid_plan plan"
    using ids len digest by (simp add: Valid_plan_def canonicalCapabilityIDs_fix [THEN iffD2])
  show "ppOutputClass plan = k" "set (ppCapabilities plan) = set caps" using fields set by simp_all
qed

lemma sameProvisionAttempt_refl [simp]: "sameProvisionAttempt a a"
  by (simp add: sameProvisionAttempt_def)

text \<open>What the operations on one attempt have in common.\<close>

definition provisionStep :: "ProvisioningAttempt \<Rightarrow> devError + ProvisioningAttempt \<Rightarrow> bool" where
  "provisionStep a r \<longleftrightarrow> (\<forall>b. r = Inr b \<longrightarrow> Valid_provision b \<and> validProvisionRevision a b)"

lemma jobID_trim: "provisionJobIDPattern s \<Longrightarrow> TrimSpace s = s"
proof -
  assume "provisionJobIDPattern s"
  then have "list_all plain s"
    unfolding provisionJobIDPattern_def
    by (rule prefixPattern_plain) (auto simp: plain_def charClass_defs less_eq_char_def)
  then show ?thesis by simp
qed

lemma provisionStep_operations:
  "provisionStep a (BindJob a j)" "provisionStep a (Succeed a d)" "provisionStep a (Fail_provision a f)"
  "provisionStep a (Cancel_provision a)" "provisionStep a (BindFence a n)"
  by (auto simp: provisionStep_def BindJob_def Succeed_def Fail_provision_def Cancel_provision_def BindFence_def
      validProvisionRevision_def Valid_provision_def sameProvisionAttempt_def Let_def word_gt_0
      split: if_splits)

text \<open>
  C36: every operation on a provisioning attempt keeps it valid and is a revision the
  history check accepts: the identity, the source and the plan never change, the job is
  bound once, the fence never decreases, and a terminal state is final.
\<close>

theorem provision_operations_revise:
  assumes "BindJob a j = Inr b \<or> BindFence a n = Inr b \<or> Succeed a d = Inr b \<or> Fail_provision a f = Inr b \<or>
    Cancel_provision a = Inr b"
  shows "Valid_provision b \<and> validProvisionRevision a b \<and> paPlan b = paPlan a \<and> paJobFence a \<le> paJobFence b \<and>
    (paJobID a = [] \<or> paJobID b = paJobID a) \<and> paState a \<in> {ProvisioningPlanned, ProvisioningQueued}"
proof -
  have "Valid_provision b \<and> validProvisionRevision a b"
    using assms provisionStep_operations [of a] unfolding provisionStep_def by metis
  moreover have "paPlan b = paPlan a \<and> paJobFence a \<le> paJobFence b \<and> (paJobID a = [] \<or> paJobID b = paJobID a) \<and>
      paState a \<in> {ProvisioningPlanned, ProvisioningQueued}"
    using assms
    by (auto simp: BindJob_def Succeed_def Fail_provision_def Cancel_provision_def BindFence_def Valid_provision_def Let_def
        split: if_splits)
  ultimately show ?thesis by simp
qed

definition examplePlan0 :: ProvisionPlan where
  "examplePlan0 = \<lparr>ppVersion = ProvisionPlanVersion, ppProvider = ''edge'', ppPool = ''toolboxes'', ppProfile = ''go'',
     ppOutputClass = ClassToolbox, ppBaseEnvironmentDigest = [], ppCapabilities = [''os.linux'', ''toolchain.go''], ppDigest = []\<rparr>"

definition examplePlan :: ProvisionPlan where
  "examplePlan = examplePlan0\<lparr>ppDigest := provisionPlanDigest examplePlan0\<rparr>"

lemma examplePlan_valid: "Valid_plan examplePlan"
proof -
  have "provisionIdentityPattern ''edge''" "provisionIdentityPattern ''toolboxes''" "provisionIdentityPattern ''go''"
    "canonicalCapabilityIDs [''os.linux'', ''toolchain.go''] = Inr [''os.linux'', ''toolchain.go'']"
    "sameCapabilityIDs [''os.linux'', ''toolchain.go''] [''os.linux'', ''toolchain.go'']"
    by code_simp+
  moreover have "provisionPlanDigest examplePlan = provisionPlanDigest examplePlan0"
    by (simp add: provisionPlanDigest_def examplePlan_def)
  moreover have "digestPattern (provisionPlanDigest examplePlan0)" by (simp add: provisionPlanDigest_def)
  ultimately show ?thesis
    by (simp add: Valid_plan_def) (simp add: examplePlan_def examplePlan0_def example_classes MaxEnvironmentCatalogEntries_def)
qed

definition exampleProvision :: "ProvisioningState \<Rightarrow> string \<Rightarrow> uint64 \<Rightarrow> ProvisioningAttempt" where
  "exampleProvision st job fence = \<lparr>paProvisionID = ''provision-1'', paSourceDigest = ''sha256:'' @ replicate 64 (CHR ''a''),
     paPlan = examplePlan, paState = st, paJobID = job, paJobFence = fence, paReceiptDigest = [], paFailure = NoFailure\<rparr>"

lemma exampleProvision_fence:
  "BindFence (exampleProvision ProvisioningQueued (''wj_'' @ replicate 32 (CHR ''1'')) 3) 7 =
     Inr (exampleProvision ProvisioningQueued (''wj_'' @ replicate 32 (CHR ''1'')) 7)"
proof -
  have "identityPattern ''provision-1''" "digestPattern (''sha256:'' @ replicate 64 (CHR ''a''))"
    "provisionJobIDPattern (''wj_'' @ replicate 32 (CHR ''1''))"
    by code_simp+
  then have "Valid_provision (exampleProvision ProvisioningQueued (''wj_'' @ replicate 32 (CHR ''1'')) 3)"
    by (simp only: Valid_provision_def exampleProvision_def ProvisioningAttempt.simps ProvisioningState.simps examplePlan_valid simp_thms)
  then show ?thesis by (simp add: BindFence_def) (simp add: exampleProvision_def)
qed

theorem provision_operations_revise_witness:
  "Valid_provision (exampleProvision ProvisioningQueued (''wj_'' @ replicate 32 (CHR ''1'')) 7)"
  using provision_operations_revise [OF disjI2 [OF disjI1 [OF exampleProvision_fence]]] by blast

end
