(* ===== verification/Dev_Objective.thy ===== *)
theory Dev_Objective
  imports Dev_Provision
begin

text \<open>
  \<open>internal/development/anchor.go\<close>, the types of \<open>objective.go\<close> and \<open>acceptance.go\<close>,
  and the snapshot validator of \<open>record.go\<close>: objectives with their scope, policy and
  steps, command acceptance contracts and receipts with their digests, and the check
  every stored objective has to pass. Objectives are values, so the deep copies the Go
  code makes before it changes one (\<open>clone\<close>) are the values themselves.
\<close>

subsection \<open>Acceptance contracts\<close>

definition commandDigestDomain :: string where
  "commandDigestDomain = ''aeontra-development-command-v1'' @ [CHR 0x00]"
definition acceptanceDigestDomain :: string where
  "acceptanceDigestDomain = ''aeontra-development-acceptance-contract-v1'' @ [CHR 0x00]"
definition maxAcceptanceArgvCount :: nat where "maxAcceptanceArgvCount = 256"
definition maxAcceptanceArgvBytes :: nat where "maxAcceptanceArgvBytes = 64 * 1024"
definition maxAcceptanceArtifactRef :: nat where "maxAcceptanceArtifactRef = 32"

definition privateGoalRefPattern :: "string \<Rightarrow> bool" where
  [pattern_defs]: "privateGoalRefPattern = prefixPattern ''mb_'' isHex 32 32"
definition operationRefPattern :: "string \<Rightarrow> bool" where
  [pattern_defs]: "operationRefPattern = prefixPattern ''eo_'' isHex 32 32"
definition runnerEffectPattern :: "string \<Rightarrow> bool" where
  [pattern_defs]: "runnerEffectPattern = prefixPattern [] isHex 64 64"

record CommandAcceptanceContract =
  ccCommandDigest :: string
  ccSourceDigest :: string
  ccPrivateBodyRef :: string
  ccPrivateBodyDigest :: string
  ccRequiredCapabilities :: "Requirement list"
  ccArtifactRefs :: "string list"

record CommandAcceptanceReceipt =
  crOperationID :: string
  crEvidenceProvider :: string
  crRunnerEffectID :: string
  crRunnerRunID :: int
  crRunnerReceiptDigest :: string
  crObjectiveID :: string
  crStepID :: string
  crAttemptID :: string
  crContractDigest :: string
  crCommandDigest :: string
  crSourceDigest :: string
  crEnvironmentDigest :: string
  crPrivateBodyRef :: string
  crPrivateBodyDigest :: string
  crExitCode :: int
  crArtifactRefs :: "string list"

record CommandOperationEvidence =
  evOperationID :: string
  evEvidenceProvider :: string
  evRunnerEffectID :: string
  evRunnerRunID :: int
  evRunnerReceiptDigest :: string
  evCommandDigest :: string
  evSourceDigest :: string
  evEnvironmentDigest :: string
  evPrivateBodyRef :: string
  evPrivateBodyDigest :: string
  evExitCode :: int
  evArtifactRefs :: "string list"

text \<open>The length check of \<open>CommandDigest\<close>, with the running total of the bytes.\<close>

fun argvAcceptable :: "nat \<Rightarrow> string list \<Rightarrow> bool" where
  "argvAcceptable used [] = True"
| "argvAcceptable used (argument # argv) =
     (if CHR 0x00 \<in> set argument \<or> length argument > maxAcceptanceArgvBytes - used then False
      else argvAcceptable (used + length argument) argv)"

definition lengthBytes :: "nat \<Rightarrow> string" where
  "lengthBytes n = map (\<lambda>b. char_of (unat b)) (bigEndian64 (word_of_nat n))"

definition argvEncoding :: "string list \<Rightarrow> string" where
  "argvEncoding argv = concat (map (\<lambda>argument. lengthBytes (length argument) @ argument) argv)"

definition CommandDigest :: "string list \<Rightarrow> devError + string" where
  "CommandDigest argv =
     (if length argv = 0 \<or> length argv > maxAcceptanceArgvCount then fail ''development command argv is invalid''
      else if \<not> argvAcceptable 0 argv then fail ''development command argv is invalid''
      else Inr (sha256Digest (commandDigestDomain @ argvEncoding argv)))"

fun adjacentEqual :: "string list \<Rightarrow> bool" where
  "adjacentEqual (a # b # cs) = (a = b \<or> adjacentEqual (b # cs))"
| "adjacentEqual _ = False"

definition normalizeOpaqueReferences :: "string list \<Rightarrow> devError + string list" where
  "normalizeOpaqueReferences references =
     (if length references > maxAcceptanceArtifactRef then fail ''development artifact reference bound exceeded''
      else if \<not> list_all (\<lambda>r. identityPattern r \<and> \<not> Contains r ''..'' \<and> \<not> Contains r ''://'') references then
        fail ''development artifact reference is invalid''
      else
        let canonical = sort references
        in if adjacentEqual canonical then fail ''development artifact reference is duplicated'' else Inr canonical)"

definition valid_contract :: "CommandAcceptanceContract \<Rightarrow> bool" where
  "valid_contract contract \<longleftrightarrow>
     sourceDigestPattern (ccCommandDigest contract) \<and> sourceDigestPattern (ccSourceDigest contract) \<and>
     privateGoalRefPattern (ccPrivateBodyRef contract) \<and> sourceDigestPattern (ccPrivateBodyDigest contract) \<and>
     length (ccRequiredCapabilities contract) \<le> MaxEnvironmentCatalogEntries \<and>
     length (ccArtifactRefs contract) \<le> maxAcceptanceArtifactRef \<and>
     (case normalizeRequirementList (ccRequiredCapabilities contract) of
        Inl e \<Rightarrow> False
      | Inr requirements \<Rightarrow> sameRequirements (ccRequiredCapabilities contract) requirements) \<and>
     (case normalizeOpaqueReferences (ccArtifactRefs contract) of
        Inl e \<Rightarrow> False
      | Inr artifacts \<Rightarrow> ccArtifactRefs contract = artifacts)"

definition NewCommandAcceptanceContract ::
  "string list \<Rightarrow> string \<Rightarrow> string \<Rightarrow> string \<Rightarrow> Requirement list \<Rightarrow> string list \<Rightarrow> devError + CommandAcceptanceContract" where
  "NewCommandAcceptanceContract argv sourceDigest privateBodyRef privateBodyDigest requiredCapabilities artifactRefs =
     (case CommandDigest argv of
        Inl e \<Rightarrow> Inl e
      | Inr commandDigest \<Rightarrow>
         (case normalizeRequirementList requiredCapabilities of
            Inl e \<Rightarrow> Inl e
          | Inr requirements \<Rightarrow>
             (case normalizeOpaqueReferences artifactRefs of
                Inl e \<Rightarrow> Inl e
              | Inr artifacts \<Rightarrow>
                 let contract = \<lparr>ccCommandDigest = commandDigest, ccSourceDigest = TrimSpace sourceDigest,
                                 ccPrivateBodyRef = TrimSpace privateBodyRef,
                                 ccPrivateBodyDigest = TrimSpace privateBodyDigest,
                                 ccRequiredCapabilities = requirements, ccArtifactRefs = artifacts\<rparr>
                 in if \<not> valid_contract contract then fail ''development command acceptance contract is invalid''
                    else Inr contract)))"

definition validFor_contract :: "CommandAcceptanceContract \<Rightarrow> ResolutionPolicy \<Rightarrow> Requirement list \<Rightarrow> bool" where
  "validFor_contract contract policy requirements \<longleftrightarrow>
     valid_contract contract \<and> valid_policy policy \<and> sameRequirements (ccRequiredCapabilities contract) requirements"

definition sameCommandAcceptanceContract ::
  "CommandAcceptanceContract option \<Rightarrow> CommandAcceptanceContract option \<Rightarrow> bool" where
  "sameCommandAcceptanceContract left right =
     (case (left, right) of
        (Some l, Some r) \<Rightarrow>
          ccCommandDigest l = ccCommandDigest r \<and> ccSourceDigest l = ccSourceDigest r \<and>
          ccPrivateBodyRef l = ccPrivateBodyRef r \<and> ccPrivateBodyDigest l = ccPrivateBodyDigest r \<and>
          sameRequirements (ccRequiredCapabilities l) (ccRequiredCapabilities r) \<and> ccArtifactRefs l = ccArtifactRefs r
      | _ \<Rightarrow> left = None \<and> right = None)"

text \<open>A nil slice is encoded as \<open>null\<close>; appending nothing to a nil slice leaves it nil.\<close>

definition jsonStrings :: "string list \<Rightarrow> json" where
  "jsonStrings ss = JArray (map JString ss)"

definition jsonAppended :: "string list \<Rightarrow> json" where
  "jsonAppended ss = (if ss = [] then JNull else jsonStrings ss)"

definition contractJson :: "CommandAcceptanceContract \<Rightarrow> string \<Rightarrow> string \<Rightarrow> ResolutionPolicy \<Rightarrow> json" where
  "contractJson contract objectiveID stepID policy =
     JObject
       [(''objective_id'', JString objectiveID), (''step_id'', JString stepID),
        (''max_tier'', JInt (int (rpMaxTier policy))), (''allowed_classes'', jsonAppended (rpAllowed policy)),
        (''command_digest'', JString (ccCommandDigest contract)), (''source_digest'', JString (ccSourceDigest contract)),
        (''private_body_ref'', JString (ccPrivateBodyRef contract)),
        (''private_body_digest'', JString (ccPrivateBodyDigest contract)),
        (''required_capabilities'', jsonStrings (map reqID (ccRequiredCapabilities contract))),
        (''artifact_refs'', jsonAppended (ccArtifactRefs contract))]"

definition digest_contract :: "CommandAcceptanceContract \<Rightarrow> string \<Rightarrow> string \<Rightarrow> ResolutionPolicy \<Rightarrow> string" where
  "digest_contract contract objectiveID stepID policy =
     (if \<not> valid_contract contract \<or> \<not> identityPattern objectiveID \<or> \<not> identityPattern stepID \<or> \<not> valid_policy policy
      then []
      else sha256Digest (acceptanceDigestDomain @ encodeJson (contractJson contract objectiveID stepID policy)))"

subsection \<open>Anchors and scopes\<close>

definition anchorDevicePattern :: "string \<Rightarrow> bool" where
  [pattern_defs]: "anchorDevicePattern = prefixPattern ''ed_'' isHex 32 32"
definition anchorWorkspacePattern :: "string \<Rightarrow> bool" where
  [pattern_defs]: "anchorWorkspacePattern = prefixPattern ''ws_'' isHex 32 32"
definition anchorOwnerPattern :: "string \<Rightarrow> bool" where
  [pattern_defs]: "anchorOwnerPattern = enclosedPattern isAlnum (\<lambda>c. isAlnum c \<or> c = CHR ''-'') 37"
definition anchorRepositoryPattern :: "string \<Rightarrow> bool" where
  [pattern_defs]: "anchorRepositoryPattern =
     headPattern isAlnum (\<lambda>c. isAlnum c \<or> c = CHR ''.'' \<or> c = CHR ''_'' \<or> c = CHR ''-'') 0 99"

record WorkspaceAnchor =
  anDeviceID :: string
  anWorkspaceID :: string
  anGeneration :: uint64
  anOwner :: string
  anRepository :: string

definition zeroAnchor :: WorkspaceAnchor where
  "zeroAnchor = \<lparr>anDeviceID = [], anWorkspaceID = [], anGeneration = 0, anOwner = [], anRepository = []\<rparr>"

definition Valid_anchor :: "WorkspaceAnchor \<Rightarrow> bool" where
  "Valid_anchor a \<longleftrightarrow>
     anchorDevicePattern (anDeviceID a) \<and> anchorWorkspacePattern (anWorkspaceID a) \<and> anGeneration a > 0 \<and>
     anGeneration a \<le> 2 ^ 63 - 1 \<and> anchorOwnerPattern (anOwner a) \<and> anchorRepositoryPattern (anRepository a)"

definition projectScopePattern :: "string \<Rightarrow> bool" where
  [pattern_defs]: "projectScopePattern = enclosedPattern isLowerNum (\<lambda>c. isLowerNum c \<or> c = CHR ''-'') 61"
definition targetScopePattern :: "string \<Rightarrow> bool" where
  [pattern_defs]: "targetScopePattern = enclosedPattern isLowerNum (\<lambda>c. isLowerNum c \<or> c = CHR ''-'') 30"

record ObjectiveScope =
  scProject :: string
  scTarget :: string
  scAnchor :: WorkspaceAnchor

definition zeroScope :: ObjectiveScope where
  "zeroScope = \<lparr>scProject = [], scTarget = [], scAnchor = zeroAnchor\<rparr>"

definition Bound :: "ObjectiveScope \<Rightarrow> bool" where
  "Bound s \<longleftrightarrow>
     projectScopePattern (scProject s) \<and> targetScopePattern (scTarget s) \<and>
     (scAnchor s = zeroAnchor \<or> Valid_anchor (scAnchor s))"

definition Pinned :: "ObjectiveScope \<Rightarrow> bool" where
  "Pinned s \<longleftrightarrow> Bound s \<and> Valid_anchor (scAnchor s)"

definition validOrEmpty :: "ObjectiveScope \<Rightarrow> bool" where
  "validOrEmpty s \<longleftrightarrow> s = zeroScope \<or> Bound s"

definition NewObjectiveScope :: "string \<Rightarrow> string \<Rightarrow> devError + ObjectiveScope" where
  "NewObjectiveScope project target =
     (let s = \<lparr>scProject = ToLower (TrimSpace project), scTarget = ToLower (TrimSpace target), scAnchor = zeroAnchor\<rparr>
      in if \<not> Bound s then fail ''development objective scope is invalid'' else Inr s)"

subsection \<open>Objectives\<close>

definition ObjectiveVersion :: int where "ObjectiveVersion = 1"
definition MaxObjectiveSteps :: nat where "MaxObjectiveSteps = 64"
definition MaxAttemptsPerStep :: nat where "MaxAttemptsPerStep = 32"
definition MaxObjectiveRecordBytes :: nat where "MaxObjectiveRecordBytes = 256 * 1024"

definition ValidObjectiveID :: "string \<Rightarrow> bool" where
  "ValidObjectiveID v = identityPattern (TrimSpace v)"

datatype ObjectiveState =
    ObjectivePlanned | ObjectiveRunning | ObjectiveAcceptancePending | ObjectiveAccepted
  | ObjectiveReconciliationRequired | ObjectiveFailed | ObjectiveCancelled | OtherObjectiveState string

datatype StepState = StepPlanned | StepRunning | StepSucceeded | StepFailed | StepCancelled | OtherStepState string

record StepSpec =
  spStepID :: string
  spRequirements :: "Requirement list"
  spAcceptanceContract :: "CommandAcceptanceContract option"

record ObjectiveStep =
  osStepID :: string
  osRequirements :: "Requirement list"
  osAcceptanceContract :: "CommandAcceptanceContract option"
  osAcceptanceReceipt :: "CommandAcceptanceReceipt option"
  osAttempts :: "ExecutionAttempt list"
  osProvisioning :: "ProvisioningAttempt list"
  osState :: StepState

record Objective =
  obVersion :: int
  obObjectiveID :: string
  obRevision :: uint64
  obState :: ObjectiveState
  obScope :: ObjectiveScope
  obPolicy :: ResolutionPolicy
  obSteps :: "ObjectiveStep list"

definition terminal_objective :: "Objective \<Rightarrow> bool" where
  "terminal_objective o' \<longleftrightarrow>
     obState o' = ObjectiveAccepted \<or> obState o' = ObjectiveFailed \<or> obState o' = ObjectiveCancelled"

text \<open>\<open>stepIndex\<close>, with \<^const>\<open>None\<close> for -1.\<close>

fun indexOf :: "('a \<Rightarrow> bool) \<Rightarrow> 'a list \<Rightarrow> nat option" where
  "indexOf p [] = None"
| "indexOf p (x # xs) = (if p x then Some 0 else map_option Suc (indexOf p xs))"

definition stepIndex :: "Objective \<Rightarrow> string \<Rightarrow> nat option" where
  "stepIndex objective stepID0 = (let stepID = TrimSpace stepID0 in indexOf (\<lambda>s. osStepID s = stepID) (obSteps objective))"

definition sameCommandAcceptanceContractMode :: "ObjectiveStep list \<Rightarrow> bool" where
  "sameCommandAcceptanceContractMode steps =
     (let contracted = length (filter (\<lambda>s. osAcceptanceContract s \<noteq> None) steps)
      in contracted = 0 \<or> contracted = length steps)"

definition activeProvisioning :: "ObjectiveStep \<Rightarrow> bool" where
  "activeProvisioning s \<longleftrightarrow>
     length (osProvisioning s) \<noteq> 0 \<and>
     (paState (last (osProvisioning s)) = ProvisioningPlanned \<or> paState (last (osProvisioning s)) = ProvisioningQueued)"

subsection \<open>Acceptance receipts\<close>

definition validExecutionIdentity :: "CommandAcceptanceReceipt \<Rightarrow> ExecutionClass \<Rightarrow> bool" where
  "validExecutionIdentity r class =
     (if crEvidenceProvider r = ''github-run'' then
        class = ClassIsolatedRunner \<and> crOperationID r = [] \<and> runnerEffectPattern (crRunnerEffectID r) \<and>
        crRunnerRunID r > 0 \<and> sourceDigestPattern (crRunnerReceiptDigest r)
      else
        crEvidenceProvider r = [] \<and> class \<noteq> ClassIsolatedRunner \<and> operationRefPattern (crOperationID r) \<and>
        crRunnerEffectID r = [] \<and> crRunnerRunID r = 0 \<and> crRunnerReceiptDigest r = [])"

definition validFor_receipt :: "CommandAcceptanceReceipt \<Rightarrow> Objective \<Rightarrow> nat \<Rightarrow> bool" where
  "validFor_receipt r objective index =
     (if index \<ge> length (obSteps objective) \<or> crObjectiveID r \<noteq> obObjectiveID objective \<or> crExitCode r \<noteq> 0 then False
      else
        let s = obSteps objective ! index
        in case osAcceptanceContract s of
             None \<Rightarrow> False
           | Some contract \<Rightarrow>
              if osStepID s \<noteq> crStepID r \<or> length (osAttempts s) = 0 then False
              else
                let attempt = last (osAttempts s)
                in validExecutionIdentity r (eaClass attempt) \<and> eaState attempt = AttemptSucceeded \<and>
                   crAttemptID r = eaAttemptID attempt \<and>
                   crContractDigest r =
                     digest_contract contract (obObjectiveID objective) (osStepID s) (obPolicy objective) \<and>
                   crCommandDigest r = ccCommandDigest contract \<and> crSourceDigest r = ccSourceDigest contract \<and>
                   crSourceDigest r = eaSourceDigest attempt \<and> crEnvironmentDigest r = eaEnvironmentDigest attempt \<and>
                   crPrivateBodyRef r = ccPrivateBodyRef contract \<and>
                   crPrivateBodyDigest r = ccPrivateBodyDigest contract \<and> crArtifactRefs r = ccArtifactRefs contract)"

subsection \<open>The snapshot validator\<close>

definition validObjectiveState :: "ObjectiveState \<Rightarrow> bool" where
  "validObjectiveState s = (case s of OtherObjectiveState _ \<Rightarrow> False | _ \<Rightarrow> True)"

definition validStepState :: "StepState \<Rightarrow> bool" where
  "validStepState s = (case s of OtherStepState _ \<Rightarrow> False | _ \<Rightarrow> True)"

definition stepStateMatchesAttempts :: "ObjectiveStep \<Rightarrow> bool" where
  "stepStateMatchesAttempts s =
     (if length (osAttempts s) = 0 then osState s = StepPlanned \<or> osState s = StepCancelled
      else
        case eaState (last (osAttempts s)) of
          AttemptPlanned \<Rightarrow> osState s = StepPlanned
        | AttemptRunning \<Rightarrow> osState s = StepRunning
        | AttemptSucceeded \<Rightarrow> osState s = StepSucceeded
        | AttemptFailed \<Rightarrow> osState s = StepFailed
        | AttemptCancelled \<Rightarrow> osState s = StepCancelled
        | OtherAttemptState _ \<Rightarrow> False)"

definition objectiveHasFailureClass :: "Objective \<Rightarrow> FailureClass \<Rightarrow> bool" where
  "objectiveHasFailureClass objective class =
     list_ex (\<lambda>s. list_ex (\<lambda>a. eaState a = AttemptFailed \<and> eaFailure a = class) (osAttempts s)) (obSteps objective)"

text \<open>
  The loop of \<open>validateObjectiveAttempts\<close>: \<open>previous\<close> is the attempt before the one
  looked at, \<open>global\<close> the identifiers met so far, returned with those of the step.
\<close>

fun validateAttemptsFrom ::
  "string \<Rightarrow> ExecutionAttempt option \<Rightarrow> string list \<Rightarrow> ExecutionAttempt list \<Rightarrow> devError + string list" where
  "validateAttemptsFrom stepID previous global [] = Inr global"
| "validateAttemptsFrom stepID previous global (a # as) =
     (if \<not> validIdentity a \<or> eaStepID a \<noteq> stepID then fail ''development objective attempt snapshot is invalid''
      else if eaAttemptID a \<in> set global then fail ''development objective attempt snapshot is invalid''
      else if (case previous of None \<Rightarrow> eaParentAttemptID a \<noteq> [] | Some p \<Rightarrow> \<not> validAttemptContinuation p a) then
        fail ''development objective attempt snapshot is invalid''
      else if (if eaState a = AttemptFailed then ContinuationForFailure (eaFailure a) = None else eaFailure a \<noteq> NoFailure)
      then fail ''development objective attempt snapshot is invalid''
      else validateAttemptsFrom stepID (Some a) (eaAttemptID a # global) as)"

definition validateObjectiveAttempts :: "ObjectiveStep \<Rightarrow> string list \<Rightarrow> devError + string list" where
  "validateObjectiveAttempts s global = validateAttemptsFrom (osStepID s) None global (osAttempts s)"

fun validateProvisionsFrom ::
  "ResolutionPolicy \<Rightarrow> string list \<Rightarrow> ProvisioningAttempt list \<Rightarrow> devError + string list" where
  "validateProvisionsFrom policy global [] = Inr global"
| "validateProvisionsFrom policy global (p # ps) =
     (if \<not> Valid_provision p \<or> \<not> AllowsClass policy (ppOutputClass (paPlan p)) then
        fail ''development provisioning snapshot is invalid''
      else if paProvisionID p \<in> set global then fail ''development provisioning identity duplicated''
      else if ps \<noteq> [] \<and> (paState p = ProvisioningPlanned \<or> paState p = ProvisioningQueued) then
        fail ''development provisioning history is active''
      else validateProvisionsFrom policy (paProvisionID p # global) ps)"

definition validateObjectiveProvisioning ::
  "ObjectiveStep \<Rightarrow> ResolutionPolicy \<Rightarrow> string list \<Rightarrow> devError + string list" where
  "validateObjectiveProvisioning s policy global =
     (if length (osProvisioning s) > MaxProvisioningAttemptsPerStep then fail ''development provisioning bound exceeded''
      else
        case validateProvisionsFrom policy global (osProvisioning s) of
          Inl e \<Rightarrow> Inl e
        | Inr global' \<Rightarrow>
           if activeProvisioning s \<and>
              (osState s = StepRunning \<or> osState s = StepSucceeded \<or> osState s = StepCancelled)
           then fail ''development provisioning overlaps execution''
           else if activeProvisioning s \<and>
              \<not> Covers (paPlan (last (osProvisioning s))) (requirementIDs (osRequirements s))
           then fail ''development provisioning no longer covers requirements''
           else Inr global')"

text \<open>What the loop over the steps carries along.\<close>

record snapshotScan =
  ssStepIDs :: "string list"
  ssAttemptIDs :: "string list"
  ssOperationIDs :: "string list"
  ssReceiptCount :: nat
  ssAllSucceeded :: bool

definition validateReceipt :: "Objective \<Rightarrow> nat \<Rightarrow> snapshotScan \<Rightarrow> devError + snapshotScan" where
  "validateReceipt objective index scan =
     (let s = obSteps objective ! index
      in case osAcceptanceReceipt s of
           None \<Rightarrow> Inr scan
         | Some r \<Rightarrow>
            if osAcceptanceContract s = None \<or> obState objective \<noteq> ObjectiveAccepted \<or>
               \<not> validFor_receipt r objective index
            then fail ''development command acceptance receipt is invalid''
            else if crOperationID r \<in> set (ssOperationIDs scan) then
              fail ''development command acceptance receipt is duplicated''
            else Inr (scan\<lparr>ssOperationIDs := crOperationID r # ssOperationIDs scan,
                          ssReceiptCount := ssReceiptCount scan + 1\<rparr>))"

definition validateStep :: "Objective \<Rightarrow> nat \<Rightarrow> snapshotScan \<Rightarrow> devError + snapshotScan" where
  "validateStep objective index scan =
     (let s = obSteps objective ! index
      in if \<not> identityPattern (osStepID s) \<or> \<not> validStepState (osState s) \<or>
            length (osAttempts s) > MaxAttemptsPerStep
         then fail ''development objective snapshot is invalid''
         else if osStepID s \<in> set (ssStepIDs scan) then fail ''development objective snapshot is invalid''
         else if (case normalizeRequirementList (osRequirements s) of
                    Inl e \<Rightarrow> True
                  | Inr normalized \<Rightarrow> \<not> sameRequirements (osRequirements s) normalized)
         then fail ''development objective snapshot is invalid''
         else
           case validateObjectiveAttempts s (ssAttemptIDs scan) of
             Inl e \<Rightarrow> Inl e
           | Inr global \<Rightarrow>
              if (case osAcceptanceContract s of
                    None \<Rightarrow> False
                  | Some c \<Rightarrow> \<not> validFor_contract c (obPolicy objective) (osRequirements s))
              then fail ''development command acceptance contract is invalid''
              else if (case osAcceptanceContract s of
                    None \<Rightarrow> False
                  | Some c \<Rightarrow> list_ex (\<lambda>a. eaSourceDigest a \<noteq> ccSourceDigest c) (osAttempts s))
              then fail ''development command acceptance source changed''
              else
                case validateReceipt objective index scan of
                  Inl e \<Rightarrow> Inl e
                | Inr scan' \<Rightarrow>
                   if list_ex (\<lambda>a. \<not> AllowsClass (obPolicy objective) (eaClass a)) (osAttempts s) then
                     fail ''development attempt exceeds authority policy''
                   else
                     case validateObjectiveProvisioning s (obPolicy objective) global of
                       Inl e \<Rightarrow> Inl e
                     | Inr global' \<Rightarrow>
                        if \<not> stepStateMatchesAttempts s then fail ''development objective snapshot is invalid''
                        else Inr (scan'\<lparr>ssStepIDs := osStepID s # ssStepIDs scan', ssAttemptIDs := global',
                                       ssAllSucceeded := (ssAllSucceeded scan' \<and> osState s = StepSucceeded)\<rparr>))"

fun validateSteps :: "Objective \<Rightarrow> nat \<Rightarrow> nat \<Rightarrow> snapshotScan \<Rightarrow> devError + snapshotScan" where
  "validateSteps objective index 0 scan = Inr scan"
| "validateSteps objective index (Suc n) scan =
     (case validateStep objective index scan of
        Inl e \<Rightarrow> Inl e
      | Inr scan' \<Rightarrow> validateSteps objective (index + 1) n scan')"

text \<open>The final \<open>switch\<close> on the state of the objective.\<close>

definition stateInvalid :: "Objective \<Rightarrow> snapshotScan \<Rightarrow> devError option" where
  "stateInvalid objective scan =
     (let contracted = (length (obSteps objective) \<noteq> 0 \<and> osAcceptanceContract (hd (obSteps objective)) \<noteq> None)
      in case obState objective of
        ObjectivePlanned \<Rightarrow>
          if list_ex (\<lambda>s. osState s \<noteq> StepPlanned \<or> length (osAttempts s) \<noteq> 0 \<or> length (osProvisioning s) \<noteq> 0)
               (obSteps objective)
          then Some (Err ''development objective snapshot is invalid'') else None
      | ObjectiveRunning \<Rightarrow>
          if ssAllSucceeded scan then Some (Err ''development objective snapshot is invalid'') else None
      | ObjectiveAcceptancePending \<Rightarrow>
          if \<not> ssAllSucceeded scan then Some (Err ''development objective snapshot is invalid'')
          else if ssReceiptCount scan \<noteq> 0 then Some (Err ''development acceptance evidence is premature'')
          else None
      | ObjectiveAccepted \<Rightarrow>
          if \<not> ssAllSucceeded scan then Some (Err ''development objective snapshot is invalid'')
          else if contracted \<and> ssReceiptCount scan \<noteq> length (obSteps objective) \<or>
              \<not> contracted \<and> ssReceiptCount scan \<noteq> 0
          then Some (Err ''development accepted objective lacks required evidence'') else None
      | ObjectiveReconciliationRequired \<Rightarrow>
          if \<not> objectiveHasFailureClass objective FailureReconciliationNeeded then
            Some (Err ''development objective snapshot is invalid'')
          else None
      | ObjectiveFailed \<Rightarrow>
          if \<not> list_ex (\<lambda>s. osState s = StepFailed) (obSteps objective) then
            Some (Err ''development objective snapshot is invalid'')
          else None
      | ObjectiveCancelled \<Rightarrow>
          if list_ex (\<lambda>s. osState s = StepRunning \<or> osState s = StepPlanned \<or> activeProvisioning s) (obSteps objective)
          then Some (Err ''development objective snapshot is invalid'') else None
      | OtherObjectiveState _ \<Rightarrow> None)"

definition validateObjectiveSnapshot :: "Objective \<Rightarrow> devError option" where
  "validateObjectiveSnapshot objective =
     (if obVersion objective \<noteq> ObjectiveVersion \<or> \<not> identityPattern (obObjectiveID objective) \<or>
         obRevision objective = 0 \<or> \<not> validOrEmpty (obScope objective) \<or> \<not> valid_policy (obPolicy objective) \<or>
         length (obSteps objective) = 0 \<or> length (obSteps objective) > MaxObjectiveSteps \<or>
         \<not> validObjectiveState (obState objective)
      then Some (Err ''development objective snapshot is invalid'')
      else if \<not> sameCommandAcceptanceContractMode (obSteps objective) then
        Some (Err ''development objective acceptance mode is invalid'')
      else
        case validateSteps objective 0 (length (obSteps objective))
               \<lparr>ssStepIDs = [], ssAttemptIDs = [], ssOperationIDs = [], ssReceiptCount = 0, ssAllSucceeded = True\<rparr> of
          Inl e \<Rightarrow> Some e
        | Inr scan \<Rightarrow> stateInvalid objective scan)"

definition Valid_objective :: "Objective \<Rightarrow> bool" where
  "Valid_objective objective \<longleftrightarrow> validateObjectiveSnapshot objective = None"

subsection \<open>Valid snapshots, declaratively\<close>

definition attemptFailureOk :: "ExecutionAttempt \<Rightarrow> bool" where
  "attemptFailureOk a \<longleftrightarrow>
     (if eaState a = AttemptFailed then ContinuationForFailure (eaFailure a) \<noteq> None else eaFailure a = NoFailure)"

definition attemptsOk :: "string \<Rightarrow> ExecutionAttempt list \<Rightarrow> bool" where
  "attemptsOk stepID as \<longleftrightarrow>
     (\<forall>a \<in> set as. validIdentity a \<and> eaStepID a = stepID \<and> attemptFailureOk a) \<and>
     (as \<noteq> [] \<longrightarrow> eaParentAttemptID (hd as) = []) \<and> successively validAttemptContinuation as"

definition activeState_provision :: "ProvisioningAttempt \<Rightarrow> bool" where
  "activeState_provision p \<longleftrightarrow> paState p = ProvisioningPlanned \<or> paState p = ProvisioningQueued"

definition provisionsOk :: "ResolutionPolicy \<Rightarrow> ProvisioningAttempt list \<Rightarrow> bool" where
  "provisionsOk policy ps \<longleftrightarrow>
     (\<forall>p \<in> set ps. Valid_provision p \<and> AllowsClass policy (ppOutputClass (paPlan p))) \<and>
     (\<forall>p \<in> set (butlast ps). \<not> activeState_provision p)"

definition receiptFits :: "string \<Rightarrow> ResolutionPolicy \<Rightarrow> ObjectiveStep \<Rightarrow> CommandAcceptanceReceipt \<Rightarrow> bool" where
  "receiptFits objectiveID policy s r \<longleftrightarrow>
     crObjectiveID r = objectiveID \<and> crExitCode r = 0 \<and> osStepID s = crStepID r \<and> osAttempts s \<noteq> [] \<and>
     (\<exists>contract attempt. osAcceptanceContract s = Some contract \<and> attempt = last (osAttempts s) \<and>
        validExecutionIdentity r (eaClass attempt) \<and> eaState attempt = AttemptSucceeded \<and>
        crAttemptID r = eaAttemptID attempt \<and>
        crContractDigest r = digest_contract contract objectiveID (osStepID s) policy \<and>
        crCommandDigest r = ccCommandDigest contract \<and> crSourceDigest r = ccSourceDigest contract \<and>
        crSourceDigest r = eaSourceDigest attempt \<and> crEnvironmentDigest r = eaEnvironmentDigest attempt \<and>
        crPrivateBodyRef r = ccPrivateBodyRef contract \<and> crPrivateBodyDigest r = ccPrivateBodyDigest contract \<and>
        crArtifactRefs r = ccArtifactRefs contract)"

lemma validFor_receipt_iff:
  "validFor_receipt r o' i \<longleftrightarrow>
     i < length (obSteps o') \<and> receiptFits (obObjectiveID o') (obPolicy o') (obSteps o' ! i) r"
  by (auto simp: validFor_receipt_def receiptFits_def Let_def split: option.splits)

definition contractOk :: "ResolutionPolicy \<Rightarrow> ObjectiveStep \<Rightarrow> bool" where
  "contractOk policy s \<longleftrightarrow>
     (\<forall>c. osAcceptanceContract s = Some c \<longrightarrow>
        validFor_contract c policy (osRequirements s) \<and> (\<forall>a \<in> set (osAttempts s). eaSourceDigest a = ccSourceDigest c))"

definition receiptOk :: "string \<Rightarrow> ResolutionPolicy \<Rightarrow> ObjectiveState \<Rightarrow> ObjectiveStep \<Rightarrow> bool" where
  "receiptOk objectiveID policy state s \<longleftrightarrow>
     (\<forall>r. osAcceptanceReceipt s = Some r \<longrightarrow>
        osAcceptanceContract s \<noteq> None \<and> state = ObjectiveAccepted \<and> receiptFits objectiveID policy s r)"

text \<open>Everything the validator checks of one step but the receipt.\<close>

definition stepOk :: "ResolutionPolicy \<Rightarrow> ObjectiveStep \<Rightarrow> bool" where
  "stepOk policy s \<longleftrightarrow>
     identityPattern (osStepID s) \<and> validStepState (osState s) \<and> length (osAttempts s) \<le> MaxAttemptsPerStep \<and>
     canonicalRequirements (osRequirements s) \<and> attemptsOk (osStepID s) (osAttempts s) \<and> contractOk policy s \<and>
     (\<forall>a \<in> set (osAttempts s). AllowsClass policy (eaClass a)) \<and>
     length (osProvisioning s) \<le> MaxProvisioningAttemptsPerStep \<and> provisionsOk policy (osProvisioning s) \<and>
     (activeProvisioning s \<longrightarrow>
        osState s \<notin> {StepRunning, StepSucceeded, StepCancelled} \<and>
        Covers (paPlan (last (osProvisioning s))) (requirementIDs (osRequirements s))) \<and>
     stepStateMatchesAttempts s"

definition attemptIDs :: "ObjectiveStep \<Rightarrow> string list" where
  "attemptIDs s = map eaAttemptID (osAttempts s) @ map paProvisionID (osProvisioning s)"

definition operationIDs :: "ObjectiveStep list \<Rightarrow> string list" where
  "operationIDs ss = map crOperationID (List.map_filter osAcceptanceReceipt ss)"

definition stateOk :: "Objective \<Rightarrow> bool" where
  "stateOk o' =
     (let allSucceeded = (\<forall>s \<in> set (obSteps o'). osState s = StepSucceeded);
          receipts = length (operationIDs (obSteps o'));
          contracted = (osAcceptanceContract (hd (obSteps o')) \<noteq> None)
      in case obState o' of
        ObjectivePlanned \<Rightarrow> (\<forall>s \<in> set (obSteps o'). osState s = StepPlanned \<and> osAttempts s = [] \<and> osProvisioning s = [])
      | ObjectiveRunning \<Rightarrow> \<not> allSucceeded
      | ObjectiveAcceptancePending \<Rightarrow> allSucceeded \<and> receipts = 0
      | ObjectiveAccepted \<Rightarrow> allSucceeded \<and> receipts = (if contracted then length (obSteps o') else 0)
      | ObjectiveReconciliationRequired \<Rightarrow> objectiveHasFailureClass o' FailureReconciliationNeeded
      | ObjectiveFailed \<Rightarrow> (\<exists>s \<in> set (obSteps o'). osState s = StepFailed)
      | ObjectiveCancelled \<Rightarrow>
          (\<forall>s \<in> set (obSteps o'). osState s \<noteq> StepRunning \<and> osState s \<noteq> StepPlanned \<and> \<not> activeProvisioning s)
      | OtherObjectiveState _ \<Rightarrow> False)"

definition headerOk :: "Objective \<Rightarrow> bool" where
  "headerOk o' \<longleftrightarrow>
     obVersion o' = ObjectiveVersion \<and> identityPattern (obObjectiveID o') \<and> obRevision o' \<noteq> 0 \<and>
     validOrEmpty (obScope o') \<and> valid_policy (obPolicy o') \<and> obSteps o' \<noteq> [] \<and>
     length (obSteps o') \<le> MaxObjectiveSteps \<and> sameCommandAcceptanceContractMode (obSteps o')"

definition objectiveOk :: "Objective \<Rightarrow> bool" where
  "objectiveOk o' \<longleftrightarrow>
     headerOk o' \<and>
     (\<forall>s \<in> set (obSteps o'). stepOk (obPolicy o') s \<and> receiptOk (obObjectiveID o') (obPolicy o') (obState o') s) \<and>
     distinct (map osStepID (obSteps o')) \<and> distinct (concat (map attemptIDs (obSteps o'))) \<and>
     distinct (operationIDs (obSteps o')) \<and> stateOk o'"

subsection \<open>The validator decides it\<close>

lemma validateAttemptsFrom_Inr:
  "validateAttemptsFrom stepID previous global as = Inr g \<longleftrightarrow>
     (\<forall>a \<in> set as. validIdentity a \<and> eaStepID a = stepID \<and> attemptFailureOk a) \<and>
     (as \<noteq> [] \<longrightarrow> (case previous of None \<Rightarrow> eaParentAttemptID (hd as) = [] | Some p \<Rightarrow> validAttemptContinuation p (hd as))) \<and>
     successively validAttemptContinuation as \<and>
     distinct (map eaAttemptID as) \<and> set (map eaAttemptID as) \<inter> set global = {} \<and>
     g = rev (map eaAttemptID as) @ global"
proof (induction as arbitrary: previous global)
  case (Cons a as)
  have "successively validAttemptContinuation (a # as) \<longleftrightarrow>
      (as \<noteq> [] \<longrightarrow> validAttemptContinuation a (hd as)) \<and> successively validAttemptContinuation as"
    by (cases as) auto
  then show ?case
    using Cons.IH [of "Some a" "eaAttemptID a # global"]
    by (auto simp: attemptFailureOk_def split: option.splits)
qed auto

lemma validateObjectiveAttempts_Inr:
  "validateObjectiveAttempts s global = Inr g \<longleftrightarrow>
     attemptsOk (osStepID s) (osAttempts s) \<and> distinct (map eaAttemptID (osAttempts s)) \<and>
     set (map eaAttemptID (osAttempts s)) \<inter> set global = {} \<and> g = rev (map eaAttemptID (osAttempts s)) @ global"
  by (auto simp: validateObjectiveAttempts_def validateAttemptsFrom_Inr attemptsOk_def)

lemma validateProvisionsFrom_Inr:
  "validateProvisionsFrom policy global ps = Inr g \<longleftrightarrow>
     provisionsOk policy ps \<and> distinct (map paProvisionID ps) \<and> set (map paProvisionID ps) \<inter> set global = {} \<and>
     g = rev (map paProvisionID ps) @ global"
proof (induction ps arbitrary: global)
  case (Cons p ps)
  show ?case
    using Cons.IH [of "paProvisionID p # global"]
    by (cases ps) (auto simp: provisionsOk_def activeState_provision_def)
qed (auto simp: provisionsOk_def)

lemma validateObjectiveProvisioning_Inr:
  "validateObjectiveProvisioning s policy global = Inr g \<longleftrightarrow>
     length (osProvisioning s) \<le> MaxProvisioningAttemptsPerStep \<and> provisionsOk policy (osProvisioning s) \<and>
     (activeProvisioning s \<longrightarrow>
        osState s \<notin> {StepRunning, StepSucceeded, StepCancelled} \<and>
        Covers (paPlan (last (osProvisioning s))) (requirementIDs (osRequirements s))) \<and>
     distinct (map paProvisionID (osProvisioning s)) \<and> set (map paProvisionID (osProvisioning s)) \<inter> set global = {} \<and>
     g = rev (map paProvisionID (osProvisioning s)) @ global"
  using validateProvisionsFrom_Inr [of policy global "osProvisioning s"]
  by (auto simp: validateObjectiveProvisioning_def not_less split: sum.splits if_splits)

definition scanStep :: "ObjectiveStep \<Rightarrow> snapshotScan \<Rightarrow> snapshotScan" where
  "scanStep s scan =
     \<lparr>ssStepIDs = osStepID s # ssStepIDs scan, ssAttemptIDs = rev (attemptIDs s) @ ssAttemptIDs scan,
      ssOperationIDs = operationIDs [s] @ ssOperationIDs scan,
      ssReceiptCount = ssReceiptCount scan + length (operationIDs [s]),
      ssAllSucceeded = (ssAllSucceeded scan \<and> osState s = StepSucceeded)\<rparr>"

lemma operationIDs_simps [simp]:
  "operationIDs [] = []"
  "operationIDs (s # ss) = (case osAcceptanceReceipt s of None \<Rightarrow> [] | Some r \<Rightarrow> [crOperationID r]) @ operationIDs ss"
  "operationIDs (ss @ ts) = operationIDs ss @ operationIDs ts"
  by (simp_all add: operationIDs_def map_filter_def split: option.splits)

lemma validateReceipt_Inr:
  assumes "i < length (obSteps o')" and "s = obSteps o' ! i"
  shows "validateReceipt o' i scan = Inr scan' \<longleftrightarrow>
     receiptOk (obObjectiveID o') (obPolicy o') (obState o') s \<and> set (operationIDs [s]) \<inter> set (ssOperationIDs scan) = {} \<and>
     scan' = scan\<lparr>ssOperationIDs := operationIDs [s] @ ssOperationIDs scan,
                 ssReceiptCount := ssReceiptCount scan + length (operationIDs [s])\<rparr>"
  using assms
  by (auto simp: validateReceipt_def receiptOk_def validFor_receipt_iff Let_def split: option.splits)

lemma requirements_checked:
  "(case normalizeRequirementList rs of Inl e \<Rightarrow> True | Inr n \<Rightarrow> \<not> sameRequirements rs n) \<longleftrightarrow> \<not> canonicalRequirements rs"
  unfolding canonicalRequirements_iff by (auto split: sum.splits)

lemma contract_checked:
  "(case osAcceptanceContract s of None \<Rightarrow> False | Some c \<Rightarrow> \<not> validFor_contract c p (osRequirements s)) \<or>
   (case osAcceptanceContract s of None \<Rightarrow> False | Some c \<Rightarrow> list_ex (\<lambda>a. eaSourceDigest a \<noteq> ccSourceDigest c) (osAttempts s)) \<longleftrightarrow>
   \<not> contractOk p s"
  by (auto simp: contractOk_def list_ex_iff split: option.splits)

lemma validateStep_Inr:
  assumes "i < length (obSteps o')" and "s = obSteps o' ! i"
  shows "validateStep o' i scan = Inr scan' \<longleftrightarrow>
     stepOk (obPolicy o') s \<and> receiptOk (obObjectiveID o') (obPolicy o') (obState o') s \<and>
     osStepID s \<notin> set (ssStepIDs scan) \<and> distinct (attemptIDs s) \<and> set (attemptIDs s) \<inter> set (ssAttemptIDs scan) = {} \<and>
     set (operationIDs [s]) \<inter> set (ssOperationIDs scan) = {} \<and> scan' = scanStep s scan"
proof -
  let ?p = "obPolicy o'"
  define G where "G = rev (map eaAttemptID (osAttempts s)) @ ssAttemptIDs scan"
  define R where "R = scan\<lparr>ssOperationIDs := operationIDs [s] @ ssOperationIDs scan,
                 ssReceiptCount := ssReceiptCount scan + length (operationIDs [s])\<rparr>"
  define G' where "G' = rev (map paProvisionID (osProvisioning s)) @ G"
  have "validateStep o' i scan = Inr scan' \<longleftrightarrow>
     identityPattern (osStepID s) \<and> validStepState (osState s) \<and> length (osAttempts s) \<le> MaxAttemptsPerStep \<and>
     osStepID s \<notin> set (ssStepIDs scan) \<and> canonicalRequirements (osRequirements s) \<and>
     validateObjectiveAttempts s (ssAttemptIDs scan) = Inr G \<and> contractOk ?p s \<and>
     validateReceipt o' i scan = Inr R \<and> (\<forall>a \<in> set (osAttempts s). AllowsClass ?p (eaClass a)) \<and>
     validateObjectiveProvisioning s ?p G = Inr G' \<and> stepStateMatchesAttempts s \<and> scan' = scanStep s scan"
    (is "?L \<longleftrightarrow> ?R")
  proof
    assume L: ?L
    then obtain g r g' where *: "identityPattern (osStepID s) \<and> validStepState (osState s) \<and> length (osAttempts s) \<le> MaxAttemptsPerStep"
      "osStepID s \<notin> set (ssStepIDs scan)" "canonicalRequirements (osRequirements s)"
      "validateObjectiveAttempts s (ssAttemptIDs scan) = Inr g" "contractOk ?p s" "validateReceipt o' i scan = Inr r"
      "\<forall>a \<in> set (osAttempts s). AllowsClass ?p (eaClass a)" "validateObjectiveProvisioning s ?p g = Inr g'"
      "stepStateMatchesAttempts s"
      "scan' = r\<lparr>ssStepIDs := osStepID s # ssStepIDs r, ssAttemptIDs := g', ssAllSucceeded := (ssAllSucceeded r \<and> osState s = StepSucceeded)\<rparr>"
      unfolding validateStep_def Let_def assms(2) [symmetric] requirements_checked
      using contract_checked [of ?p s]
      by (auto simp: list_ex_iff not_less split: if_splits sum.splits)
    have g: "g = G" "r = R"
      using *(4,6) validateObjectiveAttempts_Inr [of s "ssAttemptIDs scan" g] validateReceipt_Inr [OF assms, of scan r]
      by (simp_all add: G_def R_def)
    moreover have "g' = G'"
      using *(8) validateObjectiveProvisioning_Inr [of s ?p g g'] by (simp add: G'_def g)
    moreover have "scan' = scanStep s scan"
      unfolding *(10) g \<open>g' = G'\<close> by (simp add: R_def G'_def G_def scanStep_def attemptIDs_def)
    ultimately show ?R using * by simp
  next
    assume R: ?R
    have "scanStep s scan = R\<lparr>ssStepIDs := osStepID s # ssStepIDs R, ssAttemptIDs := G',
        ssAllSucceeded := (ssAllSucceeded R \<and> osState s = StepSucceeded)\<rparr>"
      by (simp add: R_def G'_def G_def scanStep_def attemptIDs_def)
    with R show ?L
      unfolding validateStep_def Let_def assms(2) [symmetric] requirements_checked
      using contract_checked [of ?p s]
      by (auto simp: list_ex_iff not_less)
  qed
  also have "\<dots> \<longleftrightarrow> stepOk ?p s \<and> receiptOk (obObjectiveID o') ?p (obState o') s \<and>
     osStepID s \<notin> set (ssStepIDs scan) \<and> distinct (attemptIDs s) \<and> set (attemptIDs s) \<inter> set (ssAttemptIDs scan) = {} \<and>
     set (operationIDs [s]) \<inter> set (ssOperationIDs scan) = {} \<and> scan' = scanStep s scan"
    unfolding validateObjectiveAttempts_Inr validateObjectiveProvisioning_Inr validateReceipt_Inr [OF assms]
      G_def [symmetric] R_def [symmetric] G'_def [symmetric] stepOk_def attemptIDs_def distinct_append set_append
    unfolding G_def set_append set_rev by blast
  finally show ?thesis .
qed

lemma validateSteps_Inr:
  assumes "i + n = length (obSteps o')" and "ss = drop i (obSteps o')"
  shows "validateSteps o' i n scan = Inr scan' \<longleftrightarrow>
     (\<forall>s \<in> set ss. stepOk (obPolicy o') s \<and> receiptOk (obObjectiveID o') (obPolicy o') (obState o') s) \<and>
     distinct (map osStepID ss) \<and> set (map osStepID ss) \<inter> set (ssStepIDs scan) = {} \<and>
     distinct (concat (map attemptIDs ss)) \<and> set (concat (map attemptIDs ss)) \<inter> set (ssAttemptIDs scan) = {} \<and>
     distinct (operationIDs ss) \<and> set (operationIDs ss) \<inter> set (ssOperationIDs scan) = {} \<and>
     scan' = fold scanStep ss scan"
  using assms
proof (induction n arbitrary: i ss scan)
  case (Suc n)
  have i: "i < length (obSteps o')" using Suc.prems(1) by simp
  let ?s = "obSteps o' ! i" and ?ss = "drop (Suc i) (obSteps o')"
  have ss: "ss = ?s # ?ss" using i Suc.prems(2) by (simp add: Cons_nth_drop_Suc)
  have IH: "validateSteps o' (Suc i) n (scanStep ?s scan) = Inr scan' \<longleftrightarrow>
     (\<forall>s \<in> set ?ss. stepOk (obPolicy o') s \<and> receiptOk (obObjectiveID o') (obPolicy o') (obState o') s) \<and>
     distinct (map osStepID ?ss) \<and> set (map osStepID ?ss) \<inter> set (ssStepIDs (scanStep ?s scan)) = {} \<and>
     distinct (concat (map attemptIDs ?ss)) \<and> set (concat (map attemptIDs ?ss)) \<inter> set (ssAttemptIDs (scanStep ?s scan)) = {} \<and>
     distinct (operationIDs ?ss) \<and> set (operationIDs ?ss) \<inter> set (ssOperationIDs (scanStep ?s scan)) = {} \<and>
     scan' = fold scanStep ?ss (scanStep ?s scan)"
    by (rule Suc.IH) (use Suc.prems(1) in auto)
  show ?case
  proof (cases "validateStep o' i scan")
    case (Inl e)
    then have "\<not> (stepOk (obPolicy o') ?s \<and> receiptOk (obObjectiveID o') (obPolicy o') (obState o') ?s \<and>
       osStepID ?s \<notin> set (ssStepIDs scan) \<and> distinct (attemptIDs ?s) \<and> set (attemptIDs ?s) \<inter> set (ssAttemptIDs scan) = {} \<and>
       set (operationIDs [?s]) \<inter> set (ssOperationIDs scan) = {})"
      using validateStep_Inr [OF i refl, of scan "scanStep ?s scan"] by auto
    then show ?thesis using Inl by (auto simp: ss)
  next
    case (Inr scan1)
    then have s: "stepOk (obPolicy o') ?s \<and> receiptOk (obObjectiveID o') (obPolicy o') (obState o') ?s \<and>
       osStepID ?s \<notin> set (ssStepIDs scan) \<and> distinct (attemptIDs ?s) \<and> set (attemptIDs ?s) \<inter> set (ssAttemptIDs scan) = {} \<and>
       set (operationIDs [?s]) \<inter> set (ssOperationIDs scan) = {}" and scan1: "scan1 = scanStep ?s scan"
      using validateStep_Inr [OF i refl, of scan scan1] by auto
    have step: "validateSteps o' i (Suc n) scan = validateSteps o' (Suc i) n (scanStep ?s scan)"
      by (simp add: Inr scan1)
    have steps: "set (map osStepID ?ss) \<inter> set (ssStepIDs (scanStep ?s scan)) = {} \<longleftrightarrow>
        osStepID ?s \<notin> set (map osStepID ?ss) \<and> set (map osStepID ?ss) \<inter> set (ssStepIDs scan) = {}"
      by (auto simp: scanStep_def)
    have ids: "set (concat (map attemptIDs ?ss)) \<inter> set (ssAttemptIDs (scanStep ?s scan)) = {} \<longleftrightarrow>
        set (attemptIDs ?s) \<inter> set (concat (map attemptIDs ?ss)) = {} \<and>
        set (concat (map attemptIDs ?ss)) \<inter> set (ssAttemptIDs scan) = {}"
      unfolding scanStep_def snapshotScan.simps set_append set_rev by blast
    have ops: "set (operationIDs ?ss) \<inter> set (ssOperationIDs (scanStep ?s scan)) = {} \<longleftrightarrow>
        set (operationIDs [?s]) \<inter> set (operationIDs ?ss) = {} \<and> set (operationIDs ?ss) \<inter> set (ssOperationIDs scan) = {}"
      unfolding scanStep_def snapshotScan.simps set_append by blast
    have cons: "operationIDs ss = operationIDs [?s] @ operationIDs ?ss" unfolding ss by simp
    have one: "distinct (operationIDs [?s])" by (simp split: option.splits)
    show ?thesis
      unfolding step IH steps ids ops cons distinct_append set_append
      using s one unfolding ss by (simp only: list.map concat.simps distinct.simps distinct_append set_append list.set
          fold_Cons comp_apply) blast
  qed
qed (auto)

lemma fold_scanStep:
  "fold scanStep ss scan =
     \<lparr>ssStepIDs = rev (map osStepID ss) @ ssStepIDs scan,
      ssAttemptIDs = rev (concat (map attemptIDs ss)) @ ssAttemptIDs scan,
      ssOperationIDs = rev (operationIDs ss) @ ssOperationIDs scan,
      ssReceiptCount = ssReceiptCount scan + length (operationIDs ss),
      ssAllSucceeded = (ssAllSucceeded scan \<and> (\<forall>s \<in> set ss. osState s = StepSucceeded))\<rparr>"
  by (induction ss arbitrary: scan) (auto simp: scanStep_def split: option.splits)

lemma stateInvalid_None:
  assumes "ssAllSucceeded scan \<longleftrightarrow> (\<forall>s \<in> set (obSteps o'). osState s = StepSucceeded)"
    and "ssReceiptCount scan = length (operationIDs (obSteps o'))" and "obSteps o' \<noteq> []"
    and "validObjectiveState (obState o')"
  shows "stateInvalid o' scan = None \<longleftrightarrow> stateOk o'"
  using assms
  by (cases "obState o'")
    (auto simp: stateInvalid_def stateOk_def Let_def list_ex_iff validObjectiveState_def)

lemma Valid_objective_iff: "Valid_objective o' \<longleftrightarrow> objectiveOk o'"
proof (cases "headerOk o' \<and> validObjectiveState (obState o')")
  case False
  have "stateOk o' \<Longrightarrow> validObjectiveState (obState o')"
    by (auto simp: stateOk_def validObjectiveState_def Let_def split: ObjectiveState.splits)
  with False show ?thesis
    by (auto simp: Valid_objective_def objectiveOk_def validateObjectiveSnapshot_def headerOk_def)
next
  case True
  let ?s0 = "\<lparr>ssStepIDs = [], ssAttemptIDs = [], ssOperationIDs = [], ssReceiptCount = 0, ssAllSucceeded = True\<rparr>"
  have header: "Valid_objective o' \<longleftrightarrow>
      (case validateSteps o' 0 (length (obSteps o')) ?s0 of Inl e \<Rightarrow> Some e | Inr scan \<Rightarrow> stateInvalid o' scan) = None"
    using True by (auto simp: Valid_objective_def validateObjectiveSnapshot_def headerOk_def)
  note steps = validateSteps_Inr [of 0 "length (obSteps o')" o' "obSteps o'" ?s0]
  show ?thesis
  proof (cases "validateSteps o' 0 (length (obSteps o')) ?s0")
    case (Inl e)
    then have "\<not> objectiveOk o'" using steps [of "fold scanStep (obSteps o') ?s0"] by (auto simp: objectiveOk_def)
    then show ?thesis using header Inl by simp
  next
    case (Inr scan)
    then have *: "(\<forall>s \<in> set (obSteps o'). stepOk (obPolicy o') s \<and> receiptOk (obObjectiveID o') (obPolicy o') (obState o') s)"
      "distinct (map osStepID (obSteps o'))" "distinct (concat (map attemptIDs (obSteps o')))"
      "distinct (operationIDs (obSteps o'))" "scan = fold scanStep (obSteps o') ?s0"
      using steps [of scan] by simp_all
    have "stateInvalid o' scan = None \<longleftrightarrow> stateOk o'"
      by (rule stateInvalid_None) (use True *(5) in \<open>auto simp: fold_scanStep headerOk_def\<close>)
    then show ?thesis using header Inr * True by (simp add: objectiveOk_def)
  qed
qed

end
