(* ===== verification/Dev_Operations.thy ===== *)
theory Dev_Operations
  imports Dev_Objective
begin

text \<open>
  The operations of \<open>internal/development/objective.go\<close> and \<open>provision_objective.go\<close> and
  the receipts of \<open>acceptance.go\<close>: creating an objective, refining requirements, planning,
  starting, rejecting, failing and completing attempts, acceptance with and without
  evidence, cancellation, and the provisioning of environments.
\<close>

subsection \<open>New objectives\<close>

fun newSteps :: "ResolutionPolicy \<Rightarrow> string list \<Rightarrow> StepSpec list \<Rightarrow> devError + ObjectiveStep list" where
  "newSteps policy seen [] = Inr []"
| "newSteps policy seen (spec # specs) =
     (let stepID = TrimSpace (spStepID spec)
      in if \<not> identityPattern stepID then fail ''development objective step is invalid''
         else if stepID \<in> set seen then fail ''development objective step is duplicated''
         else
           case normalizeRequirementList (spRequirements spec) of
             Inl e \<Rightarrow> Inl e
           | Inr requirements \<Rightarrow>
              if (case spAcceptanceContract spec of
                    None \<Rightarrow> False
                  | Some contract \<Rightarrow> \<not> validFor_contract contract policy requirements)
              then fail ''development command acceptance contract does not match objective''
              else
                case newSteps policy (stepID # seen) specs of
                  Inl e \<Rightarrow> Inl e
                | Inr steps \<Rightarrow>
                   Inr (\<lparr>osStepID = stepID, osRequirements = requirements,
                         osAcceptanceContract = spAcceptanceContract spec, osAcceptanceReceipt = None,
                         osAttempts = [], osProvisioning = [], osState = StepPlanned\<rparr> # steps))"

definition NewObjective :: "string \<Rightarrow> ResolutionPolicy \<Rightarrow> StepSpec list \<Rightarrow> devError + Objective" where
  "NewObjective objectiveID0 policy specs =
     (let objectiveID = TrimSpace objectiveID0
      in if \<not> identityPattern objectiveID \<or> \<not> valid_policy policy \<or> length specs = 0 \<or>
            length specs > MaxObjectiveSteps
         then fail ''development objective is invalid''
         else
           case newSteps policy [] specs of
             Inl e \<Rightarrow> Inl e
           | Inr steps \<Rightarrow>
              if \<not> sameCommandAcceptanceContractMode steps then
                fail ''development objective cannot mix command and semantic acceptance''
              else Inr \<lparr>obVersion = ObjectiveVersion, obObjectiveID = objectiveID, obRevision = 1,
                        obState = ObjectivePlanned, obScope = zeroScope, obPolicy = policy, obSteps = steps\<rparr>)"

definition NewScopedObjective ::
  "string \<Rightarrow> ObjectiveScope \<Rightarrow> ResolutionPolicy \<Rightarrow> StepSpec list \<Rightarrow> devError + Objective" where
  "NewScopedObjective objectiveID scope policy specs =
     (if \<not> Bound scope then fail ''development objective scope is invalid''
      else
        case NewObjective objectiveID policy specs of
          Inl e \<Rightarrow> Inl e
        | Inr objective \<Rightarrow> Inr (objective\<lparr>obScope := scope\<rparr>))"

subsection \<open>Requirements\<close>

text \<open>Replacing one step of an objective, with the next revision.\<close>

definition revise :: "Objective \<Rightarrow> nat \<Rightarrow> ObjectiveStep \<Rightarrow> ObjectiveState \<Rightarrow> Objective" where
  "revise objective index s state =
     objective\<lparr>obSteps := (obSteps objective)[index := s], obState := state, obRevision := obRevision objective + 1\<rparr>"

definition RefineRequirements :: "Objective \<Rightarrow> string \<Rightarrow> Requirement list \<Rightarrow> devError + Objective" where
  "RefineRequirements objective stepID additional =
     (case stepIndex objective stepID of
        None \<Rightarrow> fail ''development objective cannot refine requirements''
      | Some index \<Rightarrow>
         if terminal_objective objective then fail ''development objective cannot refine requirements''
         else
           let s = obSteps objective ! index
           in if osState s = StepRunning \<or> osState s = StepSucceeded \<or> activeProvisioning s \<or>
                 osAcceptanceContract s \<noteq> None
              then fail ''development objective cannot refine active or succeeded step''
              else
                case normalizeRequirementList (osRequirements s @ additional) of
                  Inl e \<Rightarrow> Inl e
                | Inr normalized \<Rightarrow>
                   if sameRequirements (osRequirements s) normalized then Inr objective
                   else Inr (revise objective index (s\<lparr>osRequirements := normalized\<rparr>) (obState objective)))"

subsection \<open>Execution attempts\<close>

definition exactEnvironmentByDigest :: "EnvironmentAttestation list \<Rightarrow> string \<Rightarrow> EnvironmentAttestation option" where
  "exactEnvironmentByDigest candidates digest = find (\<lambda>c. Valid_attestation c \<and> atDigest c = digest) candidates"

text \<open>The branch of \<open>PlanAttempt\<close> for a step with a previous attempt: the resolution.\<close>

definition resolveContinuation ::
  "ObjectiveStep \<Rightarrow> ResolutionPolicy \<Rightarrow> EnvironmentAttestation list \<Rightarrow> devError + Resolution" where
  "resolveContinuation s policy candidates =
     (let previous = last (osAttempts s)
      in if eaState previous \<noteq> AttemptFailed then fail ''development objective previous attempt is not failed''
         else
           case ContinuationForFailure (eaFailure previous) of
             None \<Rightarrow> fail ''development objective failure requires external resolution''
           | Some action \<Rightarrow>
              if action = ActionStopPolicy \<or> action = ActionReconcile then
                fail ''development objective failure requires external resolution''
              else if action = ActionFixCode \<or> action = ActionRetrySameEnvironment then
                (case exactEnvironmentByDigest candidates (eaEnvironmentDigest previous) of
                   None \<Rightarrow> fail ''development objective previous environment is unavailable''
                 | Some environment \<Rightarrow>
                    if \<not> Allows policy environment then
                      fail ''development objective previous environment is unavailable''
                    else if length (Missing (atCapabilities environment) (osRequirements s)) \<noteq> 0 then
                      fail ''development objective previous environment no longer satisfies requirements''
                    else Inr \<lparr>rsEnvironment = environment, rsMigrated = False\<rparr>)
              else Resolve (osRequirements s) None candidates policy)"

definition planStep ::
  "ObjectiveStep \<Rightarrow> string \<Rightarrow> string \<Rightarrow> EnvironmentAttestation list \<Rightarrow> ResolutionPolicy \<Rightarrow>
   devError + ExecutionAttempt \<times> Resolution" where
  "planStep s attemptID sourceDigest candidates policy =
     (if length (osAttempts s) = 0 then
        case Resolve (osRequirements s) None candidates policy of
          Inl e \<Rightarrow> Inl e
        | Inr resolution \<Rightarrow>
           (case NewExecutionAttempt attemptID (osStepID s) sourceDigest (rsEnvironment resolution) of
              Inl e \<Rightarrow> Inl e
            | Inr attempt \<Rightarrow> Inr (attempt, resolution))
      else
        case resolveContinuation s policy candidates of
          Inl e \<Rightarrow> Inl e
        | Inr resolution \<Rightarrow>
           (case ContinueExecutionAttempt attemptID sourceDigest (last (osAttempts s)) (rsEnvironment resolution) of
              Inl e \<Rightarrow> Inl e
            | Inr attempt \<Rightarrow>
               Inr (attempt, resolution\<lparr>rsMigrated :=
                  (eaEnvironmentDigest (last (osAttempts s)) \<noteq> atDigest (rsEnvironment resolution))\<rparr>)))"

definition PlanAttempt ::
  "Objective \<Rightarrow> string \<Rightarrow> string \<Rightarrow> string \<Rightarrow> EnvironmentAttestation list \<Rightarrow> devError + Objective \<times> Resolution" where
  "PlanAttempt objective stepID attemptID sourceDigest candidates =
     (case stepIndex objective stepID of
        None \<Rightarrow> fail ''development objective cannot plan attempt''
      | Some index \<Rightarrow>
         if terminal_objective objective then fail ''development objective cannot plan attempt''
         else
           let s = obSteps objective ! index
           in if (case osAcceptanceContract s of None \<Rightarrow> False | Some c \<Rightarrow> TrimSpace sourceDigest \<noteq> ccSourceDigest c) then
                fail ''development command acceptance source digest changed''
              else if activeProvisioning s then fail ''development provisioning is still active''
              else if osState s = StepSucceeded then fail ''development objective step already succeeded''
              else if length (osAttempts s) \<ge> MaxAttemptsPerStep then
                fail ''development objective attempt budget is exhausted''
              else
                case planStep s attemptID sourceDigest candidates (obPolicy objective) of
                  Inl e \<Rightarrow> Inl e
                | Inr (attempt, resolution) \<Rightarrow>
                   Inr (revise objective index (s\<lparr>osAttempts := osAttempts s @ [attempt], osState := StepPlanned\<rparr>)
                          ObjectiveRunning,
                        resolution))"

text \<open>\<open>step.Attempts[len(step.Attempts)-1] = attempt\<close>\<close>

definition replaceLast :: "'a list \<Rightarrow> 'a \<Rightarrow> 'a list" where
  "replaceLast xs x = xs[length xs - 1 := x]"

definition StartAttempt :: "Objective \<Rightarrow> string \<Rightarrow> devError + Objective" where
  "StartAttempt objective stepID =
     (case stepIndex objective stepID of
        None \<Rightarrow> fail ''development objective cannot start attempt''
      | Some index \<Rightarrow>
         if terminal_objective objective then fail ''development objective cannot start attempt''
         else
           let s = obSteps objective ! index
           in if length (osAttempts s) = 0 then fail ''development objective attempt is missing''
              else
                case Transition (last (osAttempts s)) AttemptRunning of
                  Inl e \<Rightarrow> Inl e
                | Inr attempt \<Rightarrow>
                   Inr (revise objective index
                          (s\<lparr>osAttempts := replaceLast (osAttempts s) attempt, osState := StepRunning\<rparr>)
                          ObjectiveRunning))"

definition stateAfterFailure :: "ContinuationAction \<Rightarrow> ObjectiveState" where
  "stateAfterFailure action =
     (case action of
        ActionReconcile \<Rightarrow> ObjectiveReconciliationRequired
      | ActionStopPolicy \<Rightarrow> ObjectiveFailed
      | _ \<Rightarrow> ObjectiveRunning)"

definition RejectAttempt :: "Objective \<Rightarrow> string \<Rightarrow> FailureClass \<Rightarrow> devError + Objective \<times> ContinuationAction" where
  "RejectAttempt objective stepID class =
     (case stepIndex objective stepID of
        None \<Rightarrow> fail ''development objective cannot reject attempt''
      | Some index \<Rightarrow>
         if terminal_objective objective then fail ''development objective cannot reject attempt''
         else
           case ContinuationForFailure class of
             None \<Rightarrow> fail ''development objective preflight failure class is invalid''
           | Some action \<Rightarrow>
              if \<not> preflightFailureAllowed class then fail ''development objective preflight failure class is invalid''
              else
                let s = obSteps objective ! index
                in if length (osAttempts s) = 0 then fail ''development objective attempt is missing''
                   else
                     case RejectPreflight (last (osAttempts s)) class of
                       Inl e \<Rightarrow> Inl e
                     | Inr failed \<Rightarrow>
                        Inr (revise objective index
                               (s\<lparr>osAttempts := replaceLast (osAttempts s) failed, osState := StepFailed\<rparr>)
                               (stateAfterFailure action),
                             action))"

definition FailAttempt :: "Objective \<Rightarrow> string \<Rightarrow> FailureClass \<Rightarrow> devError + Objective \<times> ContinuationAction" where
  "FailAttempt objective stepID class =
     (case stepIndex objective stepID of
        None \<Rightarrow> fail ''development objective cannot fail attempt''
      | Some index \<Rightarrow>
         if terminal_objective objective then fail ''development objective cannot fail attempt''
         else
           case ContinuationForFailure class of
             None \<Rightarrow> fail ''development objective failure class is invalid''
           | Some action \<Rightarrow>
              let s = obSteps objective ! index
              in if length (osAttempts s) = 0 then fail ''development objective attempt is missing''
                 else
                   case Fail_attempt (last (osAttempts s)) class of
                     Inl e \<Rightarrow> Inl e
                   | Inr failed \<Rightarrow>
                      Inr (revise objective index
                             (s\<lparr>osAttempts := replaceLast (osAttempts s) failed, osState := StepFailed\<rparr>)
                             (stateAfterFailure action),
                           action))"

definition CompleteAttempt :: "Objective \<Rightarrow> string \<Rightarrow> devError + Objective" where
  "CompleteAttempt objective stepID =
     (case stepIndex objective stepID of
        None \<Rightarrow> fail ''development objective cannot complete attempt''
      | Some index \<Rightarrow>
         if terminal_objective objective then fail ''development objective cannot complete attempt''
         else
           let s = obSteps objective ! index
           in if length (osAttempts s) = 0 then fail ''development objective attempt is missing''
              else
                case Transition (last (osAttempts s)) AttemptSucceeded of
                  Inl e \<Rightarrow> Inl e
                | Inr completed \<Rightarrow>
                   let s' = s\<lparr>osAttempts := replaceLast (osAttempts s) completed, osState := StepSucceeded\<rparr>;
                       steps = (obSteps objective)[index := s'];
                       allSucceeded = list_all (\<lambda>candidate. osState candidate = StepSucceeded) steps
                   in Inr (revise objective index s'
                             (if allSucceeded then ObjectiveAcceptancePending else ObjectiveRunning)))"

subsection \<open>Acceptance\<close>

definition Accept :: "Objective \<Rightarrow> devError + Objective" where
  "Accept objective =
     (if obState objective \<noteq> ObjectiveAcceptancePending \<or> \<not> sameCommandAcceptanceContractMode (obSteps objective) \<or>
         length (obSteps objective) = 0 \<or> osAcceptanceContract (hd (obSteps objective)) \<noteq> None
      then fail ''development objective is not ready for acceptance''
      else Inr (objective\<lparr>obState := ObjectiveAccepted, obRevision := obRevision objective + 1\<rparr>))"

text \<open>The loop over the receipts: the operations seen so far and the steps with their receipts.\<close>

fun attachReceipts ::
  "Objective \<Rightarrow> string list \<Rightarrow> ObjectiveStep list \<Rightarrow> CommandAcceptanceReceipt list \<Rightarrow> devError + ObjectiveStep list" where
  "attachReceipts objective seenOperations steps [] = Inr steps"
| "attachReceipts objective seenOperations steps (r # rs) =
     (case stepIndex objective (crStepID r) of
        None \<Rightarrow> fail ''development command acceptance evidence does not match objective''
      | Some index \<Rightarrow>
         if \<not> validFor_receipt r objective index then
           fail ''development command acceptance evidence does not match objective''
         else if crOperationID r \<in> set seenOperations then
           fail ''development command acceptance evidence is duplicated''
         else attachReceipts objective (crOperationID r # seenOperations)
                (steps[index := (steps ! index)\<lparr>osAcceptanceReceipt := Some r\<rparr>]) rs)"

definition AcceptWithEvidence :: "Objective \<Rightarrow> CommandAcceptanceReceipt list \<Rightarrow> devError + Objective" where
  "AcceptWithEvidence objective receipts =
     (if \<not> Valid_objective objective \<or> obState objective \<noteq> ObjectiveAcceptancePending \<or>
         length (obSteps objective) = 0 \<or> \<not> sameCommandAcceptanceContractMode (obSteps objective) \<or>
         osAcceptanceContract (hd (obSteps objective)) = None
      then fail ''development objective is not ready for command acceptance''
      else if length receipts \<noteq> length (obSteps objective) then
        fail ''development command acceptance evidence is incomplete''
      else
        case attachReceipts objective [] (obSteps objective) receipts of
          Inl e \<Rightarrow> Inl e
        | Inr steps \<Rightarrow>
           let copy = objective\<lparr>obSteps := steps, obState := ObjectiveAccepted, obRevision := obRevision objective + 1\<rparr>
           in if \<not> Valid_objective copy then fail ''development command acceptance evidence is invalid'' else Inr copy)"

definition NewCommandAcceptanceReceipt ::
  "Objective \<Rightarrow> string \<Rightarrow> CommandOperationEvidence \<Rightarrow> devError + CommandAcceptanceReceipt" where
  "NewCommandAcceptanceReceipt objective stepID evidence =
     (if \<not> Valid_objective objective \<or> obState objective \<noteq> ObjectiveAcceptancePending \<or> evExitCode evidence \<noteq> 0 then
        fail ''development command acceptance evidence is invalid''
      else
        case stepIndex objective stepID of
          None \<Rightarrow> fail ''development command acceptance evidence is invalid''
        | Some index \<Rightarrow>
           let s = obSteps objective ! index
           in case osAcceptanceContract s of
                None \<Rightarrow> fail ''development command acceptance evidence is invalid''
              | Some contract \<Rightarrow>
                 if length (osAttempts s) = 0 then fail ''development command acceptance evidence is invalid''
                 else if eaState (last (osAttempts s)) \<noteq> AttemptSucceeded then
                   fail ''development command acceptance evidence is invalid''
                 else
                   let attempt = last (osAttempts s);
                       receipt = \<lparr>crOperationID = evOperationID evidence,
                                  crEvidenceProvider = evEvidenceProvider evidence,
                                  crRunnerEffectID = evRunnerEffectID evidence,
                                  crRunnerRunID = evRunnerRunID evidence,
                                  crRunnerReceiptDigest = evRunnerReceiptDigest evidence,
                                  crObjectiveID = obObjectiveID objective,
                                  crStepID = osStepID s,
                                  crAttemptID = eaAttemptID attempt,
                                  crContractDigest =
                                    digest_contract contract (obObjectiveID objective) (osStepID s) (obPolicy objective),
                                  crCommandDigest = evCommandDigest evidence,
                                  crSourceDigest = evSourceDigest evidence,
                                  crEnvironmentDigest = evEnvironmentDigest evidence,
                                  crPrivateBodyRef = evPrivateBodyRef evidence,
                                  crPrivateBodyDigest = evPrivateBodyDigest evidence,
                                  crExitCode = evExitCode evidence,
                                  crArtifactRefs = evArtifactRefs evidence\<rparr>
                   in if \<not> validFor_receipt receipt objective index then
                        fail ''development command acceptance evidence is invalid''
                      else Inr receipt)"

subsection \<open>Cancellation\<close>

definition cancelProvisioning :: "ObjectiveStep \<Rightarrow> devError + ObjectiveStep" where
  "cancelProvisioning s =
     (if length (osProvisioning s) \<noteq> 0 \<and>
         (paState (last (osProvisioning s)) = ProvisioningPlanned \<or> paState (last (osProvisioning s)) = ProvisioningQueued)
      then
        case Cancel_provision (last (osProvisioning s)) of
          Inl e \<Rightarrow> Inl e
        | Inr cancelled \<Rightarrow> Inr (s\<lparr>osProvisioning := replaceLast (osProvisioning s) cancelled\<rparr>)
      else Inr s)"

definition cancelStep :: "ObjectiveStep \<Rightarrow> devError + ObjectiveStep" where
  "cancelStep s0 =
     (case cancelProvisioning s0 of
        Inl e \<Rightarrow> Inl e
      | Inr s \<Rightarrow>
         if osState s = StepSucceeded \<or> osState s = StepFailed \<or> osState s = StepCancelled then Inr s
         else if length (osAttempts s) = 0 then Inr (s\<lparr>osState := StepCancelled\<rparr>)
         else
           let l = last (osAttempts s)
           in if eaState l \<noteq> AttemptPlanned \<and> eaState l \<noteq> AttemptRunning then
                fail ''development objective cannot cancel attempt''
              else
                case Transition l AttemptCancelled of
                  Inl e \<Rightarrow> Inl e
                | Inr cancelled \<Rightarrow>
                   Inr (s\<lparr>osAttempts := replaceLast (osAttempts s) cancelled, osState := StepCancelled\<rparr>))"

fun cancelSteps :: "ObjectiveStep list \<Rightarrow> devError + ObjectiveStep list" where
  "cancelSteps [] = Inr []"
| "cancelSteps (s # ss) =
     (case cancelStep s of
        Inl e \<Rightarrow> Inl e
      | Inr s' \<Rightarrow> (case cancelSteps ss of Inl e \<Rightarrow> Inl e | Inr ss' \<Rightarrow> Inr (s' # ss')))"

definition Cancel_objective :: "Objective \<Rightarrow> devError + Objective" where
  "Cancel_objective objective =
     (if terminal_objective objective then fail ''development objective is terminal''
      else
        case cancelSteps (obSteps objective) of
          Inl e \<Rightarrow> Inl e
        | Inr steps \<Rightarrow>
           Inr (objective\<lparr>obSteps := steps, obState := ObjectiveCancelled, obRevision := obRevision objective + 1\<rparr>))"

subsection \<open>Provisioning\<close>

definition canPlanProvisioning :: "ObjectiveStep \<Rightarrow> bool" where
  "canPlanProvisioning s =
     (if osState s \<noteq> StepPlanned \<and> osState s \<noteq> StepFailed \<or> activeProvisioning s then False
      else if length (osAttempts s) > 0 \<and>
         (eaState (last (osAttempts s)) \<noteq> AttemptFailed \<or>
          ContinuationForFailure (eaFailure (last (osAttempts s))) \<noteq> Some ActionProvisionOrMigrate)
      then False
      else if length (osProvisioning s) > 0 then
        let l = last (osProvisioning s)
        in if paState l = ProvisioningCancelled then False
           else if paState l = ProvisioningFailed then
             (case ContinuationForFailure (paFailure l) of
                None \<Rightarrow> False
              | Some action \<Rightarrow> action = ActionProvisionOrMigrate \<or> action = ActionRetrySameEnvironment)
           else True
      else True)"

definition PlanProvisioning :: "Objective \<Rightarrow> string \<Rightarrow> string \<Rightarrow> string \<Rightarrow> ProvisionPlan \<Rightarrow> devError + Objective" where
  "PlanProvisioning objective stepID provisionID sourceDigest plan =
     (case stepIndex objective stepID of
        None \<Rightarrow> fail ''development objective cannot provision''
      | Some index \<Rightarrow>
         if \<not> Valid_objective objective \<or> terminal_objective objective \<or> \<not> Bound (obScope objective) \<or>
            \<not> AllowsClass (obPolicy objective) (ppOutputClass plan)
         then fail ''development objective cannot provision''
         else
           let s = obSteps objective ! index
           in if osState s \<noteq> StepPlanned \<and> osState s \<noteq> StepFailed \<or> activeProvisioning s \<or>
                 length (osProvisioning s) \<ge> MaxProvisioningAttemptsPerStep \<or>
                 \<not> Covers plan (requirementIDs (osRequirements s))
              then fail ''development objective provisioning contract is invalid''
              else if \<not> canPlanProvisioning s then fail ''development objective failure does not authorize provisioning''
              else
                case NewProvisioningAttempt provisionID sourceDigest plan of
                  Inl e \<Rightarrow> Inl e
                | Inr provision \<Rightarrow>
                   let nxt = revise objective index (s\<lparr>osProvisioning := osProvisioning s @ [provision]\<rparr>) ObjectiveRunning
                   in if \<not> Valid_objective nxt then fail ''development provisioning snapshot is invalid'' else Inr nxt)"

definition advanceProvision ::
  "Objective \<Rightarrow> string \<Rightarrow> string \<Rightarrow> (ProvisioningAttempt \<Rightarrow> devError + ProvisioningAttempt) \<Rightarrow> devError + Objective" where
  "advanceProvision objective stepID provisionID change =
     (case stepIndex objective stepID of
        None \<Rightarrow> fail ''development provisioning is unavailable''
      | Some index \<Rightarrow>
         if \<not> Valid_objective objective \<or> terminal_objective objective \<or>
            length (osProvisioning (obSteps objective ! index)) = 0
         then fail ''development provisioning is unavailable''
         else
           let s = obSteps objective ! index;
               l = last (osProvisioning s)
           in if paProvisionID l \<noteq> provisionID then fail ''development provisioning identity mismatch''
              else
                case change l of
                  Inl e \<Rightarrow> fail ''development provisioning transition is invalid''
                | Inr advanced \<Rightarrow>
                   if \<not> validProvisionRevision l advanced then fail ''development provisioning transition is invalid''
                   else if sameProvisionAttempt l advanced then Inr objective
                   else
                     let nxt = revise objective index (s\<lparr>osProvisioning := replaceLast (osProvisioning s) advanced\<rparr>)
                                 (obState objective)
                     in if \<not> Valid_objective nxt then fail ''development provisioning snapshot is invalid'' else Inr nxt)"

definition BindProvisionJob :: "Objective \<Rightarrow> string \<Rightarrow> string \<Rightarrow> string \<Rightarrow> devError + Objective" where
  "BindProvisionJob objective stepID provisionID jobID =
     advanceProvision objective stepID provisionID (\<lambda>l. BindJob l jobID)"

definition BindProvisionFence :: "Objective \<Rightarrow> string \<Rightarrow> string \<Rightarrow> uint64 \<Rightarrow> devError + Objective" where
  "BindProvisionFence objective stepID provisionID fence =
     advanceProvision objective stepID provisionID (\<lambda>l. BindFence l fence)"

definition CompleteProvision :: "Objective \<Rightarrow> string \<Rightarrow> string \<Rightarrow> string \<Rightarrow> devError + Objective" where
  "CompleteProvision objective stepID provisionID receiptDigest =
     advanceProvision objective stepID provisionID (\<lambda>l. Succeed l receiptDigest)"

definition FailProvision :: "Objective \<Rightarrow> string \<Rightarrow> string \<Rightarrow> FailureClass \<Rightarrow> devError + Objective" where
  "FailProvision objective stepID provisionID class =
     advanceProvision objective stepID provisionID (\<lambda>l. Fail_provision l class)"

end
