(* ===== verification/Dev_Transition.thy ===== *)
theory Dev_Transition
  imports Dev_Operations Systems
begin

text \<open>
  \<open>internal/development/transition.go\<close>: the check a durable store runs on every new
  revision of an objective, and which revisions that the operations of an objective
  produce it accepts.
\<close>

subsection \<open>The transition check\<close>

definition sameExecutionClasses :: "ExecutionClass list \<Rightarrow> ExecutionClass list \<Rightarrow> bool" where
  "sameExecutionClasses left right \<longleftrightarrow> length left = length right \<and> list_all (\<lambda>(l, r). l = r) (zip left right)"

definition sameCommandAcceptanceReceipt :: "CommandAcceptanceReceipt \<Rightarrow> CommandAcceptanceReceipt \<Rightarrow> bool" where
  "sameCommandAcceptanceReceipt left right \<longleftrightarrow>
     crOperationID left = crOperationID right \<and> crObjectiveID left = crObjectiveID right \<and>
     crStepID left = crStepID right \<and> crAttemptID left = crAttemptID right \<and>
     crContractDigest left = crContractDigest right \<and> crCommandDigest left = crCommandDigest right \<and>
     crSourceDigest left = crSourceDigest right \<and> crEnvironmentDigest left = crEnvironmentDigest right \<and>
     crPrivateBodyRef left = crPrivateBodyRef right \<and> crPrivateBodyDigest left = crPrivateBodyDigest right \<and>
     crExitCode left = crExitCode right \<and> crArtifactRefs left = crArtifactRefs right"

definition validAcceptanceReceiptTransition ::
  "ObjectiveState \<Rightarrow> ObjectiveState \<Rightarrow> ObjectiveStep \<Rightarrow> ObjectiveStep \<Rightarrow> bool" where
  "validAcceptanceReceiptTransition previousState nextState before after =
     (case osAcceptanceReceipt before of
        None \<Rightarrow>
          (case osAcceptanceReceipt after of
             None \<Rightarrow> True
           | Some _ \<Rightarrow>
               osAcceptanceContract before \<noteq> None \<and> previousState = ObjectiveAcceptancePending \<and>
               nextState = ObjectiveAccepted)
      | Some b \<Rightarrow> (case osAcceptanceReceipt after of None \<Rightarrow> False | Some a \<Rightarrow> sameCommandAcceptanceReceipt b a))"

text \<open>The loop of \<open>validProvisionHistory\<close> over the old attempts.\<close>

fun provisionHistoryFrom :: "bool \<Rightarrow> ProvisioningAttempt list \<Rightarrow> ProvisioningAttempt list \<Rightarrow> bool" where
  "provisionHistoryFrom sameLength [] as = True"
| "provisionHistoryFrom sameLength (b # bs) [] = False"
| "provisionHistoryFrom sameLength (b # bs) (a # as) =
     ((if bs = [] \<and> sameLength then validProvisionRevision b a else sameProvisionAttempt b a) \<and>
      provisionHistoryFrom sameLength bs as)"

definition validProvisionHistory :: "ProvisioningAttempt list \<Rightarrow> ProvisioningAttempt list \<Rightarrow> bool" where
  "validProvisionHistory before after =
     (if length after < length before \<or> length after > length before + 1 then False
      else if \<not> provisionHistoryFrom (length before = length after) before after then False
      else if length after = length before + 1 then
        (if length before \<noteq> 0 \<and>
            (paState (last before) = ProvisioningPlanned \<or> paState (last before) = ProvisioningQueued)
         then False
         else paState (last after) = ProvisioningPlanned)
      else True)"

fun subsetIndex :: "Requirement list \<Rightarrow> Requirement list \<Rightarrow> nat \<Rightarrow> nat" where
  "subsetIndex before [] index = index"
| "subsetIndex before (r # rs) index =
     subsetIndex before rs (if index < length before \<and> reqID (before ! index) = reqID r then index + 1 else index)"

definition requirementsSubset :: "Requirement list \<Rightarrow> Requirement list \<Rightarrow> bool" where
  "requirementsSubset before after \<longleftrightarrow> subsetIndex before after 0 = length before"

text \<open>The two attempts with their state and failure blanked, as the code compares them.\<close>

definition immutablePart :: "ExecutionAttempt \<Rightarrow> ExecutionAttempt" where
  "immutablePart a = a\<lparr>eaState := OtherAttemptState [], eaFailure := NoFailure\<rparr>"

definition validAttemptRevision :: "ExecutionAttempt \<Rightarrow> ExecutionAttempt \<Rightarrow> bool" where
  "validAttemptRevision before after =
     (if immutablePart before \<noteq> immutablePart after then False
      else if eaState before = eaState after \<and> eaFailure before = eaFailure after then True
      else
        case eaState before of
          AttemptPlanned \<Rightarrow>
            if (eaState after = AttemptRunning \<or> eaState after = AttemptCancelled) \<and> eaFailure after = NoFailure then True
            else eaState after = AttemptFailed \<and> preflightFailureAllowed (eaFailure after)
        | AttemptRunning \<Rightarrow>
            if eaState after = AttemptSucceeded \<and> eaFailure after = NoFailure then True
            else if eaState after = AttemptFailed then ContinuationForFailure (eaFailure after) \<noteq> None
            else eaState after = AttemptCancelled \<and> eaFailure after = NoFailure
        | _ \<Rightarrow> False)"

definition validObjectiveStateTransition :: "ObjectiveState \<Rightarrow> ObjectiveState \<Rightarrow> bool" where
  "validObjectiveStateTransition before after =
     (if before = after then True
      else
        case before of
          ObjectivePlanned \<Rightarrow> after = ObjectiveRunning \<or> after = ObjectiveCancelled
        | ObjectiveRunning \<Rightarrow>
            after = ObjectiveAcceptancePending \<or> after = ObjectiveReconciliationRequired \<or> after = ObjectiveFailed \<or>
            after = ObjectiveCancelled
        | ObjectiveAcceptancePending \<Rightarrow> after = ObjectiveAccepted \<or> after = ObjectiveCancelled
        | ObjectiveReconciliationRequired \<Rightarrow>
            after = ObjectiveRunning \<or> after = ObjectiveFailed \<or> after = ObjectiveCancelled
        | _ \<Rightarrow> False)"

definition validStepStateTransition :: "StepState \<Rightarrow> StepState \<Rightarrow> bool" where
  "validStepStateTransition before after =
     (if before = after then True
      else
        case before of
          StepPlanned \<Rightarrow> after = StepRunning \<or> after = StepFailed \<or> after = StepCancelled
        | StepRunning \<Rightarrow> after = StepSucceeded \<or> after = StepFailed \<or> after = StepCancelled
        | StepFailed \<Rightarrow> after = StepPlanned
        | _ \<Rightarrow> False)"

text \<open>The part of the loop over the steps that compares the attempts of one step.\<close>

definition attemptsTransition :: "ExecutionAttempt list \<Rightarrow> ExecutionAttempt list \<Rightarrow> bool" where
  "attemptsTransition before after =
     (if length after = length before + 1 then
        (if take (length before) after \<noteq> before then False
         else if length before \<noteq> 0 then
           eaState (last before) = AttemptFailed \<and> eaParentAttemptID (last after) = eaAttemptID (last before) \<and>
           eaState (last after) = AttemptPlanned
         else eaParentAttemptID (hd after) = [] \<and> eaState (hd after) = AttemptPlanned)
      else if length before = 0 then True
      else butlast before = butlast after \<and> validAttemptRevision (last before) (last after))"

definition validateStepTransition ::
  "ObjectiveState \<Rightarrow> ObjectiveState \<Rightarrow> ObjectiveStep \<Rightarrow> ObjectiveStep \<Rightarrow> devError option" where
  "validateStepTransition previousState nextState before after =
     (if activeProvisioning before \<and> \<not> sameRequirements (osRequirements before) (osRequirements after) then
        Some (Err ''development active provisioning contract is immutable'')
      else if \<not> validProvisionHistory (osProvisioning before) (osProvisioning after) then
        Some (Err ''development provisioning history transition is invalid'')
      else if length (osProvisioning after) > length (osProvisioning before) \<and> \<not> canPlanProvisioning before then
        Some (Err ''development failure does not authorize provisioning'')
      else if osStepID before \<noteq> osStepID after \<or>
          \<not> sameCommandAcceptanceContract (osAcceptanceContract before) (osAcceptanceContract after) \<or>
          \<not> validAcceptanceReceiptTransition previousState nextState before after \<or>
          \<not> requirementsSubset (osRequirements before) (osRequirements after) \<or>
          \<not> validStepStateTransition (osState before) (osState after) \<or>
          length (osAttempts after) < length (osAttempts before) \<or>
          length (osAttempts after) > length (osAttempts before) + 1
      then Some (Err ''development objective transition is invalid'')
      else if \<not> attemptsTransition (osAttempts before) (osAttempts after) then
        Some (Err ''development objective transition is invalid'')
      else None)"

fun validateStepTransitions ::
  "ObjectiveState \<Rightarrow> ObjectiveState \<Rightarrow> (ObjectiveStep \<times> ObjectiveStep) list \<Rightarrow> devError option" where
  "validateStepTransitions previousState nextState [] = None"
| "validateStepTransitions previousState nextState ((before, after) # ps) =
     (case validateStepTransition previousState nextState before after of
        Some e \<Rightarrow> Some e
      | None \<Rightarrow> validateStepTransitions previousState nextState ps)"

definition ValidateTransition :: "Objective \<Rightarrow> Objective \<Rightarrow> devError option" where
  "ValidateTransition previous nxt =
     (if \<not> Valid_objective previous \<or> \<not> Valid_objective nxt \<or> terminal_objective previous \<or>
         obVersion previous \<noteq> obVersion nxt \<or> obObjectiveID previous \<noteq> obObjectiveID nxt \<or>
         obScope previous \<noteq> obScope nxt \<or> obRevision nxt \<noteq> obRevision previous + 1 \<or>
         rpMaxTier (obPolicy previous) \<noteq> rpMaxTier (obPolicy nxt) \<or>
         \<not> sameExecutionClasses (rpAllowed (obPolicy previous)) (rpAllowed (obPolicy nxt)) \<or>
         length (obSteps previous) \<noteq> length (obSteps nxt) \<or>
         \<not> validObjectiveStateTransition (obState previous) (obState nxt)
      then Some (Err ''development objective transition is invalid'')
      else validateStepTransitions (obState previous) (obState nxt) (zip (obSteps previous) (obSteps nxt)))"

subsection \<open>The transition check, declaratively\<close>

lemma sameExecutionClasses_eq [simp]: "sameExecutionClasses l r \<longleftrightarrow> l = r"
  using list_all2_iff [of "(=)" l r] by (simp add: sameExecutionClasses_def list_all_iff list.rel_eq)

lemma sameCommandAcceptanceContract_eq [simp]: "sameCommandAcceptanceContract l r \<longleftrightarrow> l = r"
  by (auto simp: sameCommandAcceptanceContract_def split: option.splits)

lemma validateStepTransitions_None:
  "validateStepTransitions p n ps = None \<longleftrightarrow> (\<forall>(b, a) \<in> set ps. validateStepTransition p n b a = None)"
  by (induction p n ps rule: validateStepTransitions.induct) (auto split: option.splits)

lemma subsetIndex_le: "index \<le> length before \<Longrightarrow> subsetIndex before after index \<le> length before"
  by (induction before after index rule: subsetIndex.induct) auto

lemma requirementsSubset_subset:
  assumes "requirementsSubset before after"
  shows "set before \<subseteq> set after"
proof -
  have "set (drop k (take (subsetIndex before after k) before)) \<subseteq> set after" if "k \<le> length before" for k
    using that
  proof (induction before after k rule: subsetIndex.induct)
    case (2 before r rs k)
    show ?case
    proof (cases "k < length before \<and> reqID (before ! k) = reqID r")
      case True
      then have r: "before ! k = r" by simp
      let ?m = "subsetIndex before rs (k + 1)"
      have "drop k (take ?m before) = (if k < ?m then [before ! k] else []) @ drop (k + 1) (take ?m before)"
        using True by (cases "k < ?m") (auto simp: Cons_nth_drop_Suc [symmetric])
      with 2 True r show ?thesis by (auto split: if_splits)
    qed (use 2 in auto)
  qed simp
  from this [of 0] assms show ?thesis by (simp add: requirementsSubset_def)
qed

text \<open>The converse for canonical lists, which are in ascending order.\<close>

lemma subsetIndex_sorted:
  assumes "sorted_wrt (<) (map reqID before)" and "sorted_wrt (<) (map reqID after)"
    and "set (drop k before) \<subseteq> set after" and "k \<le> length before"
  shows "subsetIndex before after k = length before"
  using assms
proof (induction before after k rule: subsetIndex.induct)
  case (1 before k)
  then show ?case by simp
next
  case (2 before r rs k)
  show ?case
  proof (cases "k < length before")
    case False
    have "subsetIndex before ts k = length before" for ts
      using False "2.prems"(4) by (induction ts) auto
    then show ?thesis by blast
  next
    case True
    have drop: "drop k before = before ! k # drop (k + 1) before" using True by (simp add: Cons_nth_drop_Suc)
    have later: "reqID (before ! k) < reqID x" if "x \<in> set (drop (k + 1) before)" for x
    proof -
      have "sorted_wrt (<) (map reqID (drop k before))"
        using "2.prems"(1) by (metis drop_map sorted_wrt_drop)
      then show ?thesis using that by (simp add: drop)
    qed
    show ?thesis
    proof (cases "reqID (before ! k) = reqID r")
      case True
      then have r: "before ! k = r" by simp
      have "set (drop (k + 1) before) \<subseteq> set rs"
        using "2.prems"(3) later r by (fastforce simp: drop)
      then show ?thesis using "2.IH" "2.prems" True \<open>k < length before\<close> by simp
    next
      case False
      then have "before ! k \<in> set rs" using "2.prems"(3) by (auto simp: drop)
      then have "reqID r < reqID (before ! k)" using "2.prems"(2) by auto
      then have "r \<notin> set (drop k before)" using later [of r] less_asym by (auto simp: drop)
      then have "set (drop k before) \<subseteq> set rs" using "2.prems"(3) by auto
      then show ?thesis using "2.IH" "2.prems" False by simp
    qed
  qed
qed

lemma canonicalRequirements_sorted: "canonicalRequirements rs \<Longrightarrow> sorted_wrt (<) (map reqID rs)"
  by (simp add: canonicalRequirements_def canonicalIDs_def strict_sorted_iff)

lemma requirementsSubset_iff:
  assumes "canonicalRequirements before" and "canonicalRequirements after"
  shows "requirementsSubset before after \<longleftrightarrow> set before \<subseteq> set after"
  using requirementsSubset_subset subsetIndex_sorted [of before after 0]
    assms [THEN canonicalRequirements_sorted]
  by (auto simp: requirementsSubset_def)

lemma provisionHistoryFrom_refl:
  "\<forall>p \<in> set ps. Valid_provision p \<Longrightarrow> provisionHistoryFrom b ps ps"
  by (induction ps) (auto simp: validProvisionRevision_def)

lemma provisionHistoryFrom_append:
  "\<forall>p \<in> set ps. Valid_provision p \<Longrightarrow> provisionHistoryFrom False ps (ps @ qs)"
  by (induction ps) (auto simp: validProvisionRevision_def)

lemma replaceLast_eq: "xs \<noteq> [] \<Longrightarrow> replaceLast xs x = butlast xs @ [x]"
  by (simp add: replaceLast_def butlast_list_update nth_append list_update_append1 snoc_eq_iff_butlast
      butlast_conv_take take_Suc_conv_app_nth upd_conv_take_nth_drop)

lemma provisionHistoryFrom_replace:
  "ps \<noteq> [] \<Longrightarrow> validProvisionRevision (last ps) q \<Longrightarrow> provisionHistoryFrom True ps (butlast ps @ [q])"
  by (induction ps rule: induct_list012) auto

lemma validProvisionHistory_refl: "\<forall>p \<in> set ps. Valid_provision p \<Longrightarrow> validProvisionHistory ps ps"
  by (simp add: validProvisionHistory_def provisionHistoryFrom_refl)

lemma validAttemptRevision_refl [simp]: "validAttemptRevision a a"
  by (simp add: validAttemptRevision_def)

lemma requirementsSubset_refl: "canonicalRequirements rs \<Longrightarrow> requirementsSubset rs rs"
  by (simp add: requirementsSubset_iff)

text \<open>A step that keeps what identifies it, and the attempts and provisions of which may advance.\<close>

lemma validateStepTransition_None:
  assumes "osStepID after = osStepID before" and "osAcceptanceContract after = osAcceptanceContract before"
    and "osAcceptanceReceipt after = None" and "osAcceptanceReceipt before = None"
    and "canonicalRequirements (osRequirements before)"
    and "osRequirements after = osRequirements before \<or> canonicalRequirements (osRequirements after) \<and>
      set (osRequirements before) \<subseteq> set (osRequirements after) \<and> \<not> activeProvisioning before"
    and "validProvisionHistory (osProvisioning before) (osProvisioning after)"
    and "length (osProvisioning after) > length (osProvisioning before) \<longrightarrow> canPlanProvisioning before"
    and "validStepStateTransition (osState before) (osState after)"
    and "length (osAttempts after) \<in> {length (osAttempts before), length (osAttempts before) + 1}"
    and "attemptsTransition (osAttempts before) (osAttempts after)"
  shows "validateStepTransition p n before after = None"
proof -
  have req: "requirementsSubset (osRequirements before) (osRequirements after)"
    using assms(5,6) requirementsSubset_refl requirementsSubset_iff by metis
  have kept: "\<not> (activeProvisioning before \<and> \<not> sameRequirements (osRequirements before) (osRequirements after))"
    using assms(6) by auto
  have receipt: "validAcceptanceReceiptTransition p n before after"
    using assms(3,4) by (simp add: validAcceptanceReceiptTransition_def)
  have length: "\<not> length (osAttempts after) < length (osAttempts before)"
    "\<not> length (osAttempts after) > length (osAttempts before) + 1" using assms(10) by auto
  show ?thesis
    unfolding validateStepTransition_def
    using assms(1,2,7-9,11) req kept receipt length by simp
qed

lemma attemptsTransition_refl [simp]: "attemptsTransition as as"
  by (simp add: attemptsTransition_def)

lemma validateStepTransition_refl:
  assumes "stepOk policy s" and "osAcceptanceReceipt s = None"
  shows "validateStepTransition p n s s = None"
  using assms
  by (intro validateStepTransition_None)
    (auto simp: stepOk_def provisionsOk_def validStepStateTransition_def intro: validProvisionHistory_refl)

subsection \<open>Revising one step\<close>

lemma stepIndex_Some:
  assumes "stepIndex o' i = Some k"
  shows "k < length (obSteps o')" and "osStepID (obSteps o' ! k) = TrimSpace i"
proof -
  have "k < length xs \<and> P (xs ! k)" if "indexOf P xs = Some k" for P and xs :: "ObjectiveStep list"
    using that by (induction xs arbitrary: k) (auto split: if_splits)
  then show "k < length (obSteps o')" and "osStepID (obSteps o' ! k) = TrimSpace i"
    using assms by (auto simp: stepIndex_def Let_def)
qed

lemma nonterminal_receipts:
  assumes "objectiveOk o'" and "obState o' \<noteq> ObjectiveAccepted" and "s \<in> set (obSteps o')"
  shows "osAcceptanceReceipt s = None"
proof (cases "osAcceptanceReceipt s")
  case (Some r)
  have "receiptOk (obObjectiveID o') (obPolicy o') (obState o') s"
    using assms(1,3) unfolding objectiveOk_def by blast
  with Some assms(2) show ?thesis unfolding receiptOk_def by blast
qed

lemma operationIDs_none: "\<forall>s \<in> set ss. osAcceptanceReceipt s = None \<Longrightarrow> operationIDs ss = []"
  by (induction ss) auto

lemma sameMode_update:
  assumes "k < length ss" and "osAcceptanceContract s' = osAcceptanceContract (ss ! k)"
  shows "sameCommandAcceptanceContractMode (ss[k := s']) = sameCommandAcceptanceContractMode ss"
proof -
  have "map (\<lambda>s. osAcceptanceContract s \<noteq> None) (ss[k := s']) = map (\<lambda>s. osAcceptanceContract s \<noteq> None) ss"
    using assms by (simp add: map_update list_update_same_conv)
  then have "length (filter (\<lambda>b. b) (map (\<lambda>s. osAcceptanceContract s \<noteq> None) (ss[k := s']))) =
      length (filter (\<lambda>b. b) (map (\<lambda>s. osAcceptanceContract s \<noteq> None) ss))" by (simp only:)
  then show ?thesis
    by (simp add: sameCommandAcceptanceContractMode_def Let_def filter_map comp_def)
qed

lemma distinct_concat_update:
  assumes "distinct (concat xss)" and "k < length xss" and "distinct ys"
    and "\<forall>y \<in> set ys. y \<in> set (xss ! k) \<or> y \<notin> set (concat xss)"
  shows "distinct (concat (xss[k := ys]))"
proof -
  have xss: "xss = take k xss @ xss ! k # drop (Suc k) xss" by (rule id_take_nth_drop [OF assms(2)])
  have upd: "xss[k := ys] = take k xss @ ys # drop (Suc k) xss" by (rule upd_conv_take_nth_drop [OF assms(2)])
  have "concat xss = concat (take k xss) @ xss ! k @ concat (drop (Suc k) xss)"
    by (subst xss) simp
  then show ?thesis
    using assms(1,3,4) unfolding upd by (auto simp del: set_concat)
qed

text \<open>
  What a revision of step \<open>k\<close> to \<open>s'\<close> must satisfy for the objective to stay valid.
\<close>

lemma revise_ok:
  assumes ok: "objectiveOk o'" and k: "k < length (obSteps o')" and s: "s = obSteps o' ! k"
    and before: "obState o' \<noteq> ObjectiveAccepted" and rev: "obRevision o' + 1 \<noteq> 0"
    and step: "stepOk (obPolicy o') s'" and id: "osStepID s' = osStepID s"
    and contract: "osAcceptanceContract s' = osAcceptanceContract s" and receipt: "osAcceptanceReceipt s' = osAcceptanceReceipt s"
    and ids: "distinct (attemptIDs s')"
      "\<forall>i \<in> set (attemptIDs s'). i \<in> set (attemptIDs s) \<or> i \<notin> set (concat (map attemptIDs (obSteps o')))"
    and state: "stateOk (revise o' k s' st)"
  shows "objectiveOk (revise o' k s' st)"
proof -
  have none: "\<forall>t \<in> set (obSteps o'). osAcceptanceReceipt t = None"
    using nonterminal_receipts [OF ok before] by blast
  have mem: "\<And>t. t \<in> set ((obSteps o')[k := s']) \<Longrightarrow> t = s' \<or> t \<in> set (obSteps o')"
    using set_update_subset_insert by fastforce
  have none': "\<forall>t \<in> set ((obSteps o')[k := s']). osAcceptanceReceipt t = None"
    using none receipt s k mem by (metis nth_mem)
  have sid: "map osStepID ((obSteps o')[k := s']) = map osStepID (obSteps o')"
    using k id s by (simp add: map_update list_update_same_conv)
  have "headerOk (revise o' k s' st)"
    using ok rev contract s sameMode_update [OF k, of s']
    by (auto simp: objectiveOk_def headerOk_def revise_def)
  moreover have "distinct (concat (map attemptIDs ((obSteps o')[k := s'])))"
    using ok ids s k unfolding map_update objectiveOk_def
    by (intro distinct_concat_update) auto
  moreover have "operationIDs ((obSteps o')[k := s']) = []" by (rule operationIDs_none [OF none'])
  moreover have "\<forall>t \<in> set ((obSteps o')[k := s']). stepOk (obPolicy o') t"
    using ok step mem unfolding objectiveOk_def by blast
  ultimately show ?thesis
    using ok state sid none' unfolding objectiveOk_def receiptOk_def by (auto simp: revise_def)
qed

subsection \<open>The invariant of the operations\<close>

text \<open>
  Beyond a valid snapshot: an objective that is not terminal has no cancelled step, and
  provisioning is only active on a step that has no attempt or a failed one.
\<close>

definition liveStep :: "ObjectiveStep \<Rightarrow> bool" where
  "liveStep s \<longleftrightarrow> osState s \<noteq> StepCancelled \<and>
     (activeProvisioning s \<longrightarrow> osAttempts s = [] \<or> eaState (last (osAttempts s)) = AttemptFailed)"

definition objectiveInv :: "Objective \<Rightarrow> bool" where
  "objectiveInv o' \<longleftrightarrow> objectiveOk o' \<and> (\<not> terminal_objective o' \<longrightarrow> (\<forall>s \<in> set (obSteps o'). liveStep s))"

lemma revise_simps [simp]:
  "obSteps (revise o' k s' st) = (obSteps o')[k := s']" "obState (revise o' k s' st) = st"
  "obRevision (revise o' k s' st) = obRevision o' + 1" "obPolicy (revise o' k s' st) = obPolicy o'"
  "obScope (revise o' k s' st) = obScope o'" "obObjectiveID (revise o' k s' st) = obObjectiveID o'"
  "obVersion (revise o' k s' st) = obVersion o'"
  by (simp_all add: revise_def)

lemma revise_transition:
  assumes ok: "objectiveOk o'" "objectiveOk (revise o' k s' st)" and live: "\<not> terminal_objective o'"
    and k: "k < length (obSteps o')" and state: "validObjectiveStateTransition (obState o') st"
    and step: "validateStepTransition (obState o') st (obSteps o' ! k) s' = None"
  shows "ValidateTransition o' (revise o' k s' st) = None"
proof -
  have "validateStepTransition (obState o') st b a = None" if "(b, a) \<in> set (zip (obSteps o') ((obSteps o')[k := s']))" for b a
  proof -
    obtain j where j: "j < length (obSteps o')" "b = obSteps o' ! j" "a = (obSteps o')[k := s'] ! j"
      using \<open>(b, a) \<in> set (zip (obSteps o') ((obSteps o')[k := s']))\<close> by (auto simp: set_zip)
    have "b \<in> set (obSteps o')" using j by simp
    then have "stepOk (obPolicy o') b" "osAcceptanceReceipt b = None"
      using ok(1) live nonterminal_receipts [OF ok(1)] by (auto simp: objectiveOk_def terminal_objective_def)
    then show ?thesis
      using j step k by (cases "j = k") (auto intro: validateStepTransition_refl)
  qed
  then have "validateStepTransitions (obState o') st (zip (obSteps o') ((obSteps o')[k := s'])) = None"
    unfolding validateStepTransitions_None by blast
  then show ?thesis
    using ok live state by (simp add: ValidateTransition_def Valid_objective_iff)
qed

lemma stateOk_revise:
  assumes "k < length (obSteps o')"
  shows "osState s' \<noteq> StepSucceeded \<Longrightarrow> stateOk (revise o' k s' ObjectiveRunning)"
    and "osState s' = StepFailed \<Longrightarrow> stateOk (revise o' k s' ObjectiveFailed)"
    and "a \<in> set (osAttempts s') \<Longrightarrow> eaState a = AttemptFailed \<Longrightarrow> eaFailure a = FailureReconciliationNeeded \<Longrightarrow>
      stateOk (revise o' k s' ObjectiveReconciliationRequired)"
proof -
  have "s' \<in> set ((obSteps o')[k := s'])" using assms by (rule set_update_memI)
  then show "osState s' \<noteq> StepSucceeded \<Longrightarrow> stateOk (revise o' k s' ObjectiveRunning)"
    and "osState s' = StepFailed \<Longrightarrow> stateOk (revise o' k s' ObjectiveFailed)"
    and "a \<in> set (osAttempts s') \<Longrightarrow> eaState a = AttemptFailed \<Longrightarrow> eaFailure a = FailureReconciliationNeeded \<Longrightarrow>
      stateOk (revise o' k s' ObjectiveReconciliationRequired)"
    by (auto simp: stateOk_def Let_def objectiveHasFailureClass_def list_ex_iff)
qed

lemma live_update:
  assumes "\<forall>s \<in> set ss. liveStep s" and "liveStep s'"
  shows "\<forall>s \<in> set (ss[k := s']). liveStep s"
  using assms set_update_subset_insert [of ss k s'] by blast

text \<open>Advancing the last attempt of a step: what does not change and what has to be shown.\<close>

lemma immutablePart_fields:
  assumes "immutablePart a = immutablePart b"
  shows "eaAttemptID a = eaAttemptID b" "eaStepID a = eaStepID b" "eaParentAttemptID a = eaParentAttemptID b"
    "eaSourceDigest a = eaSourceDigest b" "eaEnvironmentDigest a = eaEnvironmentDigest b" "eaClass a = eaClass b"
    "validIdentity a = validIdentity b"
  using arg_cong [OF assms, of eaAttemptID] arg_cong [OF assms, of eaStepID] arg_cong [OF assms, of eaParentAttemptID]
    arg_cong [OF assms, of eaSourceDigest] arg_cong [OF assms, of eaEnvironmentDigest] arg_cong [OF assms, of eaClass]
    arg_cong [OF assms, of validIdentity]
  by (simp_all add: immutablePart_def)

lemma immutablePart_updates [simp]:
  "immutablePart (a\<lparr>eaState := s\<rparr>) = immutablePart a" "immutablePart (a\<lparr>eaFailure := f\<rparr>) = immutablePart a"
  by (simp_all add: immutablePart_def)

lemma map_replaceLast: "xs \<noteq> [] \<Longrightarrow> f x = f (last xs) \<Longrightarrow> map f (replaceLast xs x) = map f xs"
  by (induction xs rule: rev_induct) (auto simp: replaceLast_eq)

lemma set_replaceLast: "xs \<noteq> [] \<Longrightarrow> set (replaceLast xs x) \<subseteq> insert x (set xs)"
  by (auto simp: replaceLast_eq dest: in_set_butlastD)

lemma validAttemptContinuation_immutable:
  assumes "immutablePart a = immutablePart b"
  shows "validAttemptContinuation p a = validAttemptContinuation p b"
  unfolding validAttemptContinuation_def immutablePart_fields [OF assms] ..

lemma attemptsOk_replaceLast:
  assumes ok: "attemptsOk i as" and ne: "as \<noteq> []" and imm: "immutablePart a = immutablePart (last as)" and fo: "attemptFailureOk a"
  shows "attemptsOk i (replaceLast as a)"
proof -
  have as: "as = butlast as @ [last as]" using ne by simp
  have l: "last as \<in> set as" using ne by simp
  have mem: "\<forall>b \<in> set (replaceLast as a). validIdentity b \<and> eaStepID b = i \<and> attemptFailureOk b"
  proof
    fix b assume "b \<in> set (replaceLast as a)"
    then have "b = a \<or> b \<in> set as" using set_replaceLast [OF ne, of a] by blast
    then show "validIdentity b \<and> eaStepID b = i \<and> attemptFailureOk b"
      using ok l fo immutablePart_fields(2,7) [OF imm] unfolding attemptsOk_def by auto
  qed
  have succ: "successively validAttemptContinuation (butlast as @ [last as])"
    using ok as unfolding attemptsOk_def by simp
  then have "successively validAttemptContinuation (butlast as @ [a])"
    using validAttemptContinuation_immutable [OF imm] by (auto simp: successively_append_iff)
  moreover have "eaParentAttemptID (hd (replaceLast as a)) = []"
  proof (cases "butlast as = []")
    case True
    then have "as = [last as]" using as by simp
    then have "eaParentAttemptID (last as) = []" using ok unfolding attemptsOk_def by (metis list.sel(1) list.distinct(1))
    then show ?thesis using True ne immutablePart_fields(3) [OF imm] by (simp add: replaceLast_eq)
  next
    case False
    then show ?thesis using ok ne as unfolding attemptsOk_def replaceLast_eq [OF ne]
      by (metis hd_append2)
  qed
  ultimately show ?thesis using mem ne unfolding attemptsOk_def by (simp add: replaceLast_eq)
qed

lemma replaceLast_simps [simp]: "length (replaceLast xs x) = length xs"
  "xs \<noteq> [] \<Longrightarrow> last (replaceLast xs x) = x" "xs \<noteq> [] \<Longrightarrow> butlast (replaceLast xs x) = butlast xs"
  "xs \<noteq> [] \<Longrightarrow> replaceLast xs x \<noteq> []"
  by (simp_all add: replaceLast_eq) (simp add: replaceLast_def)

lemma activeProvisioning_cong: "osProvisioning s = osProvisioning t \<Longrightarrow> activeProvisioning s = activeProvisioning t"
  by (simp add: activeProvisioning_def)

lemma stepOk_advance:
  assumes ok: "stepOk p s" and ne: "osAttempts s \<noteq> []" and imm: "immutablePart a = immutablePart (last (osAttempts s))"
    and fo: "attemptFailureOk a" and s': "s' = s\<lparr>osAttempts := replaceLast (osAttempts s) a, osState := st\<rparr>"
    and act: "\<not> activeProvisioning s \<or> st = StepFailed" and st: "validStepState st" and matches: "stepStateMatchesAttempts s'"
  shows "stepOk p s'" and "attemptIDs s' = attemptIDs s"
proof -
  have l: "last (osAttempts s) \<in> set (osAttempts s)" using ne by simp
  have mem: "b \<in> set (replaceLast (osAttempts s) a) \<Longrightarrow> b = a \<or> b \<in> set (osAttempts s)" for b
    using set_replaceLast [OF ne] by blast
  have "attemptsOk (osStepID s) (replaceLast (osAttempts s) a)"
    using ok by (intro attemptsOk_replaceLast [OF _ ne imm fo]) (simp add: stepOk_def)
  moreover have "contractOk p s'"
    using ok l mem immutablePart_fields(4) [OF imm] by (force simp: stepOk_def contractOk_def s')
  moreover have "\<forall>b \<in> set (replaceLast (osAttempts s) a). AllowsClass p (eaClass b)"
    using ok l mem immutablePart_fields(6) [OF imm] by (force simp: stepOk_def)
  moreover have "activeProvisioning s' = activeProvisioning s" by (rule activeProvisioning_cong) (simp add: s')
  ultimately show "stepOk p s'"
    using ok act st matches unfolding stepOk_def by (auto simp: s')
  show "attemptIDs s' = attemptIDs s"
    using map_replaceLast [OF ne, of eaAttemptID a] immutablePart_fields(1) [OF imm] by (simp add: attemptIDs_def s')
qed

lemma objectiveInv_step:
  assumes "objectiveInv o'" and "\<not> terminal_objective o'" and "k < length (obSteps o')" and "s = obSteps o' ! k"
  shows "stepOk (obPolicy o') s" and "osAcceptanceReceipt s = None" and "liveStep s" and "s \<in> set (obSteps o')"
    and "distinct (attemptIDs s)" and "obState o' \<noteq> ObjectiveAccepted" and "objectiveOk o'"
proof -
  show ok: "objectiveOk o'" and acc: "obState o' \<noteq> ObjectiveAccepted" and s: "s \<in> set (obSteps o')"
    using assms by (auto simp: objectiveInv_def terminal_objective_def)
  show "stepOk (obPolicy o') s" "osAcceptanceReceipt s = None" "liveStep s"
    using ok s assms nonterminal_receipts [OF ok acc] by (auto simp: objectiveInv_def objectiveOk_def)
  show "distinct (attemptIDs s)"
    using ok s by (auto simp: objectiveOk_def distinct_concat_iff)
qed

text \<open>Advancing the last attempt of a step of a live objective.\<close>

lemma advance_ok:
  assumes inv: "objectiveInv o'" and live: "\<not> terminal_objective o'" and k: "k < length (obSteps o')"
    and s: "s = obSteps o' ! k" and rev: "obRevision o' + 1 \<noteq> 0"
    and ne: "osAttempts s \<noteq> []" and s': "s' = s\<lparr>osAttempts := replaceLast (osAttempts s) a, osState := st\<rparr>"
    and revision: "validAttemptRevision (last (osAttempts s)) a" and fo: "attemptFailureOk a"
    and act: "eaState (last (osAttempts s)) \<noteq> AttemptFailed" and st: "st \<in> {StepRunning, StepSucceeded, StepFailed}"
    and matches: "stepStateMatchesAttempts s'" and steps: "validStepStateTransition (osState s) st"
    and state: "stateOk (revise o' k s' ost)" and states: "validObjectiveStateTransition (obState o') ost"
  shows "objectiveInv (revise o' k s' ost) \<and> ValidateTransition o' (revise o' k s' ost) = None"
proof -
  note step = objectiveInv_step [OF inv live k s]
  have inactive: "\<not> activeProvisioning s" using step(3) ne act by (auto simp: liveStep_def)
  have imm: "immutablePart a = immutablePart (last (osAttempts s))"
    using revision by (auto simp: validAttemptRevision_def split: if_splits)
  have "validStepState st" using st by (auto simp: validStepState_def)
  note adv = stepOk_advance [OF step(1) ne imm fo s' disjI1 [OF inactive] this matches]
  have same: "osStepID s' = osStepID s" "osAcceptanceContract s' = osAcceptanceContract s"
    "osAcceptanceReceipt s' = osAcceptanceReceipt s" by (simp_all add: s')
  have ok: "objectiveOk (revise o' k s' ost)"
    by (rule revise_ok [OF step(7) k s step(6) rev adv(1) same _ _ state]) (use step(5) in \<open>simp_all add: adv(2)\<close>)
  have "validProvisionHistory (osProvisioning s) (osProvisioning s)"
    using step(1) by (intro validProvisionHistory_refl) (simp add: stepOk_def provisionsOk_def)
  then have "validateStepTransition (obState o') ost s s' = None"
    using step(1,2) ne revision steps
    by (intro validateStepTransition_None) (auto simp: s' stepOk_def attemptsTransition_def)
  moreover have "liveStep s'"
    using inactive st by (auto simp: liveStep_def s' activeProvisioning_def)
  then have "\<forall>t \<in> set (obSteps (revise o' k s' ost)). liveStep t"
    using inv live by (auto simp: objectiveInv_def intro: live_update [THEN bspec])
  ultimately show ?thesis
    using revise_transition [OF step(7) ok live k states] s ok by (simp add: objectiveInv_def)
qed

subsection \<open>The operations on attempts\<close>

lemma stepOk_attempt:
  assumes "stepOk p s" and "osAttempts s \<noteq> []"
  shows "attemptFailureOk (last (osAttempts s))" and "validIdentity (last (osAttempts s))"
    and "stepStateMatchesAttempts s"
  using assms last_in_set [OF assms(2)] by (auto simp: stepOk_def attemptsOk_def)

lemma objectiveOk_state:
  assumes "objectiveOk o'" and "s \<in> set (obSteps o')"
  shows "osAttempts s \<noteq> [] \<Longrightarrow> obState o' \<noteq> ObjectivePlanned"
    and "osState s \<noteq> StepSucceeded \<Longrightarrow> obState o' \<noteq> ObjectiveAcceptancePending"
  using assms by (auto simp: objectiveOk_def stateOk_def Let_def)

lemma live_transition:
  assumes "objectiveOk o'" and "s \<in> set (obSteps o')" and "osAttempts s \<noteq> []" and "osState s \<noteq> StepSucceeded"
    and "\<not> terminal_objective o'" and "st \<in> {ObjectiveRunning, ObjectiveReconciliationRequired, ObjectiveFailed}"
  shows "validObjectiveStateTransition (obState o') st"
  using objectiveOk_state [OF assms(1,2)] assms
  by (cases "obState o'")
    (auto simp: validObjectiveStateTransition_def terminal_objective_def objectiveOk_def stateOk_def)

lemma StartAttempt_ok:
  assumes inv: "objectiveInv o'" and op: "StartAttempt o' i = Inr o''" and rev: "obRevision o' + 1 \<noteq> 0"
  shows "objectiveInv o'' \<and> ValidateTransition o' o'' = None"
proof -
  obtain k where k: "stepIndex o' i = Some k" and live: "\<not> terminal_objective o'"
    using op by (auto simp: StartAttempt_def split: option.splits if_splits)
  define s where "s = obSteps o' ! k"
  obtain a where ne: "osAttempts s \<noteq> []" and a: "Transition (last (osAttempts s)) AttemptRunning = Inr a"
    and o'': "o'' = revise o' k (s\<lparr>osAttempts := replaceLast (osAttempts s) a, osState := StepRunning\<rparr>) ObjectiveRunning"
    using op k live by (auto simp: StartAttempt_def s_def Let_def split: if_splits sum.splits)
  note kl = stepIndex_Some(1) [OF k]
  note step = objectiveInv_step [OF inv live kl s_def]
  let ?l = "last (osAttempts s)"
  note at = stepOk_attempt [OF step(1) ne]
  have l: "eaState ?l = AttemptPlanned \<or> eaState ?l = AttemptRunning" and a': "a = ?l\<lparr>eaState := AttemptRunning\<rparr>"
    using Transition_Inr(2) [OF a] at(1)
    by (auto simp: attemptTransitionAllowed_def attemptFailureOk_def split: AttemptState.splits)
  show ?thesis
    unfolding o''
  proof (rule advance_ok [OF inv live kl s_def rev ne refl])
    show "validAttemptRevision ?l a" "attemptFailureOk a"
      using at(1) l by (auto simp: a' validAttemptRevision_def attemptFailureOk_def)
    show "validStepStateTransition (osState s) StepRunning"
      using at(3) ne l by (auto simp: stepStateMatchesAttempts_def validStepStateTransition_def)
    show "validObjectiveStateTransition (obState o') ObjectiveRunning"
      using at(3) l ne by (intro live_transition [OF step(7,4) ne _ live]) (auto simp: stepStateMatchesAttempts_def)
  qed (use l ne kl in \<open>auto simp: a' stepStateMatchesAttempts_def intro!: stateOk_revise\<close>)
qed

text \<open>A failure recorded on the last attempt, before it started or while it ran.\<close>

lemma fail_ok:
  assumes inv: "objectiveInv o'" and live: "\<not> terminal_objective o'" and k: "stepIndex o' i = Some k"
    and s: "s = obSteps o' ! k" and ne: "osAttempts s \<noteq> []" and rev: "obRevision o' + 1 \<noteq> 0"
    and l: "eaState (last (osAttempts s)) = AttemptPlanned \<and> preflightFailureAllowed cls \<or>
      eaState (last (osAttempts s)) = AttemptRunning"
    and action: "ContinuationForFailure cls = Some action"
    and o'': "o'' = revise o' k (s\<lparr>osAttempts := replaceLast (osAttempts s)
        ((last (osAttempts s))\<lparr>eaState := AttemptFailed, eaFailure := cls\<rparr>), osState := StepFailed\<rparr>) (stateAfterFailure action)"
  shows "objectiveInv o'' \<and> ValidateTransition o' o'' = None"
proof -
  note kl = stepIndex_Some(1) [OF k]
  note step = objectiveInv_step [OF inv live kl s]
  let ?a = "(last (osAttempts s))\<lparr>eaState := AttemptFailed, eaFailure := cls\<rparr>"
  note at = stepOk_attempt [OF step(1) ne]
  have reconcile: "cls = FailureReconciliationNeeded" if "action = ActionReconcile"
    using that action by (cases cls) auto
  have a: "?a \<in> set (replaceLast (osAttempts s) ?a)"
    using ne by (simp add: replaceLast_eq)
  show ?thesis
    unfolding o''
  proof (rule advance_ok [OF inv live kl s rev ne refl])
    show "validAttemptRevision (last (osAttempts s)) ?a" "attemptFailureOk ?a"
      using l action by (auto simp: validAttemptRevision_def attemptFailureOk_def)
    show "validStepStateTransition (osState s) StepFailed"
      using at(3) ne l by (auto simp: stepStateMatchesAttempts_def validStepStateTransition_def)
    show "validObjectiveStateTransition (obState o') (stateAfterFailure action)"
      using at(3) l ne by (intro live_transition [OF step(7,4) ne _ live])
        (auto simp: stepStateMatchesAttempts_def stateAfterFailure_def split: ContinuationAction.splits)
    show "stateOk (revise o' k (s\<lparr>osAttempts := replaceLast (osAttempts s) ?a, osState := StepFailed\<rparr>) (stateAfterFailure action))"
      using stateOk_revise [OF kl] a reconcile by (cases action) (auto simp: stateAfterFailure_def)
  qed (use l ne in \<open>auto simp: stepStateMatchesAttempts_def\<close>)
qed

lemma FailAttempt_ok:
  assumes "objectiveInv o'" and "FailAttempt o' i cls = Inr (o'', action)" and "obRevision o' + 1 \<noteq> 0"
  shows "objectiveInv o'' \<and> ValidateTransition o' o'' = None"
proof -
  obtain k where k: "stepIndex o' i = Some k" "\<not> terminal_objective o'" "osAttempts (obSteps o' ! k) \<noteq> []"
    and l: "eaState (last (osAttempts (obSteps o' ! k))) = AttemptRunning" and action: "ContinuationForFailure cls = Some action"
    and o'': "o'' = revise o' k ((obSteps o' ! k)\<lparr>osAttempts := replaceLast (osAttempts (obSteps o' ! k))
        ((last (osAttempts (obSteps o' ! k)))\<lparr>eaState := AttemptFailed, eaFailure := cls\<rparr>), osState := StepFailed\<rparr>)
        (stateAfterFailure action)"
    using assms(2) by (auto simp: FailAttempt_def Fail_attempt_def Let_def split: option.splits if_splits sum.splits)
  show ?thesis by (rule fail_ok [OF assms(1) k(2,1) refl k(3) assms(3) _ action o'']) (simp add: l)
qed

lemma RejectAttempt_ok:
  assumes "objectiveInv o'" and "RejectAttempt o' i cls = Inr (o'', action)" and "obRevision o' + 1 \<noteq> 0"
  shows "objectiveInv o'' \<and> ValidateTransition o' o'' = None"
proof -
  obtain k where k: "stepIndex o' i = Some k" "\<not> terminal_objective o'" "osAttempts (obSteps o' ! k) \<noteq> []"
    and l: "eaState (last (osAttempts (obSteps o' ! k))) = AttemptPlanned \<and> preflightFailureAllowed cls"
    and action: "ContinuationForFailure cls = Some action"
    and o'': "o'' = revise o' k ((obSteps o' ! k)\<lparr>osAttempts := replaceLast (osAttempts (obSteps o' ! k))
        ((last (osAttempts (obSteps o' ! k)))\<lparr>eaState := AttemptFailed, eaFailure := cls\<rparr>), osState := StepFailed\<rparr>)
        (stateAfterFailure action)"
    using assms(2) by (auto simp: RejectAttempt_def RejectPreflight_def Let_def split: option.splits if_splits sum.splits)
  show ?thesis by (rule fail_ok [OF assms(1) k(2,1) refl k(3) assms(3) _ action o'']) (simp add: l)
qed

lemma successively_next: "successively P xs \<Longrightarrow> x \<in> set (butlast xs) \<Longrightarrow> \<exists>y. P x y"
  by (induction xs rule: induct_list012) auto

lemma reconcile_failed:
  assumes "objectiveOk o'" and "objectiveHasFailureClass o' FailureReconciliationNeeded"
  shows "\<exists>t \<in> set (obSteps o'). osState t = StepFailed"
proof -
  obtain t a where t: "t \<in> set (obSteps o')" "a \<in> set (osAttempts t)" "eaState a = AttemptFailed"
    "eaFailure a = FailureReconciliationNeeded"
    using assms(2) by (auto simp: objectiveHasFailureClass_def list_ex_iff)
  have ok: "stepOk (obPolicy o') t" using assms(1) t(1) by (auto simp: objectiveOk_def)
  have "\<not> validAttemptContinuation a b" for b using t(4) by (simp add: validAttemptContinuation_def)
  moreover have "successively validAttemptContinuation (osAttempts t)"
    using ok by (simp add: stepOk_def attemptsOk_def)
  ultimately have "a \<notin> set (butlast (osAttempts t))"
    using successively_next [of validAttemptContinuation "osAttempts t" a] by blast
  then have "a = last (osAttempts t)"
    using t(2) by (metis append_butlast_last_id empty_iff empty_set in_set_conv_decomp insert_iff list.set(2) Un_iff set_append)
  moreover have "osAttempts t \<noteq> []" "stepStateMatchesAttempts t" using t(2) ok by (auto simp: stepOk_def)
  ultimately have "osState t = StepFailed" using t(3) by (simp add: stepStateMatchesAttempts_def)
  then show ?thesis using t(1) by blast
qed

lemma CompleteAttempt_ok:
  assumes inv: "objectiveInv o'" and op: "CompleteAttempt o' i = Inr o''" and rev: "obRevision o' + 1 \<noteq> 0"
  shows "objectiveInv o'' \<and> ValidateTransition o' o'' = None"
proof -
  obtain k where k: "stepIndex o' i = Some k" and live: "\<not> terminal_objective o'"
    using op by (auto simp: CompleteAttempt_def split: option.splits if_splits)
  define s where "s = obSteps o' ! k"
  obtain a where ne: "osAttempts s \<noteq> []" and a: "Transition (last (osAttempts s)) AttemptSucceeded = Inr a"
    using op k live by (auto simp: CompleteAttempt_def s_def Let_def split: if_splits sum.splits)
  define s' where "s' = s\<lparr>osAttempts := replaceLast (osAttempts s) a, osState := StepSucceeded\<rparr>"
  define all where "all = list_all (\<lambda>t. osState t = StepSucceeded) ((obSteps o')[k := s'])"
  have o'': "o'' = revise o' k s' (if all then ObjectiveAcceptancePending else ObjectiveRunning)"
    using op k live ne a by (simp add: CompleteAttempt_def s_def [symmetric] s'_def all_def Let_def)
  note kl = stepIndex_Some(1) [OF k]
  note step = objectiveInv_step [OF inv live kl s_def]
  let ?l = "last (osAttempts s)"
  note at = stepOk_attempt [OF step(1) ne]
  have l: "eaState ?l = AttemptRunning \<or> eaState ?l = AttemptSucceeded"
    and a': "a = ?l\<lparr>eaState := AttemptSucceeded, eaFailure := NoFailure\<rparr>"
    using Transition_Inr(2) [OF a] at(1)
    by (auto simp: attemptTransitionAllowed_def attemptFailureOk_def split: AttemptState.splits)
  have states: "osState s = StepRunning \<or> osState s = StepSucceeded"
    using at(3) ne l by (auto simp: stepStateMatchesAttempts_def)
  have none: "operationIDs ((obSteps o')[k := s']) = []"
    using nonterminal_receipts [OF step(7,6)] step(2) set_update_subset_insert [of "obSteps o'" k s']
    by (intro operationIDs_none) (auto simp: s'_def)
  have others: "t = s \<or> t \<in> set ((obSteps o')[k := s'])" if "t \<in> set (obSteps o')" for t
    using that s_def by (metis in_set_conv_nth length_list_update nth_list_update_neq)
  show ?thesis
    unfolding o''
  proof (rule advance_ok [OF inv live kl s_def rev ne s'_def])
    show "validAttemptRevision ?l a" "attemptFailureOk a"
      using at(1) l by (auto simp: a' validAttemptRevision_def attemptFailureOk_def)
    show "validStepStateTransition (osState s) StepSucceeded"
      using states by (auto simp: validStepStateTransition_def)
    show "stateOk (revise o' k s' (if all then ObjectiveAcceptancePending else ObjectiveRunning))"
      using none by (auto simp: all_def stateOk_def Let_def list_all_iff)
    have "\<not> all" if "obState o' = ObjectiveReconciliationRequired"
      using reconcile_failed [OF step(7)] step(7) that others states
      by (fastforce simp: objectiveOk_def stateOk_def all_def list_all_iff)
    moreover have all if "obState o' = ObjectiveAcceptancePending"
      using step(7) that set_update_subset_insert [of "obSteps o'" k s']
      by (auto simp: objectiveOk_def stateOk_def all_def list_all_iff s'_def)
    ultimately show "validObjectiveStateTransition (obState o') (if all then ObjectiveAcceptancePending else ObjectiveRunning)"
      using objectiveOk_state(1) [OF step(7,4) ne] live step(7)
      by (cases "obState o'") (auto simp: validObjectiveStateTransition_def terminal_objective_def objectiveOk_def stateOk_def)
  qed (use l ne in \<open>auto simp: a' s'_def stepStateMatchesAttempts_def\<close>)
qed

subsection \<open>Planning\<close>

lemma planStep_Inr:
  assumes "planStep s aid d cs p = Inr (a, res)" and "valid_policy p" and "identityPattern (osStepID s)"
    and "osAttempts s \<noteq> [] \<Longrightarrow> eaStepID (last (osAttempts s)) = osStepID s"
  shows "validIdentity a" and "eaStepID a = osStepID s" and "eaState a = AttemptPlanned" and "eaFailure a = NoFailure"
    and "AllowsClass p (eaClass a)" and "eaAttemptID a = TrimSpace aid" and "eaSourceDigest a = ToLower (TrimSpace d)"
    and "osAttempts s = [] \<longrightarrow> eaParentAttemptID a = []"
    and "osAttempts s \<noteq> [] \<longrightarrow> validAttemptContinuation (last (osAttempts s)) a"
proof -
  have "validIdentity a \<and> eaStepID a = osStepID s \<and> eaState a = AttemptPlanned \<and> eaFailure a = NoFailure \<and>
    AllowsClass p (eaClass a) \<and> eaAttemptID a = TrimSpace aid \<and> eaSourceDigest a = ToLower (TrimSpace d) \<and>
    (osAttempts s = [] \<longrightarrow> eaParentAttemptID a = []) \<and>
    (osAttempts s \<noteq> [] \<longrightarrow> validAttemptContinuation (last (osAttempts s)) a)"
  proof (cases "osAttempts s = []")
    case True
    then obtain res0 where r: "Resolve (osRequirements s) None cs p = Inr res0"
      and a: "NewExecutionAttempt aid (osStepID s) d (rsEnvironment res0) = Inr a"
      using assms(1) by (auto simp: planStep_def split: sum.splits)
    from r have "Allows p (rsEnvironment res0)" by (rule Resolve_Inr) auto
    then have "AllowsClass p (atClass (rsEnvironment res0))"
      using assms(2) by (simp add: Allows_iff AllowsClass_iff)
    then show ?thesis using NewExecutionAttempt_Inr [OF a] True assms(3) by simp
  next
    case False
    then obtain res0 where r: "resolveContinuation s p cs = Inr res0"
      and a: "ContinueExecutionAttempt aid d (last (osAttempts s)) (rsEnvironment res0) = Inr a"
      using assms(1) by (auto simp: planStep_def split: sum.splits)
    have "Allows p (rsEnvironment res0)"
    proof (cases "\<exists>e. rsEnvironment res0 = e \<and> res0 = \<lparr>rsEnvironment = e, rsMigrated = False\<rparr> \<and> Allows p e")
      case False
      then have "Resolve (osRequirements s) None cs p = Inr res0"
        using r by (auto simp: resolveContinuation_def Let_def split: if_splits option.splits)
      then show ?thesis by (rule Resolve_Inr) auto
    qed auto
    then have cls: "AllowsClass p (atClass (rsEnvironment res0))"
      using assms(2) by (simp add: Allows_iff AllowsClass_iff)
    have "eaFailure a = NoFailure \<and> eaAttemptID a = TrimSpace aid \<and> eaSourceDigest a = ToLower (TrimSpace d)"
      using a
    proof (rule ContinueExecutionAttempt_Inr)
      fix b action
      assume b: "NewExecutionAttempt aid (eaStepID (last (osAttempts s))) (ToLower (TrimSpace d)) (rsEnvironment res0) = Inr b"
        and ab: "a = b\<lparr>eaParentAttemptID := eaAttemptID (last (osAttempts s))\<rparr>" and dp: "digestPattern (ToLower (TrimSpace d))"
      show ?thesis using NewExecutionAttempt_Inr [OF b] dp by (simp add: ab)
    qed
    then show ?thesis
      using ContinueExecutionAttempt_continues [OF a] cls False assms(4) by simp
  qed
  then show "validIdentity a" and "eaStepID a = osStepID s" and "eaState a = AttemptPlanned" and "eaFailure a = NoFailure"
    and "AllowsClass p (eaClass a)" and "eaAttemptID a = TrimSpace aid" and "eaSourceDigest a = ToLower (TrimSpace d)"
    and "osAttempts s = [] \<longrightarrow> eaParentAttemptID a = []"
    and "osAttempts s \<noteq> [] \<longrightarrow> validAttemptContinuation (last (osAttempts s)) a"
    by blast+
qed

lemma attemptsOk_append:
  assumes "attemptsOk i as" and "validIdentity a" and "eaStepID a = i" and "attemptFailureOk a"
    and "as = [] \<longrightarrow> eaParentAttemptID a = []" and "as \<noteq> [] \<longrightarrow> validAttemptContinuation (last as) a"
  shows "attemptsOk i (as @ [a])"
  using assms by (auto simp: attemptsOk_def successively_append_iff hd_append)

lemma PlanAttempt_Inr:
  assumes "PlanAttempt o' i aid d cs = Inr (o'', res)"
  obtains k s a where "stepIndex o' i = Some k" and "\<not> terminal_objective o'" and "s = obSteps o' ! k"
    and "\<forall>c. osAcceptanceContract s = Some c \<longrightarrow> TrimSpace d = ccSourceDigest c"
    and "\<not> activeProvisioning s" and "osState s \<noteq> StepSucceeded" and "length (osAttempts s) < MaxAttemptsPerStep"
    and "planStep s aid d cs (obPolicy o') = Inr (a, res)"
    and "o'' = revise o' k (s\<lparr>osAttempts := osAttempts s @ [a], osState := StepPlanned\<rparr>) ObjectiveRunning"
proof -
  obtain k where k: "stepIndex o' i = Some k" "\<not> terminal_objective o'"
    using assms by (auto simp: PlanAttempt_def split: option.splits if_splits)
  define s where "s = obSteps o' ! k"
  show thesis
    using assms k that [OF k s_def] unfolding PlanAttempt_def s_def [symmetric]
    by (auto simp: Let_def s_def [symmetric] split: option.splits if_splits sum.splits prod.splits)
qed

lemma PlanAttempt_ok:
  assumes inv: "objectiveInv o'" and op: "PlanAttempt o' i aid d cs = Inr (o'', res)" and rev: "obRevision o' + 1 \<noteq> 0"
    and fresh: "TrimSpace aid \<notin> set (concat (map attemptIDs (obSteps o')))"
  shows "objectiveInv o'' \<and> ValidateTransition o' o'' = None"
proof -
  obtain k s a where k: "stepIndex o' i = Some k" and live: "\<not> terminal_objective o'" and s_def: "s = obSteps o' ! k"
    and source: "\<forall>c. osAcceptanceContract s = Some c \<longrightarrow> TrimSpace d = ccSourceDigest c"
    and inactive: "\<not> activeProvisioning s" and notdone: "osState s \<noteq> StepSucceeded"
    and room: "length (osAttempts s) < MaxAttemptsPerStep" and plan: "planStep s aid d cs (obPolicy o') = Inr (a, res)"
    and o'': "o'' = revise o' k (s\<lparr>osAttempts := osAttempts s @ [a], osState := StepPlanned\<rparr>) ObjectiveRunning"
    using op by (rule PlanAttempt_Inr)
  define s' where "s' = s\<lparr>osAttempts := osAttempts s @ [a], osState := StepPlanned\<rparr>"
  note kl = stepIndex_Some(1) [OF k]
  note step = objectiveInv_step [OF inv live kl s_def]
  have policy: "valid_policy (obPolicy o')" using step(7) by (simp add: objectiveOk_def headerOk_def)
  have ids: "osAttempts s \<noteq> [] \<Longrightarrow> eaStepID (last (osAttempts s)) = osStepID s" "identityPattern (osStepID s)"
    using step(1) last_in_set [of "osAttempts s"] by (auto simp: stepOk_def attemptsOk_def)
  note a = planStep_Inr [OF plan policy ids(2,1)]
  have before: "osState s = StepPlanned \<or> osState s = StepFailed"
    "osAttempts s \<noteq> [] \<Longrightarrow> eaState (last (osAttempts s)) = AttemptFailed"
    using step(1,3) a(9) notdone
    by (auto simp: stepOk_def liveStep_def stepStateMatchesAttempts_def validAttemptContinuation_def split: if_splits)
  have "contractOk (obPolicy o') s'"
  proof -
    have "eaSourceDigest a = ccSourceDigest c" if "osAcceptanceContract s = Some c" for c
    proof -
      have "valid_contract c" using step(1) that by (simp add: stepOk_def contractOk_def validFor_contract_def)
      then show ?thesis using source [rule_format, OF that] a(7) by (simp add: valid_contract_def sourceDigestPattern_def)
    qed
    then show ?thesis using step(1) by (auto simp: stepOk_def contractOk_def s'_def)
  qed
  moreover have "attemptsOk (osStepID s) (osAttempts s @ [a])"
    using step(1) a by (intro attemptsOk_append) (auto simp: stepOk_def attemptFailureOk_def)
  moreover have "activeProvisioning s' = activeProvisioning s" by (rule activeProvisioning_cong) (simp add: s'_def)
  ultimately have ok': "stepOk (obPolicy o') s'"
    using step(1) a inactive room
    by (auto simp: stepOk_def s'_def stepStateMatchesAttempts_def validStepState_def)
  have fresh': "eaAttemptID a \<notin> set (attemptIDs s)"
    using fresh step(4) a(6) by auto
  have ids': "distinct (attemptIDs s')" "set (attemptIDs s') = insert (eaAttemptID a) (set (attemptIDs s))"
    using step(5) fresh' by (auto simp: attemptIDs_def s'_def)
  have ok: "objectiveOk (revise o' k s' ObjectiveRunning)"
    by (rule revise_ok [OF step(7) kl s_def step(6) rev ok'])
      (use ids' fresh a(6) stateOk_revise(1) [OF kl] in \<open>auto simp: s'_def\<close>)
  have "validProvisionHistory (osProvisioning s) (osProvisioning s)"
    using step(1) by (intro validProvisionHistory_refl) (simp add: stepOk_def provisionsOk_def)
  then have "validateStepTransition (obState o') ObjectiveRunning s s' = None"
    using step(1,2) before a
    by (intro validateStepTransition_None)
      (auto simp: s'_def stepOk_def attemptsTransition_def validStepStateTransition_def validAttemptContinuation_def split: if_splits)
  moreover have "validObjectiveStateTransition (obState o') ObjectiveRunning"
    using objectiveOk_state(2) [OF step(7,4) notdone] live step(7)
    by (cases "obState o'") (auto simp: validObjectiveStateTransition_def terminal_objective_def objectiveOk_def stateOk_def)
  moreover have "liveStep s'"
    using inactive by (auto simp: liveStep_def s'_def activeProvisioning_def)
  then have "\<forall>t \<in> set (obSteps (revise o' k s' ObjectiveRunning)). liveStep t"
    using inv live by (auto simp: objectiveInv_def intro: live_update [THEN bspec])
  ultimately show ?thesis
    using revise_transition [OF step(7) ok live kl] s_def ok unfolding o'' s'_def [symmetric] by (simp add: objectiveInv_def)
qed

subsection \<open>Refining and provisioning\<close>

lemma operationIDs_map: "operationIDs ss = map crOperationID (List.map_filter id (map osAcceptanceReceipt ss))"
  by (simp add: operationIDs_def map_filter_def filter_map comp_def)

lemma stateOk_same:
  assumes "k < length (obSteps o')" and "s = obSteps o' ! k" and "osState s' = osState s" and "osAttempts s' = osAttempts s"
    and "osProvisioning s' = osProvisioning s" and "osAcceptanceContract s' = osAcceptanceContract s"
    and "osAcceptanceReceipt s' = osAcceptanceReceipt s" and "stateOk o'"
  shows "stateOk (revise o' k s' (obState o'))"
proof -
  let ?f = "\<lambda>t. (osState t, osAttempts t, osProvisioning t, osAcceptanceContract t, osAcceptanceReceipt t)"
  let ?ss = "(obSteps o')[k := s']"
  have f: "map ?f ?ss = map ?f (obSteps o')"
    using assms by (simp add: map_update list_update_same_conv)
  then have all: "(\<forall>t \<in> set ?ss. Q (?f t)) = (\<forall>t \<in> set (obSteps o'). Q (?f t))" for Q
    by (metis (mono_tags, lifting) list.pred_map list_all_iff comp_apply list_all_cong)
  have ex: "(\<exists>t \<in> set ?ss. Q (?f t)) = (\<exists>t \<in> set (obSteps o'). Q (?f t))" for Q
    using all [of "\<lambda>x. \<not> Q x"] by blast
  have "map osAcceptanceReceipt ?ss = map osAcceptanceReceipt (obSteps o')"
    using assms(1,2,7) by (simp add: map_update list_update_same_conv)
  then have ops: "operationIDs ?ss = operationIDs (obSteps o')" by (simp only: operationIDs_map)
  have hd: "osAcceptanceContract (hd ?ss) = osAcceptanceContract (hd (obSteps o'))"
    using assms(1,2,6) by (cases "obSteps o'"; cases k) auto
  have act: "activeProvisioning t = (\<lambda>(_, _, ps, _, _). ps \<noteq> [] \<and> (paState (last ps) = ProvisioningPlanned \<or> paState (last ps) = ProvisioningQueued)) (?f t)" for t
    by (simp add: activeProvisioning_def)
  show ?thesis
    using assms(8) all [of "\<lambda>(st, _, _, _, _). st = StepSucceeded"] all [of "\<lambda>(st, as, ps, _, _). st = StepPlanned \<and> as = [] \<and> ps = []"]
      ex [of "\<lambda>(st, _, _, _, _). st = StepFailed"]
      ex [of "\<lambda>(_, as, _, _, _). \<exists>a \<in> set as. eaState a = AttemptFailed \<and> eaFailure a = FailureReconciliationNeeded"]
      all [of "\<lambda>(st, _, ps, _, _). st \<noteq> StepRunning \<and> st \<noteq> StepPlanned \<and>
        \<not> (ps \<noteq> [] \<and> (paState (last ps) = ProvisioningPlanned \<or> paState (last ps) = ProvisioningQueued))"]
    by (cases "obState o'")
      (simp_all add: stateOk_def Let_def ops hd objectiveHasFailureClass_def list_ex_iff activeProvisioning_def)
qed

lemma stepStateMatchesAttempts_cong:
  "osAttempts s = osAttempts t \<Longrightarrow> osState s = osState t \<Longrightarrow> stepStateMatchesAttempts s = stepStateMatchesAttempts t"
  unfolding stepStateMatchesAttempts_def by (erule ssubst)+ (rule refl)

lemma RefineRequirements_ok:
  assumes inv: "objectiveInv o'" and op: "RefineRequirements o' i rs = Inr o''" and rev: "obRevision o' + 1 \<noteq> 0"
  shows "objectiveInv o'' \<and> (o'' = o' \<or> ValidateTransition o' o'' = None)"
proof -
  obtain k where k: "stepIndex o' i = Some k" and live: "\<not> terminal_objective o'"
    using op by (auto simp: RefineRequirements_def split: option.splits if_splits)
  define s where "s = obSteps o' ! k"
  obtain ns where inactive: "\<not> activeProvisioning s" "osAcceptanceContract s = None"
    and ns: "normalizeRequirementList (osRequirements s @ rs) = Inr ns"
    and o'': "o'' = o' \<or> o'' = revise o' k (s\<lparr>osRequirements := ns\<rparr>) (obState o')"
    using op k live by (auto simp: RefineRequirements_def s_def Let_def split: if_splits sum.splits)
  note kl = stepIndex_Some(1) [OF k]
  note step = objectiveInv_step [OF inv live kl s_def]
  define s' where "s' = s\<lparr>osRequirements := ns\<rparr>"
  have ns': "canonicalRequirements ns" "set (osRequirements s) \<subseteq> set ns"
  proof -
    show "canonicalRequirements ns" using normalizeRequirementList_Inr(2) [OF ns] .
    have "reqID ` set ns = reqID ` (set (osRequirements s) \<union> set rs)" using normalizeRequirementList_Inr(1) [OF ns] by (simp add: image_Un)
    moreover have "inj (reqID :: Requirement \<Rightarrow> CapabilityID)" by (rule injI) simp
    ultimately have "set ns = set (osRequirements s) \<union> set rs" by (simp add: inj_image_eq_iff)
    then show "set (osRequirements s) \<subseteq> set ns" by blast
  qed
  have ok': "stepOk (obPolicy o') s'"
    using step(1) inactive ns' stepStateMatchesAttempts_cong [of s' s] activeProvisioning_cong [of s' s]
    by (simp add: stepOk_def s'_def contractOk_def)
  have fields: "osStepID s' = osStepID s" "osAcceptanceContract s' = osAcceptanceContract s"
    "osAcceptanceReceipt s' = osAcceptanceReceipt s" "osState s' = osState s" "osAttempts s' = osAttempts s"
    "osProvisioning s' = osProvisioning s" "attemptIDs s' = attemptIDs s"
    by (simp_all add: s'_def attemptIDs_def)
  have state: "stateOk (revise o' k s' (obState o'))"
    using step(7) by (intro stateOk_same [OF kl s_def fields(4-6,2,3)]) (simp add: objectiveOk_def)
  have ok: "objectiveOk (revise o' k s' (obState o'))"
    by (rule revise_ok [OF step(7) kl s_def step(6) rev ok' fields(1-3) _ _ state]) (use step(5) fields(7) in simp_all)
  have "validProvisionHistory (osProvisioning s) (osProvisioning s)"
    using step(1) by (intro validProvisionHistory_refl) (simp add: stepOk_def provisionsOk_def)
  then have "validateStepTransition (obState o') (obState o') s s' = None"
    using step(1,2) ns' inactive
    by (intro validateStepTransition_None) (simp_all add: fields stepOk_def validStepStateTransition_def s'_def)
  moreover have "liveStep s'"
    using step(3) fields by (simp add: liveStep_def activeProvisioning_def)
  then have "\<forall>t \<in> set (obSteps (revise o' k s' (obState o'))). liveStep t"
    using inv live by (auto simp: objectiveInv_def intro: live_update [THEN bspec])
  ultimately show ?thesis
    using revise_transition [OF step(7) ok live kl] s_def ok o'' inv unfolding s'_def [symmetric]
    by (auto simp: objectiveInv_def validObjectiveStateTransition_def)
qed

lemma PlanProvisioning_ok:
  assumes inv: "objectiveInv o'" and op: "PlanProvisioning o' i pid d plan = Inr o''"
  shows "objectiveInv o'' \<and> ValidateTransition o' o'' = None"
proof -
  obtain k where k: "stepIndex o' i = Some k" and live: "\<not> terminal_objective o'"
    using op by (auto simp: PlanProvisioning_def split: option.splits if_splits)
  define s where "s = obSteps o' ! k"
  obtain p where can: "canPlanProvisioning s" and p: "NewProvisioningAttempt pid d plan = Inr p"
    and o'': "o'' = revise o' k (s\<lparr>osProvisioning := osProvisioning s @ [p]\<rparr>) ObjectiveRunning" and ok: "objectiveOk o''"
    using op k live
    by (auto simp: PlanProvisioning_def s_def Let_def Valid_objective_iff split: if_splits sum.splits)
  note kl = stepIndex_Some(1) [OF k]
  note step = objectiveInv_step [OF inv live kl s_def]
  define s' where "s' = s\<lparr>osProvisioning := osProvisioning s @ [p]\<rparr>"
  have inactive: "\<not> activeProvisioning s" and state: "osState s \<in> {StepPlanned, StepFailed}"
    and failed: "osAttempts s = [] \<or> eaState (last (osAttempts s)) = AttemptFailed"
    using can by (auto simp: canPlanProvisioning_def split: if_splits)
  have planned: "paState p = ProvisioningPlanned"
    using p by (auto simp: NewProvisioningAttempt_def Let_def split: if_splits)
  have "validProvisionHistory (osProvisioning s) (osProvisioning s')"
    using step(1) planned inactive
    by (auto simp: s'_def validProvisionHistory_def provisionHistoryFrom_append stepOk_def provisionsOk_def activeProvisioning_def)
  then have "validateStepTransition (obState o') ObjectiveRunning s s' = None"
    using step(1,2) can
    by (intro validateStepTransition_None) (simp_all add: s'_def stepOk_def validStepStateTransition_def)
  moreover have "validObjectiveStateTransition (obState o') ObjectiveRunning"
    using objectiveOk_state(2) [OF step(7,4)] live step(7) state
    by (cases "obState o'") (auto simp: validObjectiveStateTransition_def terminal_objective_def objectiveOk_def stateOk_def)
  moreover have "liveStep s'"
    using failed state by (auto simp: liveStep_def s'_def)
  then have "\<forall>t \<in> set (obSteps (revise o' k s' ObjectiveRunning)). liveStep t"
    using inv live by (auto simp: objectiveInv_def intro: live_update [THEN bspec])
  ultimately show ?thesis
    using revise_transition [OF step(7) _ live kl] s_def ok unfolding o'' s'_def [symmetric] by (simp add: objectiveInv_def)
qed

lemma advanceProvision_ok:
  assumes inv: "objectiveInv o'" and op: "advanceProvision o' i pid change = Inr o''"
    and change: "\<And>l r. change l = Inr r \<Longrightarrow> activeState_provision r \<Longrightarrow> activeState_provision l"
  shows "objectiveInv o'' \<and> (o'' = o' \<or> ValidateTransition o' o'' = None)"
proof -
  obtain k where k: "stepIndex o' i = Some k" and live: "\<not> terminal_objective o'"
    using op by (auto simp: advanceProvision_def split: option.splits if_splits)
  define s where "s = obSteps o' ! k"
  define l where "l = last (osProvisioning s)"
  obtain p where ne: "osProvisioning s \<noteq> []" and p: "change l = Inr p" and valid: "validProvisionRevision l p"
    and o'': "o'' = o' \<or> o'' = revise o' k (s\<lparr>osProvisioning := replaceLast (osProvisioning s) p\<rparr>) (obState o') \<and> objectiveOk o''"
    using op k live
    by (auto simp: advanceProvision_def s_def l_def Let_def Valid_objective_iff split: if_splits sum.splits)
  note kl = stepIndex_Some(1) [OF k]
  note step = objectiveInv_step [OF inv live kl s_def]
  define s' where "s' = s\<lparr>osProvisioning := replaceLast (osProvisioning s) p\<rparr>"
  have "validProvisionHistory (osProvisioning s) (osProvisioning s')"
    using provisionHistoryFrom_replace [OF ne valid [unfolded l_def]]
    by (simp add: s'_def validProvisionHistory_def replaceLast_eq [OF ne] ne)
  then have "validateStepTransition (obState o') (obState o') s s' = None"
    using step(1,2)
    by (intro validateStepTransition_None) (simp_all add: s'_def stepOk_def validStepStateTransition_def)
  moreover have "liveStep s'"
    using step(3) change [OF p] ne
    by (auto simp: liveStep_def s'_def activeProvisioning_def activeState_provision_def l_def)
  then have "\<forall>t \<in> set (obSteps (revise o' k s' (obState o'))). liveStep t"
    using inv live by (auto simp: objectiveInv_def intro: live_update [THEN bspec])
  ultimately show ?thesis
    using revise_transition [OF step(7) _ live kl] s_def o'' inv unfolding s'_def [symmetric]
    by (auto simp: objectiveInv_def validObjectiveStateTransition_def)
qed

subsection \<open>Acceptance and cancellation\<close>

lemma Accept_ok:
  assumes inv: "objectiveInv o'" and op: "Accept o' = Inr o''" and rev: "obRevision o' + 1 \<noteq> 0"
  shows "objectiveInv o'' \<and> ValidateTransition o' o'' = None"
proof -
  have pending: "obState o' = ObjectiveAcceptancePending" and contract: "osAcceptanceContract (hd (obSteps o')) = None"
    and o'': "o'' = o'\<lparr>obState := ObjectiveAccepted, obRevision := obRevision o' + 1\<rparr>"
    using op by (auto simp: Accept_def split: if_splits)
  have ok: "objectiveOk o'" and live: "\<not> terminal_objective o'" using inv pending by (auto simp: objectiveInv_def terminal_objective_def)
  have none: "\<forall>s \<in> set (obSteps o'). osAcceptanceReceipt s = None"
    using nonterminal_receipts [OF ok] pending by auto
  have ok'': "objectiveOk o''"
    using ok pending contract rev none
    by (auto simp: o'' objectiveOk_def headerOk_def receiptOk_def stateOk_def Let_def)
  have "validateStepTransition (obState o') (obState o'') b a = None" if "(b, a) \<in> set (zip (obSteps o') (obSteps o''))" for b a
  proof -
    have "b = a" "a \<in> set (obSteps o')" using that by (auto simp: o'' set_zip)
    then show ?thesis using ok none by (auto simp: objectiveOk_def intro: validateStepTransition_refl)
  qed
  then have "validateStepTransitions (obState o') (obState o'') (zip (obSteps o') (obSteps o'')) = None"
    unfolding validateStepTransitions_None by blast
  moreover have "terminal_objective o''" by (simp add: o'' terminal_objective_def)
  ultimately show ?thesis
    using ok ok'' live pending
    by (simp add: objectiveInv_def ValidateTransition_def Valid_objective_iff o'' validObjectiveStateTransition_def)
qed

lemma attachReceipts_Inr:
  assumes "attachReceipts o' seen ss rs = Inr ss'" and "length ss = length (obSteps o')"
  shows "length ss' = length ss \<and> (\<forall>j < length ss. \<exists>r. ss' ! j = ss ! j \<or> ss' ! j = (ss ! j)\<lparr>osAcceptanceReceipt := r\<rparr>)"
  using assms
proof (induction rs arbitrary: seen ss)
  case (Cons r rs)
  then obtain k where k: "stepIndex o' (crStepID r) = Some k"
    and rec: "attachReceipts o' (crOperationID r # seen) (ss[k := (ss ! k)\<lparr>osAcceptanceReceipt := Some r\<rparr>]) rs = Inr ss'"
    by (auto split: option.splits if_splits)
  have IH: "length ss' = length ss \<and> (\<forall>j < length ss. \<exists>q. ss' ! j = ss[k := (ss ! k)\<lparr>osAcceptanceReceipt := Some r\<rparr>] ! j \<or>
      ss' ! j = (ss[k := (ss ! k)\<lparr>osAcceptanceReceipt := Some r\<rparr>] ! j)\<lparr>osAcceptanceReceipt := q\<rparr>)"
    using Cons.IH [OF rec] Cons.prems(2) by simp
  show ?case
  proof (intro conjI allI impI)
    fix j assume j: "j < length ss"
    then show "\<exists>r. ss' ! j = ss ! j \<or> ss' ! j = (ss ! j)\<lparr>osAcceptanceReceipt := r\<rparr>"
      using IH by (cases "j = k") (fastforce simp: nth_list_update)+
  qed (use IH in simp)
qed auto

lemma AcceptWithEvidence_ok:
  assumes inv: "objectiveInv o'" and op: "AcceptWithEvidence o' rs = Inr o''"
  shows "objectiveInv o'' \<and> ValidateTransition o' o'' = None"
proof -
  obtain ss where pending: "obState o' = ObjectiveAcceptancePending" and ss: "attachReceipts o' [] (obSteps o') rs = Inr ss"
    and contracted: "osAcceptanceContract (hd (obSteps o')) \<noteq> None" "sameCommandAcceptanceContractMode (obSteps o')"
    and o'': "o'' = o'\<lparr>obSteps := ss, obState := ObjectiveAccepted, obRevision := obRevision o' + 1\<rparr>" and ok'': "objectiveOk o''"
    using op by (auto simp: AcceptWithEvidence_def Let_def Valid_objective_iff split: if_splits sum.splits)
  have ok: "objectiveOk o'" and live: "\<not> terminal_objective o'" using inv pending by (auto simp: objectiveInv_def terminal_objective_def)
  have none: "\<forall>s \<in> set (obSteps o'). osAcceptanceReceipt s = None"
    using nonterminal_receipts [OF ok] pending by auto
  note attach = attachReceipts_Inr [OF ss refl]
  have all: "\<forall>s \<in> set (obSteps o'). osAcceptanceContract s \<noteq> None"
  proof -
    have ne: "obSteps o' \<noteq> []" using ok by (simp add: objectiveOk_def headerOk_def)
    then have "hd (obSteps o') \<in> set (filter (\<lambda>s. osAcceptanceContract s \<noteq> None) (obSteps o'))" using contracted(1) by simp
    then have "length (filter (\<lambda>s. osAcceptanceContract s \<noteq> None) (obSteps o')) \<noteq> 0" by (metis length_0_conv empty_iff empty_set)
    then have "length (filter (\<lambda>s. osAcceptanceContract s \<noteq> None) (obSteps o')) = length (obSteps o')"
      using contracted(2) unfolding sameCommandAcceptanceContractMode_def Let_def by blast
    then have "filter (\<lambda>s. osAcceptanceContract s \<noteq> None) (obSteps o') = obSteps o'"
      by (metis filter_id_conv length_filter_less less_irrefl)
    then show ?thesis unfolding filter_id_conv by blast
  qed
  have "validateStepTransition (obState o') (obState o'') b a = None" if pair: "(b, a) \<in> set (zip (obSteps o') (obSteps o''))" for b a
  proof -
    obtain j where "j < length (obSteps o')" "b = obSteps o' ! j" "a = ss ! j"
      using pair attach by (auto simp: o'' set_zip)
    then obtain r where b: "b \<in> set (obSteps o')" and a: "a = b \<or> a = b\<lparr>osAcceptanceReceipt := r\<rparr>"
      using attach by fastforce
    have refl: "validateStepTransition (obState o') (obState o'') b b = None"
      using ok none b by (auto simp: objectiveOk_def intro: validateStepTransition_refl)
    have same: "osRequirements a = osRequirements b" "osProvisioning a = osProvisioning b" "osStepID a = osStepID b"
      "osAcceptanceContract a = osAcceptanceContract b" "osState a = osState b" "osAttempts a = osAttempts b"
      using a by auto
    have "validAcceptanceReceiptTransition (obState o') (obState o'') b a"
      using none all b pending by (auto simp: validAcceptanceReceiptTransition_def o'' split: option.splits)
    then show ?thesis using refl unfolding validateStepTransition_def same by (auto split: if_splits)
  qed
  then have "validateStepTransitions (obState o') (obState o'') (zip (obSteps o') (obSteps o'')) = None"
    unfolding validateStepTransitions_None by blast
  moreover have "terminal_objective o''" by (simp add: o'' terminal_objective_def)
  ultimately show ?thesis
    using ok ok'' live pending attach
    by (simp add: objectiveInv_def ValidateTransition_def Valid_objective_iff o'' validObjectiveStateTransition_def)
qed
lemma cancelProvisioning_ok:
  assumes op: "cancelProvisioning s = Inr t" and ok: "stepOk p s"
  shows "stepOk p t" and "\<not> activeProvisioning t" and "validProvisionHistory (osProvisioning s) (osProvisioning t)"
    and "length (osProvisioning t) = length (osProvisioning s)" and "attemptIDs t = attemptIDs s"
    and "\<exists>ps. t = s\<lparr>osProvisioning := ps\<rparr>"
proof -
  have valid: "\<forall>q \<in> set (osProvisioning s). Valid_provision q" using ok by (simp add: stepOk_def provisionsOk_def)
  have "stepOk p t \<and> \<not> activeProvisioning t \<and> validProvisionHistory (osProvisioning s) (osProvisioning t) \<and>
    length (osProvisioning t) = length (osProvisioning s) \<and> attemptIDs t = attemptIDs s \<and> (\<exists>ps. t = s\<lparr>osProvisioning := ps\<rparr>)"
  proof (cases "activeProvisioning s")
    case False
    then have t: "t = s" using op by (auto simp: cancelProvisioning_def activeProvisioning_def split: if_splits)
    have "s = s\<lparr>osProvisioning := osProvisioning s\<rparr>" by simp
    with t False ok validProvisionHistory_refl [OF valid] show ?thesis by blast
  next
    case True
    then obtain c where c: "Cancel_provision (last (osProvisioning s)) = Inr c" and ne: "osProvisioning s \<noteq> []"
      and t: "t = s\<lparr>osProvisioning := replaceLast (osProvisioning s) c\<rparr>"
      using op by (auto simp: cancelProvisioning_def activeProvisioning_def split: if_splits sum.splits)
    have rev: "Valid_provision c" "validProvisionRevision (last (osProvisioning s)) c"
      using provisionStep_operations(4) [of "last (osProvisioning s)"] c by (auto simp: provisionStep_def)
    have c': "paState c = ProvisioningCancelled" "paPlan c = paPlan (last (osProvisioning s))"
      "paProvisionID c = paProvisionID (last (osProvisioning s))"
      using c by (auto simp: Cancel_provision_def split: if_splits)
    have l: "last (osProvisioning s) \<in> set (osProvisioning s)" using ne by simp
    have "provisionsOk p (replaceLast (osProvisioning s) c)"
      using ok rev(1) c' l set_replaceLast [OF ne, of c] ne by (fastforce simp: stepOk_def provisionsOk_def)
    moreover have inactive: "\<not> activeProvisioning t" using ne c'(1) by (simp add: activeProvisioning_def t)
    moreover have "contractOk p t" using ok by (simp add: stepOk_def contractOk_def t)
    moreover have "stepStateMatchesAttempts t" using ok stepStateMatchesAttempts_cong [of t s] by (simp add: stepOk_def t)
    ultimately have "stepOk p t" using ok by (simp add: stepOk_def t)
    moreover have "validProvisionHistory (osProvisioning s) (osProvisioning t)"
      using provisionHistoryFrom_replace [OF ne rev(2)]
      by (simp add: t validProvisionHistory_def replaceLast_eq [OF ne] ne)
    moreover have "attemptIDs t = attemptIDs s"
      using map_replaceLast [OF ne, of paProvisionID c] c'(3) by (simp add: attemptIDs_def t)
    ultimately show ?thesis using inactive t by auto
  qed
  then show "stepOk p t" and "\<not> activeProvisioning t" and "validProvisionHistory (osProvisioning s) (osProvisioning t)"
    and "length (osProvisioning t) = length (osProvisioning s)" and "attemptIDs t = attemptIDs s"
    and "\<exists>ps. t = s\<lparr>osProvisioning := ps\<rparr>" by blast+
qed

definition cancelledFrom :: "ResolutionPolicy \<Rightarrow> ObjectiveStep \<Rightarrow> ObjectiveStep \<Rightarrow> bool" where
  "cancelledFrom p s t \<longleftrightarrow>
     stepOk p t \<and> (\<forall>st. validateStepTransition st ObjectiveCancelled s t = None) \<and> attemptIDs t = attemptIDs s \<and>
     osStepID t = osStepID s \<and> osAcceptanceContract t = osAcceptanceContract s \<and> osAcceptanceReceipt t = None \<and>
     osState t \<noteq> StepRunning \<and> osState t \<noteq> StepPlanned \<and> \<not> activeProvisioning t"

lemma cancelStep_ok:
  assumes op: "cancelStep s = Inr t" and ok: "stepOk p s" and live: "liveStep s" and none: "osAcceptanceReceipt s = None"
  shows "cancelledFrom p s t"
proof -
  obtain u where u: "cancelProvisioning s = Inr u" using op by (auto simp: cancelStep_def split: sum.splits)
  note prov = cancelProvisioning_ok [OF u ok]
  then obtain ps where ps: "u = s\<lparr>osProvisioning := ps\<rparr>" by blast
  have same: "osState u = osState s" "osAttempts u = osAttempts s" "osStepID u = osStepID s"
    "osAcceptanceContract u = osAcceptanceContract s" "osAcceptanceReceipt u = osAcceptanceReceipt s"
    "osRequirements u = osRequirements s" by (simp_all add: ps)
  have hist: "validateStepTransition st ObjectiveCancelled s w = None"
    if "w = u \<or> w = u\<lparr>osAttempts := as, osState := StepCancelled\<rparr>" "attemptsTransition (osAttempts s) (osAttempts w)"
      "length (osAttempts w) = length (osAttempts s)" "validStepStateTransition (osState s) (osState w)" for w as st
    using that prov(3,4) none ok same
    by (intro validateStepTransition_None) (auto simp: stepOk_def)
  show ?thesis
  proof (cases "osState s = StepSucceeded \<or> osState s = StepFailed \<or> osState s = StepCancelled")
    case True
    then have t: "t = u" using op u same by (simp add: cancelStep_def)
    have "validateStepTransition st ObjectiveCancelled s u = None" for st
      by (rule hist) (simp_all add: same validStepStateTransition_def)
    then show ?thesis using prov(1,2,5) True same none unfolding cancelledFrom_def t by auto
  next
    case False
    show ?thesis
    proof (cases "osAttempts s = []")
      case True
      then have t: "t = u\<lparr>osState := StepCancelled\<rparr>" using op u same False by (simp add: cancelStep_def)
      have st: "osState s = StepPlanned" using ok True False by (auto simp: stepOk_def stepStateMatchesAttempts_def)
      have "validateStepTransition st' ObjectiveCancelled s t = None" for st'
        by (rule hist [of _ "[]"]) (simp_all add: t same True validStepStateTransition_def st)
      moreover have "stepOk p t"
        using prov(1,2) activeProvisioning_cong [of t u] True same
        by (auto simp: stepOk_def t contractOk_def stepStateMatchesAttempts_def validStepState_def)
      ultimately show ?thesis
        using prov(2,5) same none activeProvisioning_cong [of t u]
        unfolding cancelledFrom_def t by (simp add: attemptIDs_def)
    next
      case ne: False
      let ?l = "last (osAttempts s)"
      obtain a where l: "eaState ?l = AttemptPlanned \<or> eaState ?l = AttemptRunning"
        and a: "Transition ?l AttemptCancelled = Inr a"
        and t: "t = u\<lparr>osAttempts := replaceLast (osAttempts s) a, osState := StepCancelled\<rparr>"
        using op u same False ne by (auto simp: cancelStep_def Let_def split: if_splits sum.splits)
      have a': "a = ?l\<lparr>eaState := AttemptCancelled, eaFailure := NoFailure\<rparr>"
        using Transition_Inr(2) [OF a] l by auto
      have st: "osState s = StepPlanned \<or> osState s = StepRunning"
        using stepOk_attempt(3) [OF ok ne] ne l by (auto simp: stepStateMatchesAttempts_def)
      have revision: "validAttemptRevision ?l a" using l by (auto simp: a' validAttemptRevision_def)
      have "validateStepTransition st' ObjectiveCancelled s t = None" for st'
        by (rule hist [of _ "replaceLast (osAttempts s) a"])
          (use st revision ne in \<open>auto simp: t attemptsTransition_def validStepStateTransition_def\<close>)
      moreover have "t = u\<lparr>osAttempts := replaceLast (osAttempts u) a, osState := StepCancelled\<rparr>"
        "immutablePart a = immutablePart (last (osAttempts u))" "osAttempts u \<noteq> []" using ne by (simp_all add: t same a')
      note adv = stepOk_advance [OF prov(1) this(3,2) _ this(1) disjI1 [OF prov(2)]]
      have "stepOk p t" "attemptIDs t = attemptIDs u"
        using ne by (intro adv; simp add: a' attemptFailureOk_def validStepState_def stepStateMatchesAttempts_def t)+
      ultimately show ?thesis
        using prov(2,5) same none activeProvisioning_cong [of t u] unfolding cancelledFrom_def by (simp add: t)
    qed
  qed
qed

lemma sameMode_map:
  "sameCommandAcceptanceContractMode ss \<longleftrightarrow>
     (let n = length (filter (\<lambda>c. c \<noteq> None) (map osAcceptanceContract ss)) in n = 0 \<or> n = length (map osAcceptanceContract ss))"
  by (simp add: sameCommandAcceptanceContractMode_def filter_map comp_def)

lemma cancelSteps_ok:
  assumes "cancelSteps ss = Inr ts" and "\<forall>s \<in> set ss. stepOk p s \<and> liveStep s \<and> osAcceptanceReceipt s = None"
  shows "list_all2 (cancelledFrom p) ss ts"
  using assms
proof (induction ss arbitrary: ts)
  case (Cons s ss)
  then obtain t us where "cancelStep s = Inr t" "cancelSteps ss = Inr us" "ts = t # us"
    by (auto split: sum.splits)
  with Cons show ?case by (auto intro: cancelStep_ok)
qed simp

lemma Cancel_objective_ok:
  assumes inv: "objectiveInv o'" and op: "Cancel_objective o' = Inr o''" and rev: "obRevision o' + 1 \<noteq> 0"
  shows "objectiveInv o'' \<and> ValidateTransition o' o'' = None"
proof -
  obtain ts where live: "\<not> terminal_objective o'" and ts: "cancelSteps (obSteps o') = Inr ts"
    and o'': "o'' = o'\<lparr>obSteps := ts, obState := ObjectiveCancelled, obRevision := obRevision o' + 1\<rparr>"
    using op by (auto simp: Cancel_objective_def split: if_splits sum.splits)
  have ok: "objectiveOk o'" using inv by (simp add: objectiveInv_def)
  have "\<forall>s \<in> set (obSteps o'). stepOk (obPolicy o') s \<and> liveStep s \<and> osAcceptanceReceipt s = None"
    using inv live nonterminal_receipts [OF ok] by (auto simp: objectiveInv_def objectiveOk_def terminal_objective_def)
  note rel = cancelSteps_ok [OF ts this]
  have rel': "list_all2 (\<lambda>s t. osStepID t = osStepID s \<and> attemptIDs t = attemptIDs s \<and>
      osAcceptanceContract t = osAcceptanceContract s) (obSteps o') ts"
    by (rule list_all2_mono [OF rel]) (auto simp: cancelledFrom_def)
  have len: "length ts = length (obSteps o')" using rel by (simp add: list_all2_lengthD)
  have maps: "map osStepID ts = map osStepID (obSteps o')" "map attemptIDs ts = map attemptIDs (obSteps o')"
    "map osAcceptanceContract ts = map osAcceptanceContract (obSteps o')"
    using rel' by (auto simp: list_all2_conv_all_nth intro!: nth_equalityI)
  have mode: "sameCommandAcceptanceContractMode ts = sameCommandAcceptanceContractMode (obSteps o')"
    using maps(3) by (simp only: sameMode_map)
  have mem: "\<forall>t \<in> set ts. \<exists>s. cancelledFrom (obPolicy o') s t"
    using rel by (auto simp: list_all2_conv_all_nth in_set_conv_nth) metis
  then have ops: "operationIDs ts = []" by (intro operationIDs_none) (auto simp: cancelledFrom_def)
  have ok'': "objectiveOk o''"
    using ok rev mode maps(1,2) mem ops len
    by (auto simp: o'' objectiveOk_def headerOk_def receiptOk_def stateOk_def cancelledFrom_def)
  have "\<forall>(b, a) \<in> set (zip (obSteps o') ts). validateStepTransition (obState o') ObjectiveCancelled b a = None"
    using rel by (auto simp: list_all2_iff cancelledFrom_def)
  then have "validateStepTransitions (obState o') (obState o'') (zip (obSteps o') (obSteps o'')) = None"
    unfolding validateStepTransitions_None by (simp add: o'')
  moreover have "validObjectiveStateTransition (obState o') ObjectiveCancelled"
    using live ok by (cases "obState o'") (auto simp: validObjectiveStateTransition_def terminal_objective_def objectiveOk_def stateOk_def)
  moreover have "terminal_objective o''" by (simp add: o'' terminal_objective_def)
  ultimately show ?thesis
    using ok ok'' live len by (simp add: objectiveInv_def ValidateTransition_def Valid_objective_iff o'')
qed

subsection \<open>New objectives\<close>

lemma newSteps_Inr:
  assumes "newSteps policy seen specs = Inr ss"
  shows "distinct (map osStepID ss) \<and> set (map osStepID ss) \<inter> set seen = {} \<and> length ss = length specs \<and>
    (\<forall>s \<in> set ss. identityPattern (osStepID s) \<and> canonicalRequirements (osRequirements s) \<and> osAttempts s = [] \<and>
       osProvisioning s = [] \<and> osState s = StepPlanned \<and> osAcceptanceReceipt s = None \<and>
       (\<forall>c. osAcceptanceContract s = Some c \<longrightarrow> validFor_contract c policy (osRequirements s)))"
  using assms
proof (induction specs arbitrary: seen ss)
  case (Cons spec specs)
  let ?i = "TrimSpace (spStepID spec)"
  obtain rs ts where i: "identityPattern ?i" "?i \<notin> set seen" and rs: "normalizeRequirementList (spRequirements spec) = Inr rs"
    and c: "\<And>c. spAcceptanceContract spec = Some c \<Longrightarrow> validFor_contract c policy rs"
    and ts: "newSteps policy (?i # seen) specs = Inr ts"
    and ss: "ss = \<lparr>osStepID = ?i, osRequirements = rs, osAcceptanceContract = spAcceptanceContract spec,
      osAcceptanceReceipt = None, osAttempts = [], osProvisioning = [], osState = StepPlanned\<rparr> # ts"
    using Cons.prems by (auto simp: Let_def split: if_splits sum.splits option.splits)
  show ?case
    using Cons.IH [OF ts] i c normalizeRequirementList_Inr(2) [OF rs] by (auto simp: ss)
qed auto

lemma NewObjective_ok:
  assumes "NewObjective i p specs = Inr o'"
  shows "objectiveInv o'" and "obScope o' = zeroScope" and "obRevision o' = 1"
proof -
  obtain ss where i: "identityPattern (TrimSpace i)" and p: "valid_policy p" and len: "specs \<noteq> []" "length specs \<le> MaxObjectiveSteps"
    and ss: "newSteps p [] specs = Inr ss" and mode: "sameCommandAcceptanceContractMode ss"
    and o': "o' = \<lparr>obVersion = ObjectiveVersion, obObjectiveID = TrimSpace i, obRevision = 1, obState = ObjectivePlanned,
      obScope = zeroScope, obPolicy = p, obSteps = ss\<rparr>"
    using assms by (auto simp: NewObjective_def Let_def split: if_splits sum.splits)
  note new = newSteps_Inr [OF ss]
  have step: "\<forall>s \<in> set ss. stepOk p s"
  proof
    fix s assume "s \<in> set ss"
    with new show "stepOk p s"
      by (auto simp: stepOk_def attemptsOk_def contractOk_def provisionsOk_def activeProvisioning_def
          stepStateMatchesAttempts_def validStepState_def)
  qed
  have "concat (map attemptIDs ss) = []" using new by (auto simp: attemptIDs_def)
  then have "distinct (concat (map attemptIDs ss))" by (simp only: distinct.simps)
  moreover have "operationIDs ss = []" using new by (intro operationIDs_none) auto
  ultimately have "objectiveOk o'"
    using new step i p len mode
    by (auto simp: o' objectiveOk_def headerOk_def validOrEmpty_def receiptOk_def stateOk_def)
  moreover have "\<forall>s \<in> set ss. liveStep s" using new by (auto simp: liveStep_def)
  ultimately show "objectiveInv o'" by (simp add: objectiveInv_def o')
  show "obScope o' = zeroScope" "obRevision o' = 1" by (simp_all add: o')
qed

lemma stateOk_scope [simp]: "stateOk (o'\<lparr>obScope := x\<rparr>) = stateOk o'"
  by (cases "obState o'") (simp_all add: stateOk_def Let_def objectiveHasFailureClass_def)

lemma NewScopedObjective_ok:
  assumes "NewScopedObjective i scope p specs = Inr o'"
  shows "objectiveInv o'" and "obScope o' = scope" and "obRevision o' = 1"
proof -
  obtain o1 where o1: "NewObjective i p specs = Inr o1" and b: "Bound scope" and o': "o' = o1\<lparr>obScope := scope\<rparr>"
    using assms by (auto simp: NewScopedObjective_def split: if_splits sum.splits)
  show "objectiveInv o'"
    using NewObjective_ok(1) [OF o1] b
    by (simp add: o' objectiveInv_def objectiveOk_def headerOk_def validOrEmpty_def terminal_objective_def)
  show "obScope o' = scope" "obRevision o' = 1" using NewObjective_ok(3) [OF o1] by (simp_all add: o')
qed

subsection \<open>The objective as a transition system\<close>

text \<open>
  The operations on an objective, each with its arguments, and the effect of one of them:
  an error or the next objective.
\<close>

definition newObjective :: "Objective \<Rightarrow> bool" where
  "newObjective o' \<longleftrightarrow>
     (\<exists>i p specs. NewObjective i p specs = Inr o' \<or> (\<exists>scope. NewScopedObjective i scope p specs = Inr o'))"

datatype objectiveOp =
    OpRefineRequirements string "Requirement list"
  | OpPlanAttempt string string string "EnvironmentAttestation list"
  | OpStartAttempt string
  | OpRejectAttempt string FailureClass
  | OpFailAttempt string FailureClass
  | OpCompleteAttempt string
  | OpAccept
  | OpAcceptWithEvidence "CommandAcceptanceReceipt list"
  | OpCancel
  | OpPlanProvisioning string string string ProvisionPlan
  | OpBindProvisionJob string string string
  | OpBindProvisionFence string string uint64
  | OpCompleteProvision string string string
  | OpFailProvision string string FailureClass

fun runOperation :: "objectiveOp \<Rightarrow> Objective \<Rightarrow> devError + Objective" where
  "runOperation (OpRefineRequirements i rs) o' = RefineRequirements o' i rs"
| "runOperation (OpPlanAttempt i aid d cs) o' = map_sum id fst (PlanAttempt o' i aid d cs)"
| "runOperation (OpStartAttempt i) o' = StartAttempt o' i"
| "runOperation (OpRejectAttempt i cls) o' = map_sum id fst (RejectAttempt o' i cls)"
| "runOperation (OpFailAttempt i cls) o' = map_sum id fst (FailAttempt o' i cls)"
| "runOperation (OpCompleteAttempt i) o' = CompleteAttempt o' i"
| "runOperation OpAccept o' = Accept o'"
| "runOperation (OpAcceptWithEvidence receipts) o' = AcceptWithEvidence o' receipts"
| "runOperation OpCancel o' = Cancel_objective o'"
| "runOperation (OpPlanProvisioning i pid d plan) o' = PlanProvisioning o' i pid d plan"
| "runOperation (OpBindProvisionJob i pid job) o' = BindProvisionJob o' i pid job"
| "runOperation (OpBindProvisionFence i pid fence) o' = BindProvisionFence o' i pid fence"
| "runOperation (OpCompleteProvision i pid d) o' = CompleteProvision o' i pid d"
| "runOperation (OpFailProvision i pid cls) o' = FailProvision o' i pid cls"

text \<open>
  The life of a stored objective: a new one and then any operations with any arguments,
  whose result is kept when it is the stored objective itself or a revision that the
  transition check accepts, as \<open>SaveDevelopmentObjective\<close> does. What is refused leaves the
  stored objective as it was.
\<close>

inductive storedStep :: "Objective \<Rightarrow> Objective \<Rightarrow> bool" where
  saved: "runOperation op o' = Inr o'' \<Longrightarrow> o'' = o' \<or> ValidateTransition o' o'' = None \<Longrightarrow> storedStep o' o''"

text \<open>
  \<open>PlanAttempt\<close> does not compare the identifier it is given with those of the attempts
  and provisionings already recorded.
\<close>

fun reusesAttemptID :: "objectiveOp \<Rightarrow> Objective \<Rightarrow> bool" where
  "reusesAttemptID (OpPlanAttempt i aid d cs) o' = (TrimSpace aid \<in> set (concat (map attemptIDs (obSteps o'))))"
| "reusesAttemptID op o' = False"

lemma map_sum_Inr: "map_sum id fst x = Inr y \<longleftrightarrow> (\<exists>z. x = Inr (y, z))"
  by (cases x) auto

lemma provision_changes:
  "BindJob l j = Inr r \<Longrightarrow> activeState_provision r \<Longrightarrow> activeState_provision l"
  "BindFence l n = Inr r \<Longrightarrow> activeState_provision r \<Longrightarrow> activeState_provision l"
  "Succeed l d = Inr r \<Longrightarrow> activeState_provision r \<Longrightarrow> activeState_provision l"
  "Fail_provision l cls = Inr r \<Longrightarrow> activeState_provision r \<Longrightarrow> activeState_provision l"
  by (auto simp: BindJob_def BindFence_def Succeed_def Fail_provision_def activeState_provision_def Let_def split: if_splits)

lemma runOperation_ok:
  assumes inv: "objectiveInv o'" and op: "runOperation op o' = Inr o''" and rev: "obRevision o' + 1 \<noteq> 0"
    and fresh: "\<not> reusesAttemptID op o'"
  shows "objectiveInv o'' \<and> (o'' = o' \<or> ValidateTransition o' o'' = None)"
proof (cases op)
  case (OpRefineRequirements i rs)
  show ?thesis using RefineRequirements_ok [OF inv _ rev] op by (simp add: OpRefineRequirements)
next
  case (OpPlanAttempt i aid d cs)
  then obtain res where "PlanAttempt o' i aid d cs = Inr (o'', res)" using op by (auto simp: map_sum_Inr)
  from PlanAttempt_ok [OF inv this rev] fresh show ?thesis by (simp add: OpPlanAttempt)
next
  case (OpStartAttempt i)
  show ?thesis using StartAttempt_ok [OF inv _ rev] op by (simp add: OpStartAttempt)
next
  case (OpRejectAttempt i cls)
  show ?thesis using RejectAttempt_ok [OF inv _ rev] op by (auto simp: OpRejectAttempt map_sum_Inr)
next
  case (OpFailAttempt i cls)
  show ?thesis using FailAttempt_ok [OF inv _ rev] op by (auto simp: OpFailAttempt map_sum_Inr)
next
  case (OpCompleteAttempt i)
  show ?thesis using CompleteAttempt_ok [OF inv _ rev] op by (simp add: OpCompleteAttempt)
next
  case OpAccept
  show ?thesis using Accept_ok [OF inv _ rev] op by (simp add: OpAccept)
next
  case (OpAcceptWithEvidence receipts)
  show ?thesis using AcceptWithEvidence_ok [OF inv] op by (simp add: OpAcceptWithEvidence)
next
  case OpCancel
  show ?thesis using Cancel_objective_ok [OF inv _ rev] op by (simp add: OpCancel)
next
  case (OpPlanProvisioning i pid d plan)
  show ?thesis using PlanProvisioning_ok [OF inv] op by (simp add: OpPlanProvisioning)
next
  case (OpBindProvisionJob i pid job)
  show ?thesis using advanceProvision_ok [OF inv _ provision_changes(1)] op
    by (simp add: OpBindProvisionJob BindProvisionJob_def)
next
  case (OpBindProvisionFence i pid fence)
  show ?thesis using advanceProvision_ok [OF inv _ provision_changes(2)] op
    by (simp add: OpBindProvisionFence BindProvisionFence_def)
next
  case (OpCompleteProvision i pid d)
  show ?thesis using advanceProvision_ok [OF inv _ provision_changes(3)] op
    by (simp add: OpCompleteProvision CompleteProvision_def)
next
  case (OpFailProvision i pid cls)
  show ?thesis using advanceProvision_ok [OF inv _ provision_changes(4)] op
    by (simp add: OpFailProvision FailProvision_def)
qed

lemma concat_update_repeats:
  assumes "k < length xs" and "v \<in> set (f y)" and "v \<in> set (f (xs ! k)) \<Longrightarrow> \<not> distinct (f y)"
    and "v \<in> set (concat (map f xs))"
  shows "\<not> distinct (concat (map f (xs[k := y])))"
  using assms
proof (induction xs arbitrary: k)
  case (Cons x xs)
  show ?case
  proof (cases k)
    case 0
    with Cons.prems show ?thesis by auto
  next
    case (Suc j)
    have "v \<in> set (concat (map f (xs[j := y])))"
      using Cons.prems(1,2) Suc set_update_memI [of j xs y] by auto
    then show ?thesis using Cons.IH [of j] Cons.prems Suc by auto
  qed
qed simp

lemma PlanAttempt_reused:
  assumes inv: "objectiveInv o'" and op: "PlanAttempt o' i aid d cs = Inr (o'', res)"
    and reused: "TrimSpace aid \<in> set (concat (map attemptIDs (obSteps o')))"
  shows "\<not> Valid_objective o''"
proof -
  obtain k s a where k: "stepIndex o' i = Some k" and live: "\<not> terminal_objective o'" and s: "s = obSteps o' ! k"
    and plan: "planStep s aid d cs (obPolicy o') = Inr (a, res)"
    and o'': "o'' = revise o' k (s\<lparr>osAttempts := osAttempts s @ [a], osState := StepPlanned\<rparr>) ObjectiveRunning"
    using op by (rule PlanAttempt_Inr)
  note kl = stepIndex_Some(1) [OF k]
  note step = objectiveInv_step [OF inv live kl s]
  have "eaAttemptID a = TrimSpace aid"
    using planStep_Inr(6) [OF plan] step(1,7) last_in_set [of "osAttempts s"]
    by (auto simp: stepOk_def attemptsOk_def objectiveOk_def headerOk_def)
  then have "\<not> distinct (concat (map attemptIDs (obSteps o'')))"
    unfolding o'' revise_simps by (intro concat_update_repeats [OF kl _ _ reused]) (auto simp: attemptIDs_def s)
  then show ?thesis by (auto simp: Valid_objective_iff objectiveOk_def)
qed

lemma runOperation_accepted_iff:
  assumes inv: "objectiveInv o'" and op: "runOperation op o' = Inr o''" and changed: "o'' \<noteq> o'"
  shows "ValidateTransition o' o'' = None \<longleftrightarrow> obRevision o' + 1 \<noteq> 0 \<and> \<not> reusesAttemptID op o'"
proof
  assume accepted: "ValidateTransition o' o'' = None"
  then have valid: "Valid_objective o''" and rev: "obRevision o'' = obRevision o' + 1"
    by (auto simp: ValidateTransition_def split: if_splits)
  have "\<not> reusesAttemptID op o'"
  proof
    assume reuse: "reusesAttemptID op o'"
    then obtain i aid d cs where "op = OpPlanAttempt i aid d cs" "TrimSpace aid \<in> set (concat (map attemptIDs (obSteps o')))"
      by (cases op) auto
    moreover from this op obtain res where "PlanAttempt o' i aid d cs = Inr (o'', res)" by (auto simp: map_sum_Inr)
    ultimately show False using PlanAttempt_reused [OF inv] valid by blast
  qed
  then show "obRevision o' + 1 \<noteq> 0 \<and> \<not> reusesAttemptID op o'"
    using valid rev by (auto simp: Valid_objective_iff objectiveOk_def headerOk_def)
qed (use runOperation_ok [OF inv op] changed in blast)

interpretation objectives: invariant_system newObjective storedStep objectiveInv
proof
  show "objectiveInv o'" if "newObjective o'" for o'
    using that NewObjective_ok(1) NewScopedObjective_ok(1) unfolding newObjective_def by blast
  show "objectiveInv t" if "storedStep s t" "objectiveInv s" for s t
    using that(1)
  proof cases
    case (saved op)
    then show ?thesis using runOperation_ok [OF that(2) saved(1)] runOperation_accepted_iff [OF that(2) saved(1)] that(2) by blast
  qed
qed

subsection \<open>What no transition rewrites\<close>

definition settledState :: "AttemptState \<Rightarrow> bool" where
  "settledState st \<longleftrightarrow> st = AttemptSucceeded \<or> st = AttemptFailed \<or> st = AttemptCancelled"

definition attemptLe :: "ExecutionAttempt \<Rightarrow> ExecutionAttempt \<Rightarrow> bool" where
  "attemptLe a b \<longleftrightarrow> immutablePart a = immutablePart b \<and> (settledState (eaState a) \<longrightarrow> b = a)"

definition historyLe :: "('a \<Rightarrow> 'a \<Rightarrow> bool) \<Rightarrow> 'a list \<Rightarrow> 'a list \<Rightarrow> bool" where
  "historyLe le xs ys \<longleftrightarrow> length xs \<le> length ys \<and> (\<forall>j < length xs. le (xs ! j) (ys ! j))"

definition provisionLe :: "ProvisioningAttempt \<Rightarrow> ProvisioningAttempt \<Rightarrow> bool" where
  "provisionLe p q \<longleftrightarrow> paProvisionID p = paProvisionID q \<and> paSourceDigest p = paSourceDigest q \<and>
     ppDigest (paPlan p) = ppDigest (paPlan q) \<and> paJobFence p \<le> paJobFence q \<and> (paJobID p = [] \<or> paJobID p = paJobID q)"

definition stepLe :: "ObjectiveStep \<Rightarrow> ObjectiveStep \<Rightarrow> bool" where
  "stepLe s t \<longleftrightarrow> osStepID s = osStepID t \<and> osAcceptanceContract s = osAcceptanceContract t \<and>
     set (osRequirements s) \<subseteq> set (osRequirements t) \<and> historyLe attemptLe (osAttempts s) (osAttempts t) \<and>
     historyLe provisionLe (osProvisioning s) (osProvisioning t)"

definition objectiveLe :: "Objective \<Rightarrow> Objective \<Rightarrow> bool" where
  "objectiveLe o' p \<longleftrightarrow> obObjectiveID o' = obObjectiveID p \<and> obVersion o' = obVersion p \<and> obScope o' = obScope p \<and>
     obPolicy o' = obPolicy p \<and> list_all2 stepLe (obSteps o') (obSteps p)"

lemma historyLe_refl: "(\<And>x. le x x) \<Longrightarrow> historyLe le xs xs"
  by (simp add: historyLe_def)

lemma historyLe_trans:
  assumes "\<And>x y z. le x y \<Longrightarrow> le y z \<Longrightarrow> le x z" and "historyLe le xs ys" and "historyLe le ys zs"
  shows "historyLe le xs zs"
proof -
  have "le (xs ! j) (zs ! j)" if "j < length xs" for j
    using assms(2,3) that by (intro assms(1) [of "xs ! j" "ys ! j" "zs ! j"]) (auto simp: historyLe_def)
  with assms(2,3) show ?thesis by (auto simp: historyLe_def)
qed

lemma attemptLe_trans: "attemptLe a b \<Longrightarrow> attemptLe b c \<Longrightarrow> attemptLe a c"
  by (auto simp: attemptLe_def)

lemma provisionLe_trans: "provisionLe a b \<Longrightarrow> provisionLe b c \<Longrightarrow> provisionLe a c"
  by (auto simp: provisionLe_def)

lemma stepLe_trans:
  assumes "stepLe a b" and "stepLe b c"
  shows "stepLe a c"
proof -
  have "historyLe attemptLe (osAttempts a) (osAttempts c)"
    by (rule historyLe_trans [of attemptLe _ "osAttempts b", OF attemptLe_trans]) (use assms in \<open>auto simp: stepLe_def\<close>)
  moreover have "historyLe provisionLe (osProvisioning a) (osProvisioning c)"
    by (rule historyLe_trans [of provisionLe _ "osProvisioning b", OF provisionLe_trans]) (use assms in \<open>auto simp: stepLe_def\<close>)
  ultimately show ?thesis using assms by (auto simp: stepLe_def)
qed

lemma objectiveLe_refl: "objectiveLe o' o'"
  by (auto simp: objectiveLe_def stepLe_def attemptLe_def provisionLe_def intro!: list_all2_refl historyLe_refl)

lemma objectiveLe_trans: "objectiveLe a b \<Longrightarrow> objectiveLe b c \<Longrightarrow> objectiveLe a c"
  by (auto simp: objectiveLe_def intro: list_all2_trans [of stepLe stepLe stepLe, OF stepLe_trans])

lemma validAttemptRevision_le: "validAttemptRevision a b \<Longrightarrow> attemptLe a b"
proof -
  assume rev: "validAttemptRevision a b"
  then have imm: "immutablePart a = immutablePart b" by (auto simp: validAttemptRevision_def split: if_splits)
  have "b = a" if "settledState (eaState a)"
  proof -
    have same: "eaState a = eaState b" "eaFailure a = eaFailure b"
      using rev that by (auto simp: validAttemptRevision_def settledState_def split: if_splits)
    have "(immutablePart x)\<lparr>eaState := eaState x, eaFailure := eaFailure x\<rparr> = x" for x by (simp add: immutablePart_def)
    then show ?thesis using imm same by metis
  qed
  then show ?thesis using imm by (simp add: attemptLe_def)
qed

lemma attemptsTransition_le:
  assumes "attemptsTransition as bs" and "length bs \<in> {length as, length as + 1}"
  shows "historyLe attemptLe as bs"
proof (cases "length bs = length as + 1")
  case True
  then have take: "take (length as) bs = as" using assms(1) by (auto simp: attemptsTransition_def split: if_splits)
  have "as ! j = bs ! j" if "j < length as" for j
    using that take by (metis nth_take)
  then show ?thesis using True by (simp add: historyLe_def attemptLe_def)
next
  case False
  then have len: "length bs = length as" using assms(2) by simp
  have "attemptLe (as ! j) (bs ! j)" if j: "j < length as" for j
  proof -
    have *: "butlast as = butlast bs" "validAttemptRevision (last as) (last bs)"
      using assms(1) len j by (auto simp: attemptsTransition_def split: if_splits)
    show ?thesis
    proof (cases "j = length as - 1")
      case True
      have "as \<noteq> []" "bs \<noteq> []" using j len by auto
      then have "as ! j = last as" "bs ! j = last bs" using True len by (simp_all add: last_conv_nth)
      then show ?thesis using validAttemptRevision_le [OF *(2)] by simp
    next
      case False
      then have "as ! j = butlast as ! j" "bs ! j = butlast bs ! j" using j len by (simp_all add: nth_butlast)
      then show ?thesis using *(1) by (simp add: attemptLe_def)
    qed
  qed
  then show ?thesis using len by (simp add: historyLe_def)
qed

lemma provision_le:
  "sameProvisionAttempt p q \<Longrightarrow> provisionLe p q" "validProvisionRevision p q \<Longrightarrow> provisionLe p q"
  by (auto simp: sameProvisionAttempt_def provisionLe_def validProvisionRevision_def Valid_provision_def
      split: if_splits)

lemma provisionHistoryFrom_le: "provisionHistoryFrom b ps qs \<Longrightarrow> length ps \<le> length qs \<Longrightarrow> historyLe provisionLe ps qs"
proof (induction b ps qs rule: provisionHistoryFrom.induct)
  case (3 b p ps q qs)
  then have "provisionLe p q" and "historyLe provisionLe ps qs" by (auto intro: provision_le split: if_splits)
  then show ?case by (auto simp: historyLe_def nth_Cons split: nat.splits)
qed (auto simp: historyLe_def)

lemma validateStepTransition_le:
  assumes "validateStepTransition x y s t = None"
  shows "stepLe s t"
proof -
  have hist: "validProvisionHistory (osProvisioning s) (osProvisioning t)" and "osStepID s = osStepID t"
    "osAcceptanceContract s = osAcceptanceContract t" "requirementsSubset (osRequirements s) (osRequirements t)"
    "length (osAttempts t) \<in> {length (osAttempts s), length (osAttempts s) + 1}"
    "attemptsTransition (osAttempts s) (osAttempts t)"
    using assms by (auto simp: validateStepTransition_def split: if_splits)
  moreover have "historyLe provisionLe (osProvisioning s) (osProvisioning t)"
    using hist by (intro provisionHistoryFrom_le) (auto simp: validProvisionHistory_def split: if_splits)
  ultimately show ?thesis
    using attemptsTransition_le requirementsSubset_subset by (simp add: stepLe_def)
qed

lemma ValidateTransition_le:
  assumes "ValidateTransition o' p = None"
  shows "objectiveLe o' p"
proof -
  have "length (obSteps o') = length (obSteps p)" and "obPolicy o' = obPolicy p" and "obScope o' = obScope p"
    "obObjectiveID o' = obObjectiveID p" "obVersion o' = obVersion p"
    "validateStepTransitions (obState o') (obState p) (zip (obSteps o') (obSteps p)) = None"
    using assms by (auto simp: ValidateTransition_def split: if_splits)
  then show ?thesis
    using validateStepTransition_le
    unfolding objectiveLe_def validateStepTransitions_None by (auto simp: list_all2_iff)
qed

interpretation revisions: monotone_system Valid_objective "\<lambda>o' p. ValidateTransition o' p = None" Valid_objective objectiveLe
proof
  show "Valid_objective p" if "ValidateTransition o' p = None" for o' p
    using that by (auto simp: ValidateTransition_def split: if_splits)
  show "objectiveLe o' p" if "objectiveLe o' q" "objectiveLe q p" for o' p q
    using that by (rule objectiveLe_trans)
qed (simp_all add: objectiveLe_refl ValidateTransition_le)

lemma contractMode_all:
  assumes "sameCommandAcceptanceContractMode ss" and "s \<in> set ss" and "osAcceptanceContract s \<noteq> None" and "t \<in> set ss"
  shows "osAcceptanceContract t \<noteq> None"
proof -
  have "s \<in> set (filter (\<lambda>s. osAcceptanceContract s \<noteq> None) ss)" using assms(2,3) by simp
  then have "length (filter (\<lambda>s. osAcceptanceContract s \<noteq> None) ss) \<noteq> 0" by (metis length_0_conv empty_iff empty_set)
  then have "length (filter (\<lambda>s. osAcceptanceContract s \<noteq> None) ss) = length ss"
    using assms(1) unfolding sameCommandAcceptanceContractMode_def Let_def by blast
  then have "filter (\<lambda>s. osAcceptanceContract s \<noteq> None) ss = ss"
    by (metis filter_id_conv length_filter_less less_irrefl)
  then show ?thesis using assms(4) unfolding filter_id_conv by blast
qed

lemma operationIDs_le: "length (operationIDs ss) \<le> length ss"
  by (induction ss) (auto split: option.splits)

lemma operationIDs_full: "length (operationIDs ss) = length ss \<Longrightarrow> \<forall>t \<in> set ss. osAcceptanceReceipt t \<noteq> None"
proof (induction ss)
  case (Cons s ss)
  then show ?case using operationIDs_le [of ss] by (auto split: option.splits)
qed simp

subsection \<open>Properties\<close>

text \<open>
  C4: what the durable store keeps of the operations. In every objective that operations
  and saving can produce from a new one, the snapshot is valid. An operation that succeeds
  on it changes nothing, or it leads to a revision that \<open>ValidateTransition\<close> accepts, with
  two exceptions, in which the check refuses it: the revision counter, 64 bits wide, is at
  its end, or \<open>PlanAttempt\<close> was given an identifier that an attempt or a
  provisioning of the objective already has, which it does not look for.
\<close>

theorem objective_operations_accepted:
  assumes "reach newObjective storedStep o'" and "runOperation op o' = Inr o''"
  shows "Valid_objective o' \<and>
    (o'' = o' \<or> (ValidateTransition o' o'' = None \<longleftrightarrow> obRevision o' + 1 \<noteq> 0 \<and> \<not> reusesAttemptID op o'))"
  using runOperation_accepted_iff [OF objectives.reach_inv [OF assms(1)] assms(2)] objectives.reach_inv [OF assms(1)]
  by (auto simp: objectiveInv_def Valid_objective_iff)

text \<open>
  C5: accepted revisions never rewrite history. Along any sequence of revisions each of
  which the transition check accepts, the identifier, version, scope and authority policy of
  the objective stay the same, and so do the number of its steps and, in each, the identifier
  and the acceptance contract. Requirements are only added. The attempts recorded at the
  start are still there in their places, with the same source and environment, and
  unchanged altogether once they have succeeded, failed or been cancelled. The provisioning
  attempts recorded at the start are there in their places as well, for the same source and
  plan digest, with the job once one is bound, and with a fence that never decreases.
\<close>

theorem objective_history_immutable:
  assumes "Valid_objective o'" and "(\<lambda>a b. ValidateTransition a b = None)\<^sup>*\<^sup>* o' p"
  shows "obObjectiveID p = obObjectiveID o' \<and> obVersion p = obVersion o' \<and> obScope p = obScope o' \<and> obPolicy p = obPolicy o' \<and>
    length (obSteps p) = length (obSteps o') \<and>
    (\<forall>k < length (obSteps o').
       osStepID (obSteps p ! k) = osStepID (obSteps o' ! k) \<and>
       osAcceptanceContract (obSteps p ! k) = osAcceptanceContract (obSteps o' ! k) \<and>
       set (osRequirements (obSteps o' ! k)) \<subseteq> set (osRequirements (obSteps p ! k)) \<and>
       (\<forall>j < length (osAttempts (obSteps o' ! k)).
          j < length (osAttempts (obSteps p ! k)) \<and>
          attemptLe (osAttempts (obSteps o' ! k) ! j) (osAttempts (obSteps p ! k) ! j)) \<and>
       (\<forall>j < length (osProvisioning (obSteps o' ! k)).
          j < length (osProvisioning (obSteps p ! k)) \<and>
          provisionLe (osProvisioning (obSteps o' ! k) ! j) (osProvisioning (obSteps p ! k) ! j)))"
proof -
  have le: "objectiveLe o' p" by (rule revisions.run_le [OF assms(2,1)])
  have "stepLe (obSteps o' ! k) (obSteps p ! k)" if "k < length (obSteps o')" for k
    using le that by (simp add: objectiveLe_def list_all2_conv_all_nth)
  then show ?thesis
    using le by (force simp: objectiveLe_def stepLe_def historyLe_def dest: list_all2_lengthD)
qed

text \<open>
  C6: execution stays inside the authority the objective was created with. Whatever
  accepted revisions follow, every attempt of every step runs in a class that the policy
  of the first revision allows, and at most at its authority tier.
\<close>

theorem objective_authority_bounded:
  assumes "Valid_objective o'" and "(\<lambda>a b. ValidateTransition a b = None)\<^sup>*\<^sup>* o' p"
    and "s \<in> set (obSteps p)" and "a \<in> set (osAttempts s)"
  shows "eaClass a \<in> set (rpAllowed (obPolicy o')) \<and> Tier (eaClass a) = Some (eaTier a) \<and>
    eaTier a \<le> rpMaxTier (obPolicy o')"
proof -
  have p: "objectiveOk p" using revisions.run_inv [OF assms(2,1)] by (simp add: Valid_objective_iff)
  have policy: "obPolicy p = obPolicy o'" using revisions.run_le [OF assms(2,1)] by (simp add: objectiveLe_def)
  have v: "valid_policy (obPolicy o')" and ok: "stepOk (obPolicy o') s"
    using p assms(3) unfolding policy [symmetric] by (auto simp: objectiveOk_def headerOk_def)
  have "AllowsClass (obPolicy o') (eaClass a)" "validIdentity a"
    using ok assms(4) by (auto simp: stepOk_def attemptsOk_def)
  then show ?thesis
    by (auto simp: AllowsClass_iff [OF v] validIdentity_def dest!: valid_policy_allowed(2) [OF v])
qed

text \<open>
  C7: an accepted objective has succeeded and carries its evidence. In a valid accepted
  objective the last attempt of every step succeeded; if the objective has command
  contracts, every step has a receipt with exit code 0 for exactly that attempt, bound to
  the contract, source and environment of the step, and no two receipts name the same
  operation.
\<close>

theorem objective_accepted_evidence:
  assumes "Valid_objective o'" and "obState o' = ObjectiveAccepted"
  shows "(\<forall>s \<in> set (obSteps o'). osAttempts s \<noteq> [] \<and> eaState (last (osAttempts s)) = AttemptSucceeded \<and>
      (\<forall>c. osAcceptanceContract s = Some c \<longrightarrow>
         (\<exists>r. osAcceptanceReceipt s = Some r \<and> crExitCode r = 0 \<and> crAttemptID r = eaAttemptID (last (osAttempts s)) \<and>
            crCommandDigest r = ccCommandDigest c \<and> crSourceDigest r = ccSourceDigest c \<and>
            crEnvironmentDigest r = eaEnvironmentDigest (last (osAttempts s)) \<and>
            crContractDigest r = digest_contract c (obObjectiveID o') (osStepID s) (obPolicy o')))) \<and>
    distinct (operationIDs (obSteps o'))"
proof -
  have ok: "objectiveOk o'" using assms(1) by (simp add: Valid_objective_iff)
  have all: "\<forall>s \<in> set (obSteps o'). osState s = StepSucceeded"
    and count: "length (operationIDs (obSteps o')) = (if osAcceptanceContract (hd (obSteps o')) \<noteq> None then length (obSteps o') else 0)"
    using ok assms(2) by (auto simp: objectiveOk_def stateOk_def Let_def)
  have "osAttempts s \<noteq> [] \<and> eaState (last (osAttempts s)) = AttemptSucceeded" if "s \<in> set (obSteps o')" for s
  proof -
    have "stepStateMatchesAttempts s" using ok that by (auto simp: objectiveOk_def stepOk_def)
    then show ?thesis using all that by (auto simp: stepStateMatchesAttempts_def split: if_splits AttemptState.splits)
  qed
  moreover have "\<exists>r. osAcceptanceReceipt s = Some r" if "s \<in> set (obSteps o')" "osAcceptanceContract s = Some c" for s c
  proof -
    have contracted: "osAcceptanceContract (hd (obSteps o')) \<noteq> None"
      using ok that contractMode_all [of "obSteps o'" s "hd (obSteps o')"] by (auto simp: objectiveOk_def headerOk_def)
    then have "\<forall>t \<in> set (obSteps o'). osAcceptanceReceipt t \<noteq> None"
      using count operationIDs_full by simp
    then show ?thesis using that by blast
  qed
  moreover have "receiptFits (obObjectiveID o') (obPolicy o') s r" if "s \<in> set (obSteps o')" "osAcceptanceReceipt s = Some r" for s r
    using ok that by (auto simp: objectiveOk_def receiptOk_def)
  ultimately show ?thesis
    using ok unfolding objectiveOk_def receiptFits_def by (metis option.inject)
qed

lemma attachReceipts_distinct:
  assumes "attachReceipts o' seen steps rs = Inr ts"
  shows "distinct (map crOperationID rs) \<and> set (map crOperationID rs) \<inter> set seen = {} \<and>
    (\<forall>r \<in> set rs. \<exists>k. validFor_receipt r o' k)"
  using assms
proof (induction rs arbitrary: seen steps)
  case (Cons r rs)
  then obtain k where k: "validFor_receipt r o' k" "crOperationID r \<notin> set seen"
    and tail: "attachReceipts o' (crOperationID r # seen) (steps[k := (steps ! k)\<lparr>osAcceptanceReceipt := Some r\<rparr>]) rs = Inr ts"
    by (auto split: option.splits if_splits)
  show ?case using Cons.IH [OF tail] k by auto
qed simp

lemma validFor_receipt_runner:
  assumes "validFor_receipt r o' k" and "\<forall>s \<in> set (obSteps o'). eaClass (last (osAttempts s)) = ClassIsolatedRunner"
  shows "crOperationID r = []"
proof -
  have "k < length (obSteps o')" using assms(1) by (auto simp: validFor_receipt_def split: if_splits)
  then have "eaClass (last (osAttempts (obSteps o' ! k))) = ClassIsolatedRunner" using assms(2) by simp
  then show ?thesis
    using assms(1)
    by (auto simp: validFor_receipt_def validExecutionIdentity_def Let_def split: if_splits option.splits)
qed

text \<open>
  C29: receipts of isolated runners cannot accept more than one step. When every step of
  an objective ran in an isolated runner, its receipts carry no operation identifier;
  the duplicate check compares these identifiers, so for two or more steps
  \<open>AcceptWithEvidence\<close> fails on every list of receipts.
\<close>

theorem AcceptWithEvidence_runner_steps:
  assumes "\<forall>s \<in> set (obSteps o'). eaClass (last (osAttempts s)) = ClassIsolatedRunner"
    and "length (obSteps o') \<ge> 2"
  shows "\<exists>e. AcceptWithEvidence o' receipts = Inl e"
proof (rule ccontr)
  assume "\<nexists>e. AcceptWithEvidence o' receipts = Inl e"
  then obtain ts where len: "length receipts = length (obSteps o')"
    and ts: "attachReceipts o' [] (obSteps o') receipts = Inr ts"
    by (auto simp: AcceptWithEvidence_def split: if_splits sum.splits)
  note d = attachReceipts_distinct [OF ts]
  have "\<forall>r \<in> set receipts. crOperationID r = []" using d validFor_receipt_runner [OF _ assms(1)] by blast
  then have "set (map crOperationID receipts) \<subseteq> {[]}" by auto
  then have "card (set (map crOperationID receipts)) \<le> card {[] :: string}" by (rule card_mono [rotated]) simp
  moreover have "card (set (map crOperationID receipts)) = length (map crOperationID receipts)"
    by (rule distinct_card) (use d in blast)
  ultimately show False using len assms(2) by simp
qed

lemma runOperation_live:
  assumes "runOperation op o' = Inr o''"
  shows "\<not> terminal_objective o'"
proof (cases op)
  case OpAccept
  with assms show ?thesis by (auto simp: Accept_def terminal_objective_def split: if_splits)
next
  case (OpAcceptWithEvidence receipts)
  with assms show ?thesis by (auto simp: AcceptWithEvidence_def terminal_objective_def split: if_splits)
qed (use assms in \<open>auto simp: RefineRequirements_def PlanAttempt_def StartAttempt_def RejectAttempt_def FailAttempt_def
    CompleteAttempt_def Cancel_objective_def PlanProvisioning_def BindProvisionJob_def BindProvisionFence_def
    CompleteProvision_def FailProvision_def advanceProvision_def map_sum_Inr split: if_splits option.splits\<close>)

lemma cancelProvisioning_total:
  assumes "stepOk p s"
  shows "\<exists>ps. cancelProvisioning s = Inr (s\<lparr>osProvisioning := ps\<rparr>)"
proof (cases "activeProvisioning s")
  case True
  then have "Valid_provision (last (osProvisioning s))"
    using assms by (simp add: activeProvisioning_def stepOk_def provisionsOk_def)
  with True show ?thesis by (auto simp: cancelProvisioning_def Cancel_provision_def activeProvisioning_def)
next
  case False
  then have "cancelProvisioning s = Inr (s\<lparr>osProvisioning := osProvisioning s\<rparr>)"
    by (auto simp: cancelProvisioning_def activeProvisioning_def)
  then show ?thesis by blast
qed

lemma cancelStep_total:
  assumes "stepOk p s"
  shows "\<exists>t. cancelStep s = Inr t"
proof -
  obtain ps where ps: "cancelProvisioning s = Inr (s\<lparr>osProvisioning := ps\<rparr>)" using cancelProvisioning_total [OF assms] by blast
  have valid: "osAttempts s \<noteq> [] \<Longrightarrow> validIdentity (last (osAttempts s))"
    using assms by (simp add: stepOk_def attemptsOk_def)
  have "stepStateMatchesAttempts s" using assms by (simp add: stepOk_def)
  then show ?thesis
    using valid unfolding stepStateMatchesAttempts_def
    by (auto simp: cancelStep_def ps Transition_def attemptTransitionAllowed_def Let_def split: AttemptState.splits if_splits)
qed

lemma cancelSteps_total:
  "\<forall>s \<in> set ss. stepOk p s \<Longrightarrow> \<exists>ts. cancelSteps ss = Inr ts"
proof (induction ss)
  case (Cons s ss)
  then obtain t ts where "cancelStep s = Inr t" "cancelSteps ss = Inr ts" using cancelStep_total [of p s] by auto
  then show ?case by simp
qed simp

text \<open>
  C18: an objective is never stuck before it ends, and never moves after. In every
  objective that operations and saving can produce from a new one, cancellation succeeds
  exactly as long as the objective is not accepted, failed or cancelled, whatever its
  attempts and provisioning are doing, and once it is, every operation fails.
\<close>

theorem objective_cancel_until_terminal:
  assumes "reach newObjective storedStep o'"
  shows "((\<exists>p. Cancel_objective o' = Inr p) \<longleftrightarrow> \<not> terminal_objective o') \<and>
    (terminal_objective o' \<longrightarrow> (\<forall>op. \<exists>e. runOperation op o' = Inl e))"
proof -
  have "\<forall>s \<in> set (obSteps o'). stepOk (obPolicy o') s"
    using objectives.reach_inv [OF assms] by (auto simp: objectiveInv_def objectiveOk_def)
  then obtain ts where "cancelSteps (obSteps o') = Inr ts" using cancelSteps_total by blast
  moreover have "\<exists>e. runOperation op o' = Inl e" if "terminal_objective o'" for op
    using that runOperation_live [of op o'] by (cases "runOperation op o'") auto
  ultimately show ?thesis by (auto simp: Cancel_objective_def)
qed

subsection \<open>Examples\<close>

definition exampleDigest :: string where
  "exampleDigest = ''sha256:'' @ replicate 64 (CHR ''a'')"

definition exampleStep :: "string \<Rightarrow> ExecutionAttempt list \<Rightarrow> StepState \<Rightarrow> ObjectiveStep" where
  "exampleStep i as st = \<lparr>osStepID = i, osRequirements = [\<lparr>reqID = ''toolchain.go''\<rparr>], osAcceptanceContract = None,
     osAcceptanceReceipt = None, osAttempts = as, osProvisioning = [], osState = st\<rparr>"

definition exampleObjective :: "uint64 \<Rightarrow> ObjectiveState \<Rightarrow> ObjectiveStep \<Rightarrow> Objective" where
  "exampleObjective r st s = \<lparr>obVersion = ObjectiveVersion, obObjectiveID = ''objective-1'', obRevision = r,
     obState = st, obScope = zeroScope, obPolicy = examplePolicy, obSteps = [s]\<rparr>"

definition exampleAttempt :: "ExecutionClass \<Rightarrow> AuthorityTier \<Rightarrow> AttemptState \<Rightarrow> ExecutionAttempt" where
  "exampleAttempt c n st = \<lparr>eaAttemptID = ''attempt-1'', eaStepID = ''build'', eaParentAttemptID = [],
     eaSourceDigest = exampleDigest, eaEnvironmentID = ''edge-box'', eaEnvironmentDigest = exampleDigest,
     eaEnvironmentGeneration = 1, eaClass = c, eaTier = n, eaState = st, eaFailure = NoFailure\<rparr>"

lemma exampleObjective_new:
  "NewObjective ''objective-1'' examplePolicy
     [\<lparr>spStepID = ''build'', spRequirements = [\<lparr>reqID = ''toolchain.go''\<rparr>], spAcceptanceContract = None\<rparr>] =
   Inr (exampleObjective 1 ObjectivePlanned (exampleStep ''build'' [] StepPlanned))"
  by code_simp

lemma exampleObjective_cancel:
  "Cancel_objective (exampleObjective 1 ObjectivePlanned (exampleStep ''build'' [] StepPlanned)) =
     Inr (exampleObjective 2 ObjectiveCancelled (exampleStep ''build'' [] StepCancelled))"
  by code_simp

lemma exampleObjective_reach:
  "reach newObjective storedStep (exampleObjective 1 ObjectivePlanned (exampleStep ''build'' [] StepPlanned))"
  proof (rule reach.intros)
  show "newObjective (exampleObjective 1 ObjectivePlanned (exampleStep ''build'' [] StepPlanned))"
    unfolding newObjective_def using exampleObjective_new by blast
qed

text \<open>Two steps whose attempts are planned with the same identifier.\<close>

definition examplePair :: "uint64 \<Rightarrow> ObjectiveState \<Rightarrow> ObjectiveStep \<Rightarrow> ObjectiveStep \<Rightarrow> Objective" where
  "examplePair r st s t = (exampleObjective r st s)\<lparr>obSteps := [s, t]\<rparr>"

definition exampleAttemptIn :: "EnvironmentAttestation \<Rightarrow> string \<Rightarrow> ExecutionAttempt" where
  "exampleAttemptIn e i = \<lparr>eaAttemptID = ''attempt-1'', eaStepID = i, eaParentAttemptID = [],
     eaSourceDigest = exampleDigest, eaEnvironmentID = atEnvironmentID e, eaEnvironmentDigest = atDigest e,
     eaEnvironmentGeneration = atGeneration e, eaClass = atClass e, eaTier = the (Tier (atClass e)),
     eaState = AttemptPlanned, eaFailure = NoFailure\<rparr>"

lemma examplePair_new:
  "NewObjective ''objective-1'' examplePolicy
     [\<lparr>spStepID = ''build'', spRequirements = [\<lparr>reqID = ''toolchain.go''\<rparr>], spAcceptanceContract = None\<rparr>,
      \<lparr>spStepID = ''test'', spRequirements = [\<lparr>reqID = ''toolchain.go''\<rparr>], spAcceptanceContract = None\<rparr>] =
   Inr (examplePair 1 ObjectivePlanned (exampleStep ''build'' [] StepPlanned) (exampleStep ''test'' [] StepPlanned))"
  by code_simp

lemma exampleResolve_box:
  obtains res where "Resolve [\<lparr>reqID = ''toolchain.go''\<rparr>] None [boxEnvironment] examplePolicy = Inr res"
    "rsEnvironment res = boxEnvironment"
proof -
  have norm: "normalizeRequirementList [\<lparr>reqID = ''toolchain.go''\<rparr>] = Inr [\<lparr>reqID = ''toolchain.go''\<rparr>]" by code_simp
  have eq: "atCapabilities boxEnvironment = \<lparr>csIDs = [''os.linux'', ''toolchain.go'']\<rparr>"
    using boxEnvironment_facts(5) by (cases "atCapabilities boxEnvironment") simp
  have "Missing (atCapabilities boxEnvironment) [\<lparr>reqID = ''toolchain.go''\<rparr>] = []" unfolding eq by code_simp
  moreover have "Allows examplePolicy boxEnvironment"
    using boxEnvironment_facts by (simp add: Allows_iff [OF examplePolicy_valid]) (simp add: examplePolicy_def)
  ultimately show thesis
    using that norm boxEnvironment_facts
    by (simp add: Resolve_def examplePolicy_valid)
qed

lemma exampleStrings:
  "TrimSpace ''attempt-1'' = ''attempt-1''" "TrimSpace ''build'' = ''build''" "TrimSpace ''test'' = ''test''"
  "ToLower (TrimSpace exampleDigest) = exampleDigest" "digestPattern exampleDigest"
  "identityPattern ''attempt-1''" "identityPattern ''build''" "identityPattern ''test''"
  by code_simp+

lemma examplePlan:
  assumes "i \<in> {''build'', ''test''}"
  obtains res where "planStep (exampleStep i [] StepPlanned) ''attempt-1'' exampleDigest [boxEnvironment] examplePolicy =
     Inr (exampleAttemptIn boxEnvironment i, res)"
proof (rule exampleResolve_box)
  fix res
  assume res: "Resolve [\<lparr>reqID = ''toolchain.go''\<rparr>] None [boxEnvironment] examplePolicy = Inr res" "rsEnvironment res = boxEnvironment"
  show thesis
    by (rule that [of res])
      (use res assms boxEnvironment_facts(1) in \<open>auto simp: planStep_def NewExecutionAttempt_def exampleStrings
        sourceDigestPattern_def exampleAttemptIn_def exampleStep_def\<close>)
qed

lemma examplePair_simps [simp]:
  "obSteps (examplePair r st s t) = [s, t]" "obPolicy (examplePair r st s t) = examplePolicy"
  "obState (examplePair r st s t) = st" "obRevision (examplePair r st s t) = r"
  "revise (examplePair r st s t) 0 s' st' = examplePair (r + 1) st' s' t"
  "revise (examplePair r st s t) (Suc 0) t' st' = examplePair (r + 1) st' s t'"
  by (simp_all add: examplePair_def exampleObjective_def revise_def)

lemma exampleStep_simps [simp]:
  "osStepID (exampleStep i as st) = i" "osAcceptanceContract (exampleStep i as st) = None"
  "osAttempts (exampleStep i as st) = as" "osState (exampleStep i as st) = st" "osProvisioning (exampleStep i as st) = []"
  "(exampleStep i as st)\<lparr>osAttempts := bs, osState := st'\<rparr> = exampleStep i bs st'"
  by (simp_all add: exampleStep_def)

lemmas examplePlan_simps = PlanAttempt_def stepIndex_def exampleStrings Let_def terminal_objective_def activeProvisioning_def
  MaxAttemptsPerStep_def

lemma examplePair_plan_build:
  "\<exists>res. PlanAttempt (examplePair 1 ObjectivePlanned (exampleStep ''build'' [] StepPlanned) (exampleStep ''test'' [] StepPlanned))
      ''build'' ''attempt-1'' exampleDigest [boxEnvironment] =
    Inr (examplePair 2 ObjectiveRunning (exampleStep ''build'' [exampleAttemptIn boxEnvironment ''build''] StepPlanned)
      (exampleStep ''test'' [] StepPlanned), res)"
  by (rule examplePlan [of "''build''"]) (simp_all add: examplePlan_simps)

lemma examplePair_plan_test:
  "\<exists>res. PlanAttempt (examplePair 2 ObjectiveRunning (exampleStep ''build'' [exampleAttemptIn boxEnvironment ''build''] StepPlanned)
      (exampleStep ''test'' [] StepPlanned)) ''test'' ''attempt-1'' exampleDigest [boxEnvironment] =
    Inr (examplePair 3 ObjectiveRunning (exampleStep ''build'' [exampleAttemptIn boxEnvironment ''build''] StepPlanned)
      (exampleStep ''test'' [exampleAttemptIn boxEnvironment ''test''] StepPlanned), res)"
  by (rule examplePlan [of "''test''"]) (simp_all add: examplePlan_simps)

lemma examplePair_reach:
  "reach newObjective storedStep (examplePair 2 ObjectiveRunning
     (exampleStep ''build'' [exampleAttemptIn boxEnvironment ''build''] StepPlanned) (exampleStep ''test'' [] StepPlanned))"
    (is "reach _ _ ?next")
proof -
  let ?new = "examplePair 1 ObjectivePlanned (exampleStep ''build'' [] StepPlanned) (exampleStep ''test'' [] StepPlanned)"
  have new: "reach newObjective storedStep ?new"
    using examplePair_new by (intro reach.intros(1)) (auto simp: newObjective_def)
  have run: "runOperation (OpPlanAttempt ''build'' ''attempt-1'' exampleDigest [boxEnvironment]) ?new = Inr ?next"
    using examplePair_plan_build by (simp add: map_sum_Inr)
  have "storedStep ?new ?next"
    using runOperation_ok [OF objectives.reach_inv [OF new] run] by (intro storedStep.saved [OF run]) (simp add: attemptIDs_def)
  with new show ?thesis by (rule reach.intros(2))
qed

theorem objective_operations_accepted_witness:
  "ValidateTransition (exampleObjective 1 ObjectivePlanned (exampleStep ''build'' [] StepPlanned))
     (exampleObjective 2 ObjectiveCancelled (exampleStep ''build'' [] StepCancelled)) = None \<and>
   (\<exists>p. runOperation (OpPlanAttempt ''test'' ''attempt-1'' exampleDigest [boxEnvironment]) (examplePair 2 ObjectiveRunning
       (exampleStep ''build'' [exampleAttemptIn boxEnvironment ''build''] StepPlanned) (exampleStep ''test'' [] StepPlanned)) = Inr p \<and>
     ValidateTransition (examplePair 2 ObjectiveRunning
       (exampleStep ''build'' [exampleAttemptIn boxEnvironment ''build''] StepPlanned) (exampleStep ''test'' [] StepPlanned)) p \<noteq> None)"
    (is "?cancel \<and> (\<exists>p. runOperation ?plan ?o = Inr p \<and> _)")
proof
  show ?cancel
    using objective_operations_accepted [OF exampleObjective_reach, of OpCancel] exampleObjective_cancel
    by (simp add: exampleObjective_def)
  from examplePair_plan_test obtain p where p: "runOperation ?plan ?o = Inr p" "obRevision p = 3"
    by (auto simp: map_sum_Inr)
  from objective_operations_accepted [OF examplePair_reach p(1)] p(2)
  have "ValidateTransition ?o p \<noteq> None" by (auto simp: exampleStrings attemptIDs_def exampleAttemptIn_def)
  with p(1) show "\<exists>p. runOperation ?plan ?o = Inr p \<and> ValidateTransition ?o p \<noteq> None" by blast
qed

lemma exampleObjective_run:
  "Valid_objective (exampleObjective 3 ObjectiveRunning
     (exampleStep ''build'' [exampleAttempt ClassToolbox TierToolbox AttemptRunning] StepRunning))"
  "ValidateTransition (exampleObjective 3 ObjectiveRunning
      (exampleStep ''build'' [exampleAttempt ClassToolbox TierToolbox AttemptRunning] StepRunning))
    (exampleObjective 4 ObjectiveAcceptancePending
      (exampleStep ''build'' [exampleAttempt ClassToolbox TierToolbox AttemptSucceeded] StepSucceeded)) = None"
  "ValidateTransition (exampleObjective 4 ObjectiveAcceptancePending
      (exampleStep ''build'' [exampleAttempt ClassToolbox TierToolbox AttemptSucceeded] StepSucceeded))
    (exampleObjective 5 ObjectiveAccepted
      (exampleStep ''build'' [exampleAttempt ClassToolbox TierToolbox AttemptSucceeded] StepSucceeded)) = None"
  "Valid_objective (exampleObjective 5 ObjectiveAccepted
     (exampleStep ''build'' [exampleAttempt ClassToolbox TierToolbox AttemptSucceeded] StepSucceeded))"
  by code_simp+

lemma exampleObjective_chain:
  "(\<lambda>a b. ValidateTransition a b = None)\<^sup>*\<^sup>*
     (exampleObjective 3 ObjectiveRunning
       (exampleStep ''build'' [exampleAttempt ClassToolbox TierToolbox AttemptRunning] StepRunning))
     (exampleObjective 5 ObjectiveAccepted
       (exampleStep ''build'' [exampleAttempt ClassToolbox TierToolbox AttemptSucceeded] StepSucceeded))"
  by (rule converse_rtranclp_into_rtranclp, rule exampleObjective_run(2), rule r_into_rtranclp, rule exampleObjective_run(3))

theorem objective_history_immutable_witness:
  "attemptLe (exampleAttempt ClassToolbox TierToolbox AttemptRunning) (exampleAttempt ClassToolbox TierToolbox AttemptSucceeded)"
  using objective_history_immutable [OF exampleObjective_run(1) exampleObjective_chain]
  by (simp add: exampleObjective_def exampleStep_def)

theorem objective_authority_bounded_witness:
  "ClassToolbox \<in> set (rpAllowed examplePolicy) \<and> TierToolbox \<le> rpMaxTier examplePolicy"
  using objective_authority_bounded [OF exampleObjective_run(1) exampleObjective_chain,
      of "exampleStep ''build'' [exampleAttempt ClassToolbox TierToolbox AttemptSucceeded] StepSucceeded"
        "exampleAttempt ClassToolbox TierToolbox AttemptSucceeded"]
  by (simp add: exampleObjective_def exampleStep_def exampleAttempt_def)

text \<open>An accepted objective with a command contract and its receipt.\<close>

definition exampleContract :: CommandAcceptanceContract where
  "exampleContract = \<lparr>ccCommandDigest = exampleDigest, ccSourceDigest = exampleDigest,
     ccPrivateBodyRef = ''mb_'' @ replicate 32 (CHR ''a''), ccPrivateBodyDigest = exampleDigest,
     ccRequiredCapabilities = [\<lparr>reqID = ''toolchain.go''\<rparr>], ccArtifactRefs = []\<rparr>"

definition exampleReceipt :: "string \<Rightarrow> CommandAcceptanceReceipt" where
  "exampleReceipt d = \<lparr>crOperationID = ''eo_'' @ replicate 32 (CHR ''a''), crEvidenceProvider = [], crRunnerEffectID = [],
     crRunnerRunID = 0, crRunnerReceiptDigest = [], crObjectiveID = ''objective-1'', crStepID = ''build'',
     crAttemptID = ''attempt-1'', crContractDigest = d, crCommandDigest = exampleDigest, crSourceDigest = exampleDigest,
     crEnvironmentDigest = exampleDigest, crPrivateBodyRef = ''mb_'' @ replicate 32 (CHR ''a''),
     crPrivateBodyDigest = exampleDigest, crExitCode = 0, crArtifactRefs = []\<rparr>"

definition exampleAccepted :: "string \<Rightarrow> Objective" where
  "exampleAccepted d = exampleObjective 5 ObjectiveAccepted
     ((exampleStep ''build'' [exampleAttempt ClassToolbox TierToolbox AttemptSucceeded] StepSucceeded)
       \<lparr>osAcceptanceContract := Some exampleContract, osAcceptanceReceipt := Some (exampleReceipt d)\<rparr>)"

lemma exampleAccepted_parts:
  "headerOk (exampleAccepted d)" "stateOk (exampleAccepted d)"
  "distinct (map osStepID (obSteps (exampleAccepted d)))" "distinct (concat (map attemptIDs (obSteps (exampleAccepted d))))"
  "distinct (operationIDs (obSteps (exampleAccepted d)))"
  by code_simp+

lemma examplePending_valid:
  "Valid_objective (exampleObjective 4 ObjectiveAcceptancePending
     ((exampleStep ''build'' [exampleAttempt ClassToolbox TierToolbox AttemptSucceeded] StepSucceeded)
       \<lparr>osAcceptanceContract := Some exampleContract\<rparr>))"
  by code_simp

lemma exampleAccepted_stepOk: "\<forall>s \<in> set (obSteps (exampleAccepted d)). stepOk examplePolicy s"
proof -
  have "stepOk p (s\<lparr>osAcceptanceReceipt := r\<rparr>) = stepOk p s" for p s r
    by (simp add: stepOk_def contractOk_def stepStateMatchesAttempts_def activeProvisioning_def cong: AttemptState.case_cong)
  then show ?thesis
    using examplePending_valid by (simp add: Valid_objective_iff objectiveOk_def exampleAccepted_def exampleObjective_def)
qed

definition exampleContractDigest :: string where
  "exampleContractDigest = digest_contract exampleContract ''objective-1'' ''build'' examplePolicy"

lemma exampleAccepted_valid: "Valid_objective (exampleAccepted exampleContractDigest)"
proof -
  have "operationRefPattern (''eo_'' @ replicate 32 (CHR ''a''))" "ClassToolbox \<noteq> ClassIsolatedRunner" by code_simp+
  then have "\<forall>s \<in> set (obSteps (exampleAccepted exampleContractDigest)). receiptOk ''objective-1'' examplePolicy ObjectiveAccepted s"
    by (simp add: exampleAccepted_def exampleObjective_def receiptOk_def receiptFits_def exampleReceipt_def exampleStep_def exampleContract_def
        exampleAttempt_def validExecutionIdentity_def exampleContractDigest_def)
  then show ?thesis
    using exampleAccepted_parts exampleAccepted_stepOk unfolding Valid_objective_iff objectiveOk_def
    by (auto simp: exampleAccepted_def exampleObjective_def list_all_iff)
qed

theorem objective_accepted_evidence_witness:
  "\<exists>s c r. s \<in> set (obSteps (exampleAccepted exampleContractDigest)) \<and> osAcceptanceContract s = Some c \<and>
     osAcceptanceReceipt s = Some r \<and> crExitCode r = 0 \<and>
     crContractDigest r = digest_contract c ''objective-1'' ''build'' examplePolicy"
  using objective_accepted_evidence [OF exampleAccepted_valid]
  by (simp add: exampleAccepted_def exampleObjective_def exampleStep_def)

text \<open>Two steps that succeeded in isolated runners, each with the receipt the code makes for it.\<close>

definition runnerPolicy :: ResolutionPolicy where
  "runnerPolicy = \<lparr>rpMaxTier = TierIsolatedRunner, rpAllowed = [ClassIsolatedRunner]\<rparr>"

definition runnerStep :: "string \<Rightarrow> string \<Rightarrow> ObjectiveStep" where
  "runnerStep i j = (exampleStep i [(exampleAttempt ClassIsolatedRunner TierIsolatedRunner AttemptSucceeded)
       \<lparr>eaAttemptID := j, eaStepID := i\<rparr>] StepSucceeded)\<lparr>osAcceptanceContract := Some exampleContract\<rparr>"

definition runnerObjective :: Objective where
  "runnerObjective = (exampleObjective 4 ObjectiveAcceptancePending (runnerStep ''build'' ''attempt-1''))
     \<lparr>obPolicy := runnerPolicy, obSteps := [runnerStep ''build'' ''attempt-1'', runnerStep ''test'' ''attempt-2'']\<rparr>"

definition runnerEvidence :: CommandOperationEvidence where
  "runnerEvidence = \<lparr>evOperationID = [], evEvidenceProvider = ''github-run'', evRunnerEffectID = replicate 64 (CHR ''a''),
     evRunnerRunID = 7, evRunnerReceiptDigest = exampleDigest, evCommandDigest = exampleDigest, evSourceDigest = exampleDigest,
     evEnvironmentDigest = exampleDigest, evPrivateBodyRef = ''mb_'' @ replicate 32 (CHR ''a''),
     evPrivateBodyDigest = exampleDigest, evExitCode = 0, evArtifactRefs = []\<rparr>"

lemma runnerObjective_valid: "Valid_objective runnerObjective"
  by code_simp

lemma runnerStep_simps:
  "osStepID (runnerStep i j) = i" "osAcceptanceContract (runnerStep i j) = Some exampleContract" "osAttempts (runnerStep i j) =
     [(exampleAttempt ClassIsolatedRunner TierIsolatedRunner AttemptSucceeded)\<lparr>eaAttemptID := j, eaStepID := i\<rparr>]"
  by (simp_all add: runnerStep_def)

lemma runnerObjective_receipt:
  "\<exists>r. NewCommandAcceptanceReceipt runnerObjective ''build'' runnerEvidence = Inr r"
  "\<exists>r. NewCommandAcceptanceReceipt runnerObjective ''test'' runnerEvidence = Inr r"
proof -
  have facts: "obState runnerObjective = ObjectiveAcceptancePending" "obSteps runnerObjective =
      [runnerStep ''build'' ''attempt-1'', runnerStep ''test'' ''attempt-2'']"
    by (simp_all add: runnerObjective_def exampleObjective_def)
  have index: "stepIndex runnerObjective ''build'' = Some 0" "stepIndex runnerObjective ''test'' = Some 1"
    and id: "runnerEffectPattern (replicate 64 (CHR ''a''))" "digestPattern exampleDigest" by code_simp+
  have run: "validExecutionIdentity r ClassIsolatedRunner" if "crOperationID r = []" "crEvidenceProvider r = ''github-run''"
    "crRunnerEffectID r = replicate 64 (CHR ''a'')" "crRunnerRunID r = 7" "crRunnerReceiptDigest r = exampleDigest" for r
    using that id by (simp add: validExecutionIdentity_def sourceDigestPattern_def)
  show "\<exists>r. NewCommandAcceptanceReceipt runnerObjective ''build'' runnerEvidence = Inr r"
    "\<exists>r. NewCommandAcceptanceReceipt runnerObjective ''test'' runnerEvidence = Inr r"
    by (simp_all add: NewCommandAcceptanceReceipt_def runnerObjective_valid facts index runnerStep_simps validFor_receipt_iff
        receiptFits_def runnerEvidence_def run exampleAttempt_def exampleContract_def)
qed

theorem AcceptWithEvidence_runner_steps_witness:
  "\<exists>r r' e. NewCommandAcceptanceReceipt runnerObjective ''build'' runnerEvidence = Inr r \<and>
     NewCommandAcceptanceReceipt runnerObjective ''test'' runnerEvidence = Inr r' \<and>
     AcceptWithEvidence runnerObjective [r, r'] = Inl e"
proof -
  obtain r r' where "NewCommandAcceptanceReceipt runnerObjective ''build'' runnerEvidence = Inr r"
    "NewCommandAcceptanceReceipt runnerObjective ''test'' runnerEvidence = Inr r'"
    using runnerObjective_receipt by blast
  moreover have "\<exists>e. AcceptWithEvidence runnerObjective [r, r'] = Inl e"
    by (rule AcceptWithEvidence_runner_steps)
      (simp_all add: runnerObjective_def runnerStep_def exampleAttempt_def exampleStep_def)
  ultimately show ?thesis by blast
qed

theorem objective_cancel_until_terminal_witness:
  "\<exists>p. Cancel_objective (exampleObjective 1 ObjectivePlanned (exampleStep ''build'' [] StepPlanned)) = Inr p"
  using objective_cancel_until_terminal [OF exampleObjective_reach]
  by (simp add: exampleObjective_def terminal_objective_def)

end
