(* ===== verification/Go_Filepath.thy ===== *)
theory Go_Filepath
  imports Go_Strings
begin

text \<open>
  The lexical path operations of Go's \<open>path/filepath\<close> for Unix, where the separator is
  the slash and there are no volume names. A clean path is a list of elements, rooted or
  not; the lemmas describe \<open>Clean\<close>, \<open>Join\<close>, \<open>Dir\<close>, \<open>Base\<close> and \<open>Rel\<close> on it.
\<close>

subsection \<open>Definitions\<close>

definition dot :: string where
  "dot = ''.''"

definition dotdot :: string where
  "dotdot = ''..''"

definition slash :: char where
  "slash = CHR ''/''"

definition IsAbs :: "string \<Rightarrow> bool" where
  "IsAbs p \<longleftrightarrow> p \<noteq> [] \<and> hd p = slash"

text \<open>The elements of a cleaned path, most recent first while they are collected.\<close>

fun cleanParts :: "bool \<Rightarrow> string list \<Rightarrow> string list \<Rightarrow> string list" where
  "cleanParts rooted out [] = rev out"
| "cleanParts rooted out (w # ws) =
     (if w = [] \<or> w = dot then cleanParts rooted out ws
      else if w = dotdot then
        (if out = [] then cleanParts rooted (if rooted then [] else [dotdot]) ws
         else if hd out = dotdot then cleanParts rooted (dotdot # out) ws
         else cleanParts rooted (tl out) ws)
      else cleanParts rooted (w # out) ws)"

definition fromParts :: "bool \<Rightarrow> string list \<Rightarrow> string" where
  "fromParts rooted ws = (if rooted then slash # joinWith [slash] ws else if ws = [] then dot else joinWith [slash] ws)"

definition Clean :: "string \<Rightarrow> string" where
  "Clean p = (if p = [] then dot else fromParts (IsAbs p) (cleanParts (IsAbs p) [] (splitOn slash p)))"

definition Join :: "string \<Rightarrow> string \<Rightarrow> string" where
  "Join a b = (if a \<noteq> [] then Clean (a @ [slash] @ b) else if b \<noteq> [] then Clean b else [])"

text \<open>The part of a path up to and with its last slash, and the rest.\<close>

definition afterSlash :: "string \<Rightarrow> string" where
  "afterSlash p = rev (takeWhile (\<lambda>c. c \<noteq> slash) (rev p))"

definition uptoSlash :: "string \<Rightarrow> string" where
  "uptoSlash p = rev (dropWhile (\<lambda>c. c \<noteq> slash) (rev p))"

definition Dir :: "string \<Rightarrow> string" where
  "Dir p = Clean (uptoSlash p)"

definition Base :: "string \<Rightarrow> string" where
  "Base p =
     (if p = [] then dot
      else
        let q = rev (dropWhile (\<lambda>c. c = slash) (rev p))
        in if q = [] then [slash] else afterSlash q)"

definition Ext :: "string \<Rightarrow> string" where
  "Ext p =
     (let w = afterSlash p; tail = rev (takeWhile (\<lambda>c. c \<noteq> CHR ''.'') (rev w))
      in if length tail = length w then [] else CHR ''.'' # tail)"

fun dropCommon :: "string list \<Rightarrow> string list \<Rightarrow> string list \<times> string list" where
  "dropCommon (b # bs) (t # ts) = (if b = t then dropCommon bs ts else (b # bs, t # ts))"
| "dropCommon bs ts = (bs, ts)"

definition elements :: "string \<Rightarrow> string list" where
  "elements p = filter (\<lambda>w. w \<noteq> []) (splitOn slash p)"

definition Rel :: "string \<Rightarrow> string \<Rightarrow> string option" where
  "Rel basepath targpath =
     (let b = Clean basepath; t = Clean targpath
      in if t = b then Some dot
         else if IsAbs b \<noteq> IsAbs t then None
         else
           case dropCommon (elements (if b = dot then [] else b)) (elements t) of
             (bs, ts) \<Rightarrow>
               if bs \<noteq> [] \<and> ts \<noteq> [] \<and> hd bs = dotdot then None
               else Some (joinWith [slash] (replicate (length bs) dotdot @ ts)))"

subsection \<open>Clean paths\<close>

text \<open>A plain element is a name: not empty, without a slash, and neither \<open>.\<close> nor \<open>..\<close>.\<close>

definition nameOk :: "string \<Rightarrow> bool" where
  "nameOk w \<longleftrightarrow> w \<noteq> [] \<and> w \<noteq> dot \<and> w \<noteq> dotdot \<and> slash \<notin> set w"

lemma cleanParts_rooted:
  assumes "list_all (\<lambda>w. slash \<notin> set w) ws" and "list_all nameOk out"
  shows "list_all nameOk (cleanParts True out ws)"
  using assms
proof (induction True out ws rule: cleanParts.induct)
  case (2 out w ws)
  then show ?case by (cases out) (auto simp: nameOk_def)
qed simp

lemma cleanParts_names:
  "list_all nameOk ws \<Longrightarrow> cleanParts r out ws = rev out @ ws"
  by (induction ws arbitrary: out) (auto simp: nameOk_def)

lemma splitOn_slashes: "list_all (\<lambda>w. sep \<notin> set w) (splitOn sep s)"
  using splitOn_no_sep by (auto simp: list_all_iff)

lemma names_slash: "list_all nameOk ws \<Longrightarrow> list_all (\<lambda>w. slash \<notin> set w) ws"
  by (auto simp: list_all_iff nameOk_def)

lemma cleanParts_append:
  "cleanParts r out (xs @ ys) = cleanParts r (rev (cleanParts r out xs)) ys"
  by (induction r out xs rule: cleanParts.induct) auto

lemma IsAbs_fromParts [simp]: "IsAbs (fromParts True ws)" "fromParts True ws \<noteq> []"
  by (simp_all add: IsAbs_def fromParts_def)

lemma splitOn_fromParts:
  assumes "list_all nameOk ws"
  shows "splitOn slash (fromParts True ws) = [] # (if ws = [] then [[]] else ws)"
  using splitOn_joinWith [OF names_slash [OF assms]] by (simp add: fromParts_def)

lemma elements_fromParts [simp]:
  assumes "list_all nameOk ws"
  shows "elements (fromParts True ws) = ws"
proof -
  have "filter (\<lambda>w. w \<noteq> []) ws = ws" using assms by (auto simp: list_all_iff nameOk_def)
  then show ?thesis by (simp add: elements_def splitOn_fromParts [OF assms])
qed

definition absParts :: "string \<Rightarrow> string list" where
  "absParts p = cleanParts True [] (splitOn slash p)"

lemma absParts_names [simp]: "list_all nameOk (absParts p)"
  unfolding absParts_def by (rule cleanParts_rooted) (simp_all add: splitOn_slashes)

lemma Clean_abs: "IsAbs p \<Longrightarrow> Clean p = fromParts True (absParts p)"
  by (auto simp: Clean_def absParts_def IsAbs_def)

lemma absParts_fromParts [simp]:
  assumes "list_all nameOk ws"
  shows "absParts (fromParts True ws) = ws"
  using cleanParts_names [OF assms, of True "[]"] by (simp add: absParts_def splitOn_fromParts [OF assms])

lemma Clean_fromParts [simp]: "list_all nameOk ws \<Longrightarrow> Clean (fromParts True ws) = fromParts True ws"
  by (simp add: Clean_abs)

lemma fromParts_inj: "list_all nameOk us \<Longrightarrow> list_all nameOk ws \<Longrightarrow> fromParts True us = fromParts True ws \<longleftrightarrow> us = ws"
  by (metis elements_fromParts)

lemma IsAbs_Join: "IsAbs a \<Longrightarrow> IsAbs (a @ x)"
  by (auto simp: IsAbs_def)

lemma Join_abs:
  assumes "list_all nameOk ws"
  shows "Join (fromParts True ws) b = fromParts True (cleanParts True (rev ws) (splitOn slash b))"
proof -
  have "Join (fromParts True ws) b = fromParts True (absParts (fromParts True ws @ [slash] @ b))"
    by (simp add: Join_def Clean_abs IsAbs_Join del: append_Cons)
  moreover have "absParts (fromParts True ws @ [slash] @ b) = cleanParts True (rev (absParts (fromParts True ws))) (splitOn slash b)"
    unfolding absParts_def splitOn_append by (rule cleanParts_append)
  ultimately show ?thesis using assms by simp
qed

lemma Join_names:
  assumes "list_all nameOk ws" and "list_all nameOk us"
  shows "Join (fromParts True ws) (joinWith [slash] us) = fromParts True (ws @ us)"
proof (cases "us = []")
  case False
  then have "splitOn slash (joinWith [slash] us) = us" by (rule splitOn_joinWith [OF names_slash [OF assms(2)]])
  then show ?thesis using cleanParts_names [OF assms(2)] by (simp add: Join_abs [OF assms(1)])
qed (simp add: Join_abs [OF assms(1)])

lemma Join_relative:
  assumes "list_all nameOk (w # us)"
  shows "Join w (joinWith [slash] us) = joinWith [slash] (w # us)"
proof -
  have w: "w \<noteq> []" "hd w \<noteq> slash" "slash \<notin> set w" using assms hd_in_set [of w] by (auto simp: nameOk_def simp del: hd_in_set)
  have parts: "splitOn slash (w @ [slash] @ joinWith [slash] us) = w # (if us = [] then [[]] else us)"
    using splitOn_joinWith [OF names_slash, of us] assms w by (simp only: splitOn_append) (simp add: splitOn_single)
  have "cleanParts False [] (w # (if us = [] then [[]] else us)) = w # us"
    using cleanParts_names [OF assms, of False "[]"] assms by (auto simp: nameOk_def)
  then have "Clean (w @ [slash] @ joinWith [slash] us) = fromParts False (w # us)"
    using w by (simp add: Clean_def IsAbs_def parts del: append_Cons)
  then show ?thesis using w by (simp add: Join_def fromParts_def)
qed

lemma breakSlash:
  "slash \<notin> set u \<Longrightarrow> takeWhile (\<lambda>c. c \<noteq> slash) (u @ slash # y) = u"
  "slash \<notin> set u \<Longrightarrow> dropWhile (\<lambda>c. c \<noteq> slash) (u @ slash # y) = slash # y"
  by (induction u) auto

lemma fromParts_snoc:
  assumes "list_all nameOk (ws @ [w])"
  shows "uptoSlash (fromParts True (ws @ [w])) = (if ws = [] then [slash] else fromParts True ws @ [slash])"
    and "afterSlash (fromParts True (ws @ [w])) = w"
proof -
  have eq: "fromParts True (ws @ [w]) = (if ws = [] then [slash] else fromParts True ws @ [slash]) @ w"
    by (simp add: fromParts_def joinWith_snoc)
  have "slash \<notin> set (rev w)" using assms by (auto simp: nameOk_def)
  then show "uptoSlash (fromParts True (ws @ [w])) = (if ws = [] then [slash] else fromParts True ws @ [slash])"
    and "afterSlash (fromParts True (ws @ [w])) = w"
    unfolding eq uptoSlash_def afterSlash_def by (simp_all add: breakSlash)
qed

lemma Dir_fromParts:
  assumes "list_all nameOk (ws @ [w])"
  shows "Dir (fromParts True (ws @ [w])) = fromParts True ws" and "Base (fromParts True (ws @ [w])) = w"
proof -
  have names: "list_all nameOk ws" using assms by simp
  have w: "w \<noteq> []" "last w \<noteq> slash" using assms last_in_set [of w] by (auto simp: nameOk_def simp del: last_in_set)
  have "absParts (fromParts True ws @ [slash]) = ws"
    using cleanParts_append [of True "[]" "splitOn slash (fromParts True ws)" "[[]]"] absParts_fromParts [OF names]
      splitOn_append [of slash "fromParts True ws" "[]"]
    by (simp add: absParts_def)
  then have "Clean (fromParts True ws @ [slash]) = fromParts True ws" by (simp add: Clean_abs IsAbs_Join)
  moreover have "Clean [slash] = fromParts True []" using Clean_fromParts [of "[]"] by (simp add: fromParts_def)
  ultimately show "Dir (fromParts True (ws @ [w])) = fromParts True ws" by (simp add: Dir_def fromParts_snoc [OF assms])
  have "fromParts True (ws @ [w]) = uptoSlash (fromParts True (ws @ [w])) @ w"
    unfolding fromParts_snoc [OF assms] by (simp add: fromParts_def joinWith_snoc)
  then have "last (fromParts True (ws @ [w])) \<noteq> slash" using w by (metis last_appendR)
  then have "rev (dropWhile (\<lambda>c. c = slash) (rev (fromParts True (ws @ [w])))) = fromParts True (ws @ [w])"
    by (cases "fromParts True (ws @ [w])" rule: rev_cases) simp_all
  then show "Base (fromParts True (ws @ [w])) = w" using fromParts_snoc [OF assms] by (simp add: Base_def)
qed

lemma Dir_root: "Dir (fromParts True []) = fromParts True []"
  by (simp add: Dir_def uptoSlash_def afterSlash_def fromParts_def Clean_def IsAbs_def)

lemma dropCommon_prefix: "fst (dropCommon bs ts) = [] \<longleftrightarrow> prefix bs ts"
  by (induction bs ts rule: dropCommon.induct) auto

lemma dropCommon_append:
  "dropCommon bs ts = (bs', ts') \<Longrightarrow> \<exists>cs. bs = cs @ bs' \<and> ts = cs @ ts'"
proof (induction bs ts rule: dropCommon.induct)
  case (1 b bs t ts)
  show ?case
  proof (cases "b = t")
    case True
    with 1 obtain cs where "bs = cs @ bs'" "ts = cs @ ts'" by auto
    with True have "b # bs = (b # cs) @ bs' \<and> t # ts = (b # cs) @ ts'" by simp
    then show ?thesis by blast
  qed (use 1 in auto)
qed simp_all

subsection \<open>Lengths\<close>

text \<open>Each element counts with the separator after it.\<close>

definition partsLength :: "string list \<Rightarrow> nat" where
  "partsLength ws = sum_list (map (\<lambda>w. length w + 1) ws)"

lemma partsLength_simps [simp]:
  "partsLength [] = 0" "partsLength (w # ws) = length w + 1 + partsLength ws"
  "partsLength (us @ ws) = partsLength us + partsLength ws" "partsLength (rev ws) = partsLength ws"
  by (simp_all add: partsLength_def rev_map [symmetric])

lemma partsLength_splitOn: "partsLength (splitOn sep s) = length s + 1"
  by (induction s) (auto split: list.splits)

lemma length_joinWith: "ws \<noteq> [] \<Longrightarrow> length (joinWith [sep] ws) + 1 = partsLength ws"
proof (induction ws)
  case (Cons w ws)
  then show ?case by (cases "ws = []") (simp_all add: joinWith_Cons)
qed simp

lemma partsLength_cleanParts: "partsLength (cleanParts r out ws) \<le> partsLength out + partsLength ws"
proof (induction r out ws rule: cleanParts.induct)
  case (2 r out w ws)
  then show ?case by (cases out) (auto simp: dotdot_def split: if_splits)
qed simp

lemma splitOn_IsAbs: "IsAbs p \<Longrightarrow> splitOn slash p = [] # splitOn slash (tl p)"
  by (cases p) (auto simp: IsAbs_def)

lemma length_Clean: "p \<noteq> [] \<Longrightarrow> length (Clean p) \<le> length p"
proof -
  assume p: "p \<noteq> []"
  let ?ws = "cleanParts (IsAbs p) [] (splitOn slash p)"
  have join: "length (joinWith [slash] ?ws) + 1 = partsLength ?ws" if "?ws \<noteq> []" by (rule length_joinWith [OF that])
  have pos: "length p \<ge> 1" using p by (cases p) simp_all
  show ?thesis
  proof (cases "IsAbs p")
    case True
    then have "?ws = cleanParts True [] (splitOn slash (tl p))" by (simp add: splitOn_IsAbs)
    then have "partsLength ?ws \<le> length p"
      using partsLength_cleanParts [of True "[]" "splitOn slash (tl p)"] pos by (simp add: partsLength_splitOn)
    then show ?thesis using True p pos join by (cases "?ws = []") (simp_all add: Clean_def fromParts_def)
  next
    case False
    then have "partsLength ?ws \<le> length p + 1"
      using partsLength_cleanParts [of False "[]" "splitOn slash p"] by (simp add: partsLength_splitOn)
    then show ?thesis using False p pos join by (cases "?ws = []") (simp_all add: Clean_def fromParts_def dot_def)
  qed
qed

lemma Clean_trailing: "x \<noteq> [] \<Longrightarrow> Clean (x @ [slash]) = Clean x"
proof -
  assume x: "x \<noteq> []"
  then have "IsAbs (x @ [slash]) = IsAbs x" by (simp add: IsAbs_def)
  moreover have "cleanParts r [] (splitOn slash (x @ [slash])) = cleanParts r [] (splitOn slash x)" for r
    using splitOn_append [of slash x "[]"] by (simp add: cleanParts_append)
  ultimately show ?thesis using x by (simp add: Clean_def)
qed

definition dirMeasure :: "string \<Rightarrow> nat" where
  "dirMeasure p = (if p = dot then 0 else length p + 1)"

lemma afterSlash_append: "p = uptoSlash p @ afterSlash p"
  by (simp add: uptoSlash_def afterSlash_def flip: rev_append)

lemma uptoSlash_last: "uptoSlash p \<noteq> [] \<Longrightarrow> last (uptoSlash p) = slash"
  using hd_dropWhile [of "\<lambda>c. c \<noteq> slash" "rev p"] by (simp add: uptoSlash_def last_rev)

lemma length_dot [simp]: "length dot = 1"
  by (simp add: dot_def)

lemma Dir_decreases: "Dir p \<noteq> p \<Longrightarrow> dirMeasure (Dir p) < dirMeasure p"
proof -
  assume ne: "Dir p \<noteq> p"
  have p: "p = uptoSlash p @ afterSlash p" by (rule afterSlash_append)
  consider "uptoSlash p = []" | "uptoSlash p \<noteq> []" "afterSlash p \<noteq> []" | "uptoSlash p \<noteq> []" "afterSlash p = []" by blast
  then show ?thesis
  proof cases
    case 1
    then have "Dir p = dot" by (simp add: Dir_def Clean_def)
    then show ?thesis using ne by (auto simp: dirMeasure_def)
  next
    case 2
    then have "length (uptoSlash p) < length p" using p by (metis length_append less_add_same_cancel1 length_greater_0_conv)
    then show ?thesis using length_Clean [OF 2(1)] 2(1) ne by (auto simp: dirMeasure_def Dir_def)
  next
    case 3
    then obtain x where x: "p = x @ [slash]"
      using uptoSlash_last [of p] p by (metis append_Nil2 append_butlast_last_id)
    have eq: "uptoSlash p = p" using p 3(2) by simp
    have "x \<noteq> []" using ne x eq by (auto simp: Dir_def Clean_def IsAbs_def fromParts_def)
    then have "length (Dir p) < length p" using length_Clean [of x] Clean_trailing [of x] x eq by (simp add: Dir_def)
    moreover have "p \<noteq> dot" using x \<open>x \<noteq> []\<close> by (auto simp: dot_def append_eq_Cons_conv)
    ultimately show ?thesis by (simp add: dirMeasure_def)
  qed
qed

end
