(* ===== verification/Policy_Jail.thy ===== *)
theory Policy_Jail
  imports Go_Filepath
begin

text \<open>
  The path layer of \<open>internal/policy\<close>: the names that mark a path as secret
  (\<open>secrets.go\<close>) and the workspace jail (\<open>jail.go\<close>). The file system enters through
  one function, \<open>filepath.EvalSymlinks\<close>, which is a parameter of the definitions.
\<close>

subsection \<open>Errors of the packages policy and config\<close>

datatype policyError =
    ErrJailRoots | ErrJailRootAbsolute string | ErrOutsideJail | ErrSecretDenied
  | ErrReadOnly | ErrExecutionRequiresAllow | ErrUnknownMode
  | ErrCommandNotAllowed | ErrCommandDestructive | ErrCommandInjection | ErrCommandPathQualified
  | ErrAccessGrantInvalid | ErrAccessGrantExpired | ErrAccessGrantUsed | ErrAccessGrantPathMismatch
  | ErrRawAccessDenied | ErrAccessGrantTTL | ErrAccessRequestExpired | ErrAccessRequestLimit
  | ErrRandom | AccessRequired string string string bool
  | ErrNoRoots | ErrRootNotAbsolute | ErrUnknownSandboxBackend

subsection \<open>Secret names\<close>

definition secretSegments :: "string list" where
  "secretSegments = [''.ssh'', ''.aws'', ''.gnupg'', ''.gpg'', ''grant-admin'']"

definition secretBasenames :: "string list" where
  "secretBasenames =
     [''.env'', ''.npmrc'', ''.netrc'', ''_netrc'', ''.git-credentials'', ''.pgpass'', ''.htpasswd'', ''credentials'',
      ''id_rsa'', ''id_dsa'', ''id_ecdsa'', ''id_ed25519'', ''secring.gpg'']"

definition secretExts :: "string list" where
  "secretExts = [''.pem'', ''.key'', ''.pfx'', ''.p12'', ''.keystore'', ''.jks'', ''.asc'']"

definition secretSegment :: "string \<Rightarrow> bool" where
  "secretSegment seg =
     (if seg = [] \<or> seg = dot \<or> seg = dotdot then False
      else
        let low = ToLower seg
        in low \<in> set secretSegments \<or> low \<in> set secretBasenames \<or> HasPrefix low ''.env.'' \<or>
           ToLower (Ext seg) \<in> set secretExts)"

definition backslash :: char where
  "backslash = CHR 0x5C"

definition IsSecretPath :: "string \<Rightarrow> bool" where
  "IsSecretPath path =
     (if path = [] then False
      else list_ex secretSegment (splitOn slash (map (\<lambda>c. if c = backslash then slash else c) path)))"

subsection \<open>The jail\<close>

record Jail =
  jailRoots :: "string list"

fun resolveRoots :: "(string \<Rightarrow> string option) \<Rightarrow> string list \<Rightarrow> policyError + string list" where
  "resolveRoots evalSymlinks [] = Inr []"
| "resolveRoots evalSymlinks (r # rs) =
     (if \<not> IsAbs r then Inl (ErrJailRootAbsolute r)
      else
        case resolveRoots evalSymlinks rs of
          Inl e \<Rightarrow> Inl e
        | Inr resolved \<Rightarrow> Inr (Clean (case evalSymlinks r of None \<Rightarrow> r | Some real \<Rightarrow> real) # resolved))"

definition NewJail :: "(string \<Rightarrow> string option) \<Rightarrow> string list \<Rightarrow> policyError + Jail" where
  "NewJail evalSymlinks roots =
     (if length roots = 0 then Inl ErrJailRoots
      else case resolveRoots evalSymlinks roots of Inl e \<Rightarrow> Inl e | Inr resolved \<Rightarrow> Inr \<lparr>jailRoots = resolved\<rparr>)"

text \<open>The loop of \<open>resolveExisting\<close>, with its variables \<open>rem\<close> and \<open>cur\<close>.\<close>

function resolveFrom :: "(string \<Rightarrow> string option) \<Rightarrow> string \<Rightarrow> string \<Rightarrow> string \<Rightarrow> string" where
  "resolveFrom evalSymlinks p remaining cur =
     (case evalSymlinks cur of
        Some resolved \<Rightarrow> Clean (Join resolved remaining)
      | None \<Rightarrow>
         if Dir cur = cur then p
         else resolveFrom evalSymlinks p (Join (Base cur) remaining) (Dir cur))"
  by pat_completeness auto
termination
  by (relation "measure (\<lambda>(evalSymlinks, p, remaining, cur). dirMeasure cur)") (auto intro: Dir_decreases)

declare resolveFrom.simps [simp del]

definition resolveExisting :: "(string \<Rightarrow> string option) \<Rightarrow> string \<Rightarrow> string" where
  "resolveExisting evalSymlinks p = resolveFrom evalSymlinks (Clean p) [] (Clean p)"

definition withinRoot :: "string \<Rightarrow> string \<Rightarrow> bool" where
  "withinRoot p root =
     (if p = root then True
      else
        case Rel root p of
          None \<Rightarrow> False
        | Some rel \<Rightarrow>
           if rel = dot then True
           else if rel = dotdot \<or> HasPrefix rel (dotdot @ [slash]) then False
           else \<not> IsAbs rel)"

fun resolveIn :: "(string \<Rightarrow> string option) \<Rightarrow> string list \<Rightarrow> string \<Rightarrow> policyError + string" where
  "resolveIn evalSymlinks [] input = Inl ErrOutsideJail"
| "resolveIn evalSymlinks (root # roots) input =
     (let cand = (if IsAbs input then Clean input else Clean (Join root input));
          real = resolveExisting evalSymlinks cand
      in if withinRoot real root then Inr real else resolveIn evalSymlinks roots input)"

definition Resolve_jail :: "(string \<Rightarrow> string option) \<Rightarrow> Jail \<Rightarrow> string \<Rightarrow> policyError + string" where
  "Resolve_jail evalSymlinks j input =
     (if input = [] then Inl ErrOutsideJail else resolveIn evalSymlinks (jailRoots j) input)"

definition Contains_jail :: "(string \<Rightarrow> string option) \<Rightarrow> Jail \<Rightarrow> string \<Rightarrow> bool" where
  "Contains_jail evalSymlinks j input = (case Resolve_jail evalSymlinks j input of Inl e \<Rightarrow> False | Inr _ \<Rightarrow> True)"

subsection \<open>Containment\<close>

lemma joinWith_not_Nil: "list_all nameOk ts \<Longrightarrow> ts \<noteq> [] \<Longrightarrow> splitOn slash (joinWith [slash] ts) = ts"
  by (rule splitOn_joinWith [OF names_slash])

lemma relative_inside:
  assumes "list_all nameOk ts" and "ts \<noteq> []"
  shows "joinWith [slash] ts \<noteq> dotdot" "\<not> HasPrefix (joinWith [slash] ts) (dotdot @ [slash])" "\<not> IsAbs (joinWith [slash] ts)"
proof -
  note parts = joinWith_not_Nil [OF assms]
  have hd: "nameOk (hd ts)" using assms by (cases ts) simp_all
  have "splitOn slash dotdot = [dotdot]" by (simp add: dotdot_def slash_def)
  then show "joinWith [slash] ts \<noteq> dotdot" using parts hd by (metis list.sel(1) nameOk_def)
  show "\<not> HasPrefix (joinWith [slash] ts) (dotdot @ [slash])"
  proof
    assume "HasPrefix (joinWith [slash] ts) (dotdot @ [slash])"
    then obtain x where "joinWith [slash] ts = dotdot @ [slash] @ x" by (auto simp: HasPrefix_def prefix_def)
    then have "ts = splitOn slash dotdot @ splitOn slash x" using parts splitOn_append [of slash dotdot x] by simp
    then show False using hd by (simp add: nameOk_def dotdot_def slash_def)
  qed
  show "\<not> IsAbs (joinWith [slash] ts)" using splitOn_IsAbs [of "joinWith [slash] ts"] parts hd by (metis list.sel(1) nameOk_def)
qed

lemma relative_outside:
  "joinWith [slash] (dotdot # ts) = dotdot \<or> HasPrefix (joinWith [slash] (dotdot # ts)) (dotdot @ [slash])"
  by (cases ts) (auto simp: HasPrefix_def joinWith_Cons)

lemma withinRoot_prefix:
  assumes ps: "list_all nameOk ps" and rs: "list_all nameOk rs"
  shows "withinRoot (fromParts True ps) (fromParts True rs) \<longleftrightarrow> prefix rs ps"
proof (cases "ps = rs")
  case False
  then have ne: "fromParts True ps \<noteq> fromParts True rs" using fromParts_inj [OF ps rs] by simp
  have nd: "fromParts True rs \<noteq> dot" by (simp add: fromParts_def dot_def slash_def)
  obtain bs ts where d: "dropCommon rs ps = (bs, ts)" by fastforce
  obtain cs where cs: "rs = cs @ bs" "ps = cs @ ts" using dropCommon_append [OF d] by blast
  have bs: "list_all nameOk bs" and ts: "list_all nameOk ts" using ps rs cs by simp_all
  have "\<not> (bs \<noteq> [] \<and> hd bs = dotdot)" using bs by (cases bs) (auto simp: nameOk_def)
  then have rel: "Rel (fromParts True rs) (fromParts True ps) = Some (joinWith [slash] (replicate (length bs) dotdot @ ts))"
    using ps rs ne nd d by (auto simp: Rel_def)
  have prefix: "prefix rs ps \<longleftrightarrow> bs = []" using dropCommon_prefix [of rs ps] d by simp
  show ?thesis
  proof (cases "bs = []")
    case True
    then have "ts \<noteq> []" using cs False by auto
    then show ?thesis using relative_inside [OF ts] True rel ne prefix by (simp add: withinRoot_def)
  next
    case False
    then obtain n where "length bs = Suc n" by (cases bs) auto
    then have "joinWith [slash] (replicate (length bs) dotdot @ ts) = joinWith [slash] (dotdot # replicate n dotdot @ ts)" by simp
    then show ?thesis
      using relative_outside [of "replicate n dotdot @ ts"] False rel ne prefix by (auto simp: withinRoot_def dot_def dotdot_def HasPrefix_def)
  qed
qed (simp add: withinRoot_def)

subsection \<open>Symbolic links\<close>

text \<open>
  What the loop looks for: the length of the longest initial part of the elements that
  \<open>EvalSymlinks\<close> resolves. A dangling link or a directory that cannot be read counts as missing.
\<close>

definition longestExisting :: "(string \<Rightarrow> string option) \<Rightarrow> string list \<Rightarrow> nat option" where
  "longestExisting evalSymlinks ws =
     find (\<lambda>k. evalSymlinks (fromParts True (take k ws)) \<noteq> None) (rev [0..<length ws + 1])"

lemma longestExisting_snoc:
  "longestExisting ev (us @ [w]) =
     (if ev (fromParts True (us @ [w])) \<noteq> None then Some (length us + 1) else longestExisting ev us)"
proof -
  have "find (\<lambda>k. ev (fromParts True (take k (us @ [w]))) \<noteq> None) (rev [0..<length us + 1]) =
      find (\<lambda>k. ev (fromParts True (take k us)) \<noteq> None) (rev [0..<length us + 1])"
    by (rule find_cong) (auto simp del: upt_Suc)
  then show ?thesis by (simp add: longestExisting_def del: upt_Suc) (simp add: upt_Suc)
qed

lemma longestExisting_le: "longestExisting ev us = Some k \<Longrightarrow> k \<le> length us \<and> ev (fromParts True (take k us)) \<noteq> None"
proof (induction us rule: rev_induct)
  case Nil
  then show ?case by (auto simp: longestExisting_def split: if_splits)
next
  case (snoc w us)
  then show ?case by (auto simp: longestExisting_snoc split: if_splits)
qed

lemma resolveFrom_names:
  assumes "list_all nameOk (us @ vs)"
  shows "resolveFrom ev p (joinWith [slash] vs) (fromParts True us) =
    (case longestExisting ev us of
       None \<Rightarrow> p
     | Some k \<Rightarrow> Clean (Join (the (ev (fromParts True (take k us)))) (joinWith [slash] (drop k us @ vs))))"
  using assms
proof (induction us arbitrary: vs rule: rev_induct)
  case Nil
  then show ?case
    by (subst resolveFrom.simps) (auto simp: longestExisting_def Dir_root split: option.splits)
next
  case (snoc w us)
  have names: "list_all nameOk (us @ [w])" "list_all nameOk (w # vs)" "list_all nameOk us" using snoc.prems by simp_all
  have ne: "fromParts True us \<noteq> fromParts True (us @ [w])" using fromParts_inj [OF names(3,1)] by simp
  show ?case
  proof (cases "ev (fromParts True (us @ [w]))")
    case None
    have "resolveFrom ev p (joinWith [slash] vs) (fromParts True (us @ [w])) =
        resolveFrom ev p (joinWith [slash] (w # vs)) (fromParts True us)"
      using None ne by (subst resolveFrom.simps) (simp add: Dir_fromParts [OF names(1)] Join_relative [OF names(2)])
    also have "\<dots> = (case longestExisting ev us of None \<Rightarrow> p
        | Some k \<Rightarrow> Clean (Join (the (ev (fromParts True (take k us)))) (joinWith [slash] (drop k us @ w # vs))))"
      by (rule snoc.IH) (use snoc.prems in simp)
    finally show ?thesis
      using None by (auto simp: longestExisting_snoc dest: longestExisting_le split: option.splits)
  next
    case (Some q)
    then show ?thesis by (subst resolveFrom.simps) (simp add: longestExisting_snoc)
  qed
qed

text \<open>
  C16: following symbolic links from the end of a path equals resolving its longest
  existing ancestor, where a path exists if \<open>EvalSymlinks\<close> resolves it. For an absolute path,
  the loop of \<open>resolveExisting\<close> stops, resolves the longest initial part that exists and
  appends the elements after it; if no part of the path exists, not even the root, it
  returns the cleaned path.
\<close>

theorem resolveExisting_longest:
  assumes "IsAbs p"
  shows "resolveExisting evalSymlinks p =
    (case longestExisting evalSymlinks (absParts p) of
       None \<Rightarrow> Clean p
     | Some k \<Rightarrow>
        Clean (Join (the (evalSymlinks (fromParts True (take k (absParts p))))) (joinWith [slash] (drop k (absParts p)))))"
  using resolveFrom_names [of "absParts p" "[]" evalSymlinks "Clean p"]
  by (simp add: resolveExisting_def Clean_abs [OF assms] split: option.splits)

lemma resolveExisting_clean:
  assumes abs: "IsAbs p" and law: "\<forall>p q. IsAbs p \<longrightarrow> evalSymlinks p = Some q \<longrightarrow> IsAbs q"
  shows "\<exists>ws. list_all nameOk ws \<and> resolveExisting evalSymlinks p = fromParts True ws"
proof (cases "longestExisting evalSymlinks (absParts p)")
  case None
  have "resolveExisting evalSymlinks p = fromParts True (absParts p)"
    using resolveFrom_names [of "absParts p" "[]" evalSymlinks "Clean p"] None
    by (simp add: resolveExisting_def Clean_abs [OF abs])
  then show ?thesis using absParts_names by blast
next
  case (Some k)
  then obtain q where q: "evalSymlinks (fromParts True (take k (absParts p))) = Some q"
    using longestExisting_le by blast
  then have "IsAbs q" using law IsAbs_fromParts by blast
  define x where "x = joinWith [slash] (drop k (absParts p))"
  have "resolveExisting evalSymlinks p = Clean (Join q x)"
    using resolveFrom_names [of "absParts p" "[]" evalSymlinks "Clean p"] Some q
    by (simp add: resolveExisting_def Clean_abs [OF abs] x_def)
  moreover have "IsAbs (q @ [slash] @ x)" "q \<noteq> []" using \<open>IsAbs q\<close> by (auto simp: IsAbs_def)
  ultimately have "resolveExisting evalSymlinks p = fromParts True (absParts (q @ [slash] @ x))"
    by (simp add: Join_def Clean_abs)
  then show ?thesis using absParts_names by blast
qed

lemma resolveRoots_clean:
  assumes "resolveRoots evalSymlinks roots = Inr rs" and "\<forall>p q. IsAbs p \<longrightarrow> evalSymlinks p = Some q \<longrightarrow> IsAbs q"
  shows "\<forall>r \<in> set rs. \<exists>ws. list_all nameOk ws \<and> r = fromParts True ws"
  using assms(1)
proof (induction roots arbitrary: rs)
  case (Cons r roots)
  then obtain rs' where r: "IsAbs r" and rs': "resolveRoots evalSymlinks roots = Inr rs'"
    and eq: "rs = Clean (case evalSymlinks r of None \<Rightarrow> r | Some real \<Rightarrow> real) # rs'"
    by (auto split: if_splits sum.splits)
  have "IsAbs (case evalSymlinks r of None \<Rightarrow> r | Some real \<Rightarrow> real)" using r assms(2) by (auto split: option.splits)
  then have "\<exists>ws. list_all nameOk ws \<and> Clean (case evalSymlinks r of None \<Rightarrow> r | Some real \<Rightarrow> real) = fromParts True ws"
    using Clean_abs absParts_names by blast
  then show ?case using Cons.IH [OF rs'] by (simp add: eq)
qed simp

lemma resolveIn_inside:
  assumes "resolveIn evalSymlinks roots input = Inr real"
    and "\<forall>p q. IsAbs p \<longrightarrow> evalSymlinks p = Some q \<longrightarrow> IsAbs q"
    and "\<forall>r \<in> set roots. \<exists>ws. list_all nameOk ws \<and> r = fromParts True ws"
  shows "\<exists>root \<in> set roots. \<exists>ps. list_all nameOk ps \<and> real = fromParts True ps \<and> prefix (elements root) ps"
  using assms(1,3)
proof (induction roots)
  case (Cons root roots)
  obtain rs where rs: "list_all nameOk rs" "root = fromParts True rs" using Cons.prems(2) by auto
  define cand where "cand = (if IsAbs input then Clean input else Clean (Join root input))"
  have "IsAbs cand"
    using Join_abs [OF rs(1), of input] by (auto simp: cand_def Clean_abs rs(2))
  from resolveExisting_clean [OF this assms(2)]
  obtain ps where ps: "list_all nameOk ps" "resolveExisting evalSymlinks cand = fromParts True ps" by blast
  show ?case
  proof (cases "withinRoot (resolveExisting evalSymlinks cand) root")
    case True
    then have "real = fromParts True ps" using Cons.prems(1) ps(2) by (simp add: Let_def flip: cand_def)
    moreover have "prefix (elements root) ps"
      using True withinRoot_prefix [OF ps(1) rs(1)] ps rs by simp
    ultimately show ?thesis using ps(1) by auto
  next
    case False
    then have "resolveIn evalSymlinks roots input = Inr real" using Cons.prems(1) by (simp add: Let_def flip: cand_def)
    then show ?thesis using Cons by auto
  qed
qed simp

text \<open>
  C15: the jail confines every path it resolves. Provided that resolving the links of an
  absolute path gives an absolute path, a path returned by \<open>Resolve\<close> is clean and
  absolute, has no \<open>..\<close> element, and its elements start with those of one of the roots:
  whatever the input and the links, it lies inside that root.
\<close>

theorem Resolve_jail_contained:
  assumes "NewJail evalSymlinks roots = Inr j"
    and "\<forall>p q. IsAbs p \<longrightarrow> evalSymlinks p = Some q \<longrightarrow> IsAbs q"
    and "Resolve_jail evalSymlinks' j input = Inr real"
    and "\<forall>p q. IsAbs p \<longrightarrow> evalSymlinks' p = Some q \<longrightarrow> IsAbs q"
  shows "IsAbs real \<and> Clean real = real \<and> dotdot \<notin> set (elements real) \<and>
    (\<exists>root \<in> set (jailRoots j). prefix (elements root) (elements real))"
proof -
  have "\<forall>r \<in> set (jailRoots j). \<exists>ws. list_all nameOk ws \<and> r = fromParts True ws"
    using assms(1) resolveRoots_clean [OF _ assms(2), of roots] by (auto simp: NewJail_def split: if_splits sum.splits)
  from resolveIn_inside [OF _ assms(4) this, of input real] assms(3)
  obtain root ps where "root \<in> set (jailRoots j)" and ps: "list_all nameOk ps" "real = fromParts True ps"
    and "prefix (elements root) ps"
    by (auto simp: Resolve_jail_def split: if_splits)
  moreover have "dotdot \<notin> set ps" using ps(1) by (auto simp: list_all_iff nameOk_def)
  ultimately show ?thesis by auto
qed

subsection \<open>Examples\<close>

text \<open>A file system with one root directory and one link into it.\<close>

definition exampleLinks :: "string \<Rightarrow> string option" where
  "exampleLinks p =
     (if p = ''/repo/link'' then Some ''/repo/src'' else if p = ''/repo/src'' \<or> p = ''/repo'' \<or> p = ''/'' then Some p else None)"

lemma exampleLinks_abs: "\<forall>p q. IsAbs p \<longrightarrow> exampleLinks p = Some q \<longrightarrow> IsAbs q"
  by (auto simp: exampleLinks_def IsAbs_def slash_def split: if_splits)

theorem resolveExisting_longest_witness:
  "resolveExisting exampleLinks ''/repo/link/new.txt'' = ''/repo/src/new.txt''"
proof -
  have "IsAbs ''/repo/link/new.txt''" by code_simp
  from resolveExisting_longest [OF this, of exampleLinks]
  show ?thesis by (rule trans) code_simp
qed

theorem Resolve_jail_contained_witness:
  "\<exists>root \<in> {''/repo''}. prefix (elements root) (elements ''/repo/src/new.txt'')"
proof -
  have jail: "NewJail exampleLinks [''/repo/'', ''/srv''] = Inr \<lparr>jailRoots = [''/repo'', ''/srv'']\<rparr>" by code_simp
  have real: "Resolve_jail exampleLinks \<lparr>jailRoots = [''/repo'', ''/srv'']\<rparr> ''a/../link/new.txt'' = Inr ''/repo/src/new.txt''"
    by code_simp
  have srv: "\<not> prefix (elements ''/srv'') (elements ''/repo/src/new.txt'')" by code_simp
  show ?thesis using Resolve_jail_contained [OF jail exampleLinks_abs real exampleLinks_abs] srv by auto
qed

text \<open>
  secret names are found in every segment. A path made of two parts is secret
  exactly if one of the parts is, so no directory before or after a secret name hides it,
  whether the separator is a slash or a backslash.
\<close>

theorem IsSecretPath_segments:
  "(IsSecretPath (a @ [slash] @ b) \<longleftrightarrow> IsSecretPath a \<or> IsSecretPath b) \<and>
   (IsSecretPath (a @ [backslash] @ b) \<longleftrightarrow> IsSecretPath a \<or> IsSecretPath b)"
proof -
  let ?n = "map (\<lambda>c. if c = backslash then slash else c)"
  have all: "IsSecretPath p \<longleftrightarrow> list_ex secretSegment (splitOn slash (?n p))" for p
    by (simp add: IsSecretPath_def secretSegment_def)
  have "?n (a @ [slash] @ b) = ?n a @ [slash] @ ?n b" "?n (a @ [backslash] @ b) = ?n a @ [slash] @ ?n b"
    by simp_all
  then show ?thesis unfolding all by (simp only: splitOn_append) simp
qed

end
