(* ===== verification/Policy_Grants.thy ===== *)
theory Policy_Grants
  imports Policy_Jail "HOL-Library.AList"
begin

text \<open>
  The access grants of \<open>internal/policy/grants.go\<close>: requests for secret paths, their
  approval by a local human, and the single use of an approved grant. The maps are
  association lists; the clock and the random identifiers are arguments of the
  operations. The traces at the end record what was requested, approved and used.
\<close>

subsection \<open>State and operations\<close>

definition minGrantTTL :: duration where
  "minGrantTTL = second"
definition defaultGrantTTL :: duration where
  "defaultGrantTTL = 5 * minute"
definition maxGrantTTL :: duration where
  "maxGrantTTL = hour"
definition pendingRequestTTL :: duration where
  "pendingRequestTTL = 15 * minute"
definition maxPendingAccessRequests :: nat where
  "maxPendingAccessRequests = 256"

record AccessRequest =
  rqID :: string
  rqPath :: string
  rqReason :: string
  rqRawRequested :: bool
  rqCreatedAt :: gotime
  rqExpiresAt :: gotime

record AccessDecision =
  dcRequestID :: string
  dcPath :: string
  dcRaw :: bool
  dcExpiresAt :: gotime

record readGrant =
  rgPath :: string
  rgRaw :: bool
  rgExpiresAt :: gotime
  rgUsed :: bool

record AccessGrants =
  agRequests :: "(string \<times> AccessRequest) list"
  agGrants :: "(string \<times> readGrant) list"

definition NewAccessGrants :: AccessGrants where
  "NewAccessGrants = \<lparr>agRequests = [], agGrants = []\<rparr>"

definition pruneExpiredLocked :: "gotime \<Rightarrow> AccessGrants \<Rightarrow> AccessGrants" where
  "pruneExpiredLocked now g =
     g\<lparr>agRequests := filter (\<lambda>(i, r). \<not> now > rqExpiresAt r) (agRequests g),
       agGrants := filter (\<lambda>(i, r). \<not> now > rgExpiresAt r) (agGrants g)\<rparr>"

text \<open>\<open>newID\<close> is the result of the random source, \<^const>\<open>None\<close> for its error.\<close>

definition Request ::
  "gotime \<Rightarrow> string option \<Rightarrow> string \<Rightarrow> bool \<Rightarrow> AccessGrants \<Rightarrow> AccessGrants \<times> (policyError + AccessRequest)" where
  "Request now newID path raw g0 =
     (case newID of
        None \<Rightarrow> (g0, Inl ErrRandom)
      | Some i \<Rightarrow>
         let g = pruneExpiredLocked now g0
         in if length (agRequests g) \<ge> maxPendingAccessRequests then (g, Inl ErrAccessRequestLimit)
            else
              let req = \<lparr>rqID = i, rqPath = path, rqReason = ''secret path read requires local human approval'',
                         rqRawRequested = raw, rqCreatedAt = now, rqExpiresAt = now + pendingRequestTTL\<rparr>
              in (g\<lparr>agRequests := AList.update i req (agRequests g)\<rparr>, Inr req))"

definition Approve ::
  "gotime \<Rightarrow> string \<Rightarrow> bool \<Rightarrow> duration \<Rightarrow> AccessGrants \<Rightarrow> AccessGrants \<times> (policyError + AccessDecision)" where
  "Approve now i raw ttl0 g0 =
     (case map_of (agRequests g0) i of
        None \<Rightarrow> (g0, Inl ErrAccessGrantInvalid)
      | Some req \<Rightarrow>
         if now > rqExpiresAt req then
           (g0\<lparr>agRequests := AList.delete i (agRequests g0)\<rparr>, Inl ErrAccessRequestExpired)
         else
           let g = pruneExpiredLocked now g0;
               ttl = (if ttl0 = 0 then defaultGrantTTL else ttl0)
           in if ttl < minGrantTTL \<or> ttl > maxGrantTTL then (g, Inl ErrAccessGrantTTL)
              else
                let decision = \<lparr>dcRequestID = i, dcPath = rqPath req, dcRaw = raw, dcExpiresAt = now + ttl\<rparr>
                in (g\<lparr>agGrants := AList.update i
                         \<lparr>rgPath = rqPath req, rgRaw = raw, rgExpiresAt = dcExpiresAt decision, rgUsed = False\<rparr> (agGrants g),
                       agRequests := AList.delete i (agRequests g)\<rparr>, Inr decision))"

definition Consume ::
  "gotime \<Rightarrow> string \<Rightarrow> string \<Rightarrow> bool \<Rightarrow> AccessGrants \<Rightarrow> AccessGrants \<times> (policyError + bool)" where
  "Consume now i path raw g =
     (case map_of (agGrants g) i of
        None \<Rightarrow> (g, Inl ErrAccessGrantInvalid)
      | Some grant \<Rightarrow>
         if rgUsed grant then (g, Inl ErrAccessGrantUsed)
         else if now > rgExpiresAt grant then
           (g\<lparr>agGrants := AList.delete i (agGrants g)\<rparr>, Inl ErrAccessGrantExpired)
         else if rgPath grant \<noteq> path then (g, Inl ErrAccessGrantPathMismatch)
         else if raw \<and> \<not> rgRaw grant then (g, Inl ErrRawAccessDenied)
         else (g\<lparr>agGrants := AList.update i (grant\<lparr>rgUsed := True\<rparr>) (agGrants g)\<rparr>, Inr (rgRaw grant)))"

subsection \<open>Traces\<close>

datatype grantEvent =
    Requested string string bool gotime
  | Approved string bool gotime gotime
  | Consumed string string bool gotime

fun eventID :: "grantEvent \<Rightarrow> string" where
  "eventID (Requested i path raw t) = i"
| "eventID (Approved i raw expires t) = i"
| "eventID (Consumed i path raw t) = i"

text \<open>
  The states the operations reach, with the successful operations so far, the latest
  first. A request gets an identifier that was not used before, as the 128 random bits
  of \<open>randomID\<close> provide.
\<close>

inductive grantRun :: "grantEvent list \<Rightarrow> AccessGrants \<Rightarrow> bool" where
  initial: "grantRun [] NewAccessGrants"
| requested: "grantRun tr g \<Longrightarrow> Request now (Some i) path raw g = (g', Inr req) \<Longrightarrow> i \<notin> eventID ` set tr \<Longrightarrow>
    grantRun (Requested i path raw now # tr) g'"
| requestFails: "grantRun tr g \<Longrightarrow> Request now newID path raw g = (g', Inl e) \<Longrightarrow> grantRun tr g'"
| approved: "grantRun tr g \<Longrightarrow> Approve now i raw ttl g = (g', Inr decision) \<Longrightarrow>
    grantRun (Approved i raw (dcExpiresAt decision) now # tr) g'"
| approveFails: "grantRun tr g \<Longrightarrow> Approve now i raw ttl g = (g', Inl e) \<Longrightarrow> grantRun tr g'"
| consumed: "grantRun tr g \<Longrightarrow> Consume now i path raw g = (g', Inr b) \<Longrightarrow> grantRun (Consumed i path raw now # tr) g'"
| consumeFails: "grantRun tr g \<Longrightarrow> Consume now i path raw g = (g', Inl e) \<Longrightarrow> grantRun tr g'"

text \<open>What a pending request and a grant in the state say about the trace.\<close>

definition requestJustified :: "grantEvent list \<Rightarrow> string \<Rightarrow> AccessRequest \<Rightarrow> bool" where
  "requestJustified tr i r \<longleftrightarrow>
     Requested i (rqPath r) (rqRawRequested r) (rqCreatedAt r) \<in> set tr \<and> rqExpiresAt r = rqCreatedAt r + pendingRequestTTL \<and>
     (\<forall>raw expires t. Approved i raw expires t \<notin> set tr) \<and> (\<forall>path raw t. Consumed i path raw t \<notin> set tr)"

definition grantOrigin :: "grantEvent list \<Rightarrow> string \<Rightarrow> string \<Rightarrow> bool \<Rightarrow> gotime \<Rightarrow> bool" where
  "grantOrigin tr i path raw expires \<longleftrightarrow>
     (\<exists>raw0 t0 t1. Requested i path raw0 t0 \<in> set tr \<and> Approved i raw expires t1 \<in> set tr \<and>
        t1 \<le> t0 + pendingRequestTTL \<and> t1 + minGrantTTL \<le> expires \<and> expires \<le> t1 + maxGrantTTL)"

definition grantJustified :: "grantEvent list \<Rightarrow> string \<Rightarrow> readGrant \<Rightarrow> bool" where
  "grantJustified tr i r \<longleftrightarrow>
     grantOrigin tr i (rgPath r) (rgRaw r) (rgExpiresAt r) \<and>
     (\<not> rgUsed r \<longrightarrow> (\<forall>path raw t. Consumed i path raw t \<notin> set tr))"

definition grantsInv :: "grantEvent list \<Rightarrow> AccessGrants \<Rightarrow> bool" where
  "grantsInv tr g \<longleftrightarrow>
     (\<forall>i r. map_of (agRequests g) i = Some r \<longrightarrow> requestJustified tr i r) \<and>
     (\<forall>i r. map_of (agGrants g) i = Some r \<longrightarrow> grantJustified tr i r) \<and>
     distinct (map fst (agRequests g)) \<and> distinct (map fst (agGrants g))"

lemma map_of_filter_Some: "distinct (map fst xs) \<Longrightarrow> map_of (filter P xs) i = Some r \<Longrightarrow> map_of xs i = Some r"
  by (meson filter_is_subset map_of_SomeD map_of_is_SomeI subsetD)

lemma grantsInv_prune: "grantsInv tr g \<Longrightarrow> grantsInv tr (pruneExpiredLocked now g)"
  unfolding grantsInv_def pruneExpiredLocked_def
  by (auto simp: distinct_map_filter dest: map_of_filter_Some)

lemma grantsInv_delete:
  "grantsInv tr g \<Longrightarrow> grantsInv tr (g\<lparr>agRequests := AList.delete i (agRequests g)\<rparr>)"
  "grantsInv tr g \<Longrightarrow> grantsInv tr (g\<lparr>agGrants := AList.delete i (agGrants g)\<rparr>)"
  unfolding grantsInv_def by (auto simp: delete_conv' distinct_delete split: if_splits)

lemma requestJustified_mono:
  "requestJustified tr i r \<Longrightarrow> eventID e \<noteq> i \<Longrightarrow> requestJustified (e # tr) i r"
  by (auto simp: requestJustified_def)

lemma grantOrigin_mono: "grantOrigin tr i path raw expires \<Longrightarrow> grantOrigin (e # tr) i path raw expires"
  unfolding grantOrigin_def by (meson list.set_intros(2))

lemma grantJustified_mono:
  "grantJustified tr i r \<Longrightarrow> eventID e \<noteq> i \<or> (\<forall>path raw t. e \<noteq> Consumed i path raw t) \<Longrightarrow> grantJustified (e # tr) i r"
  by (auto simp: grantJustified_def grantOrigin_mono)

lemma justified_ids:
  "requestJustified tr i r \<Longrightarrow> i \<in> eventID ` set tr"
  "grantJustified tr i q \<Longrightarrow> i \<in> eventID ` set tr"
  by (force simp: requestJustified_def grantJustified_def grantOrigin_def)+

lemma Request_inv:
  assumes "grantsInv tr g" and op: "Request now (Some i) path raw g = (g', Inr req)" and fresh: "i \<notin> eventID ` set tr"
  shows "grantsInv (Requested i path raw now # tr) g'"
proof -
  define h where "h = pruneExpiredLocked now g"
  have h: "grantsInv tr h" unfolding h_def by (rule grantsInv_prune [OF assms(1)])
  have req: "rqPath req = path" "rqRawRequested req = raw" "rqCreatedAt req = now" "rqExpiresAt req = now + pendingRequestTTL"
    and g': "g' = h\<lparr>agRequests := AList.update i req (agRequests h)\<rparr>"
    using op by (auto simp: Request_def Let_def h_def split: if_splits)
  have "requestJustified (Requested i path raw now # tr) i req"
    using fresh by (force simp: requestJustified_def req)
  moreover have "requestJustified (Requested i path raw now # tr) k r" if "map_of (agRequests h) k = Some r" for k r
    using h that fresh justified_ids(1) [of tr k r] by (auto simp: grantsInv_def intro!: requestJustified_mono)
  moreover have "grantJustified (Requested i path raw now # tr) k r" if "map_of (agGrants h) k = Some r" for k r
    using h that by (auto simp: grantsInv_def intro: grantJustified_mono)
  ultimately show ?thesis using h unfolding g' grantsInv_def by (auto simp: update_conv' distinct_update split: if_splits)
qed

lemma Approve_inv:
  assumes "grantsInv tr g" and op: "Approve now i raw ttl g = (g', Inr d)"
  shows "grantsInv (Approved i raw (dcExpiresAt d) now # tr) g'"
proof -
  define h where "h = pruneExpiredLocked now g"
  have h: "grantsInv tr h" unfolding h_def by (rule grantsInv_prune [OF assms(1)])
  define q where "q = the (map_of (agRequests g) i)"
  define new where "new = \<lparr>rgPath = rqPath q, rgRaw = raw, rgExpiresAt = dcExpiresAt d, rgUsed = False\<rparr>"
  have q: "map_of (agRequests g) i = Some q" "now \<le> rqExpiresAt q"
    and ttl: "now + minGrantTTL \<le> dcExpiresAt d" "dcExpiresAt d \<le> now + maxGrantTTL"
    and g': "g' = h\<lparr>agGrants := AList.update i new (agGrants h), agRequests := AList.delete i (agRequests h)\<rparr>"
    using op by (auto simp: Approve_def Let_def h_def q_def new_def split: if_splits option.splits)
  have "requestJustified tr i q" using assms(1) q(1) by (auto simp: grantsInv_def)
  then have "grantJustified (Approved i raw (dcExpiresAt d) now # tr) i new"
    using q(2) ttl by (auto simp: grantJustified_def grantOrigin_def requestJustified_def new_def)
  moreover have "requestJustified (Approved i raw (dcExpiresAt d) now # tr) k r"
    if "map_of (agRequests h) k = Some r" "k \<noteq> i" for k r
    using h that by (auto simp: grantsInv_def intro!: requestJustified_mono)
  moreover have "grantJustified (Approved i raw (dcExpiresAt d) now # tr) k r" if "map_of (agGrants h) k = Some r" for k r
    using h that by (auto simp: grantsInv_def intro: grantJustified_mono)
  ultimately show ?thesis
    using h unfolding g' grantsInv_def by (auto simp: update_conv' delete_conv' distinct_update distinct_delete split: if_splits)
qed

lemma Consume_grant:
  assumes "Consume now i path raw g = (g', Inr b)"
  obtains r where "map_of (agGrants g) i = Some r" "\<not> rgUsed r" "now \<le> rgExpiresAt r" "rgPath r = path"
    "raw \<longrightarrow> rgRaw r" "b = rgRaw r" "g' = g\<lparr>agGrants := AList.update i (r\<lparr>rgUsed := True\<rparr>) (agGrants g)\<rparr>"
proof (cases "map_of (agGrants g) i")
  case None
  then show ?thesis using assms by (simp add: Consume_def)
next
  case (Some r)
  show ?thesis by (rule that [OF Some]) (use assms Some in \<open>simp_all add: Consume_def split: if_splits\<close>)
qed

lemma Consume_inv:
  assumes inv: "grantsInv tr g" and op: "Consume now i path raw g = (g', Inr b)"
  shows "grantsInv (Consumed i path raw now # tr) g'"
proof -
  obtain r where r: "map_of (agGrants g) i = Some r"
    and g': "g' = g\<lparr>agGrants := AList.update i (r\<lparr>rgUsed := True\<rparr>) (agGrants g)\<rparr>"
    using op by (rule Consume_grant)
  have origin: "grantOrigin tr i (rgPath r) (rgRaw r) (rgExpiresAt r)" using inv r by (auto simp: grantsInv_def grantJustified_def)
  then have "grantJustified (Consumed i path raw now # tr) i (r\<lparr>rgUsed := True\<rparr>)"
    by (simp add: grantJustified_def grantOrigin_mono)
  moreover have "requestJustified (Consumed i path raw now # tr) k q" if "map_of (agRequests g) k = Some q" for k q
  proof -
    have q: "requestJustified tr k q" using inv that by (auto simp: grantsInv_def)
    then have "k \<noteq> i" using origin by (auto simp: requestJustified_def grantOrigin_def)
    then show ?thesis using q by (intro requestJustified_mono) simp_all
  qed
  moreover have "grantJustified (Consumed i path raw now # tr) k q" if "map_of (agGrants g) k = Some q" "k \<noteq> i" for k q
    using inv that by (auto simp: grantsInv_def intro!: grantJustified_mono)
  ultimately show ?thesis
    using inv unfolding g' grantsInv_def by (auto simp: update_conv' distinct_update split: if_splits)
qed

lemma fails_inv:
  assumes "grantsInv tr g"
  shows "Request now newID path raw g = (g', Inl e) \<Longrightarrow> grantsInv tr g'"
    "Approve now i raw ttl g = (g', Inl e) \<Longrightarrow> grantsInv tr g'"
    "Consume now i path raw g = (g', Inl e) \<Longrightarrow> grantsInv tr g'"
  using assms grantsInv_prune [OF assms] grantsInv_delete [OF assms]
  by (auto simp: Request_def Approve_def Consume_def Let_def split: if_splits option.splits)

lemma grantRun_inv: "grantRun tr g \<Longrightarrow> grantsInv tr g"
proof (induction rule: grantRun.induct)
  case initial
  show ?case by (simp add: grantsInv_def NewAccessGrants_def)
qed (blast intro: Request_inv Approve_inv Consume_inv fails_inv)+

lemma grantRun_suffix: "grantRun (post @ pre) g \<Longrightarrow> \<exists>h. grantRun pre h"
proof (induction "post @ pre" g arbitrary: post rule: grantRun.induct)
  case initial
  then show ?case using grantRun.initial by auto
qed (auto simp: Cons_eq_append_conv intro: grantRun.intros)

lemma grantRun_consumed:
  assumes "grantRun (Consumed i path raw t # pre) g"
  obtains h g' b where "grantRun pre h" "Consume t i path raw h = (g', Inr b)"
  using assms by (induction "Consumed i path raw t # pre" g rule: grantRun.induct) auto

text \<open>
  C14: every use of a grant was requested, approved and is the only one. In every history
  of the operations, a grant that is consumed for a path was requested before for exactly
  that path and approved within the time a request stays pending, for raw content if raw
  content is read; the use comes before the approved expiry, which is between one second
  and one hour after the approval; and the same identifier was never consumed before.
\<close>

theorem grant_uses_justified:
  assumes "grantRun (post @ Consumed i path raw t # pre) g"
  shows "(\<exists>raw0 t0 raw1 t1 expires. Requested i path raw0 t0 \<in> set pre \<and> Approved i raw1 expires t1 \<in> set pre \<and>
      t1 \<le> t0 + pendingRequestTTL \<and> (raw \<longrightarrow> raw1) \<and> t \<le> expires \<and>
      t1 + minGrantTTL \<le> expires \<and> expires \<le> t1 + maxGrantTTL) \<and>
    (\<forall>path' raw' t'. Consumed i path' raw' t' \<notin> set pre)"
proof -
  obtain h0 where "grantRun (Consumed i path raw t # pre) h0" using grantRun_suffix [OF assms] by blast
  then obtain h g' b where h: "grantRun pre h" and op: "Consume t i path raw h = (g', Inr b)" by (rule grantRun_consumed)
  obtain r where r: "map_of (agGrants h) i = Some r" "\<not> rgUsed r" "t \<le> rgExpiresAt r" "rgPath r = path" "raw \<longrightarrow> rgRaw r"
    using op by (rule Consume_grant)
  have "grantJustified pre i r" using grantRun_inv [OF h] r(1) by (auto simp: grantsInv_def)
  then show ?thesis using r(2-) unfolding grantJustified_def grantOrigin_def by blast
qed

definition exampleRequest :: AccessGrants where
  "exampleRequest = fst (Request 0 (Some ''r1'') ''/repo/.env'' True NewAccessGrants)"

definition exampleApproved :: AccessGrants where
  "exampleApproved = fst (Approve second ''r1'' True 0 exampleRequest)"

lemma exampleTrace:
  "grantRun [Consumed ''r1'' ''/repo/.env'' True (2 * second), Approved ''r1'' True (second + defaultGrantTTL) second,
     Requested ''r1'' ''/repo/.env'' True 0] (fst (Consume (2 * second) ''r1'' ''/repo/.env'' True exampleApproved))"
proof -
  have "grantRun [Requested ''r1'' ''/repo/.env'' True 0] exampleRequest"
    by (rule grantRun.requested [OF grantRun.initial]) (simp_all add: exampleRequest_def Request_def NewAccessGrants_def
        pruneExpiredLocked_def maxPendingAccessRequests_def Let_def)
  moreover have "Approve second ''r1'' True 0 exampleRequest =
      (exampleApproved, Inr \<lparr>dcRequestID = ''r1'', dcPath = ''/repo/.env'', dcRaw = True, dcExpiresAt = second + defaultGrantTTL\<rparr>)"
    unfolding exampleApproved_def by code_simp
  ultimately have run: "grantRun [Approved ''r1'' True (second + defaultGrantTTL) second, Requested ''r1'' ''/repo/.env'' True 0] exampleApproved"
    using grantRun.approved by fastforce
  have "snd (Consume (2 * second) ''r1'' ''/repo/.env'' True exampleApproved) = Inr True" by code_simp
  then have "Consume (2 * second) ''r1'' ''/repo/.env'' True exampleApproved =
      (fst (Consume (2 * second) ''r1'' ''/repo/.env'' True exampleApproved), Inr True)" by (intro prod_eqI) simp_all
  then show ?thesis by (rule grantRun.consumed [OF run])
qed

theorem grant_uses_justified_witness:
  "Approved ''r1'' True (second + defaultGrantTTL) second \<in>
     set [Approved ''r1'' True (second + defaultGrantTTL) second, Requested ''r1'' ''/repo/.env'' True 0] \<and>
   2 * second \<le> second + defaultGrantTTL"
  using grant_uses_justified [of "[]", simplified, OF exampleTrace] by auto
end
