(* ===== verification/Policy_Gate.thy ===== *)
theory Policy_Gate
  imports Policy_Grants
begin

text \<open>
  The decision surface of \<open>internal/policy\<close>: the command gate (\<open>commands.go\<close>), the
  configuration it is built from (\<open>internal/config\<close>) and the checks that every tool
  calls (\<open>policy.go\<close>). Operations that consult the grants return the policy with the
  grants updated. \<open>ToLower\<close> is that of \<open>Go_Strings\<close>: it changes ASCII letters only.
\<close>

subsection \<open>Commands\<close>

definition alwaysBlockedPrograms :: "string list" where
  "alwaysBlockedPrograms =
     [''sh'', ''bash'', ''zsh'', ''fish'', ''ksh'', ''dash'', ''csh'', ''tcsh'',
      ''cmd'', ''command'', ''powershell'', ''pwsh'', ''sudo'', ''doas'', ''su'', ''runas'',
      ''curl'', ''wget'', ''nc'', ''ncat'', ''netcat'', ''telnet'', ''format'', ''mkfs'', ''dd'', ''iex'']"

definition shellMetacharacters :: string where
  "shellMetacharacters = '';|&'' @ [CHR 0x60] @ ''$<>'' @ [CHR 0x0A, CHR 0x0D, CHR 0x09]"

definition ContainsAny :: "string \<Rightarrow> string \<Rightarrow> bool" where
  "ContainsAny s chars = list_ex (\<lambda>c. c \<in> set chars) s"

definition TrimSuffix :: "string \<Rightarrow> string \<Rightarrow> string" where
  "TrimSuffix s suf = (if HasSuffix s suf then take (length s - length suf) s else s)"

definition normProgram :: "string \<Rightarrow> string" where
  "normProgram prog = TrimSuffix (ToLower (Base prog)) ''.exe''"

definition isBareProgramName :: "string \<Rightarrow> bool" where
  "isBareProgramName prog =
     (if prog = [] \<or> TrimSpace prog \<noteq> prog then False
      else if ContainsAny prog [slash, backslash, CHR '':''] then False
      else Base prog = prog)"

definition programAllowed :: "string list \<Rightarrow> string \<Rightarrow> bool" where
  "programAllowed allowed b = list_ex (\<lambda>a. normProgram a = b) allowed"

definition hasFlag :: "string list \<Rightarrow> char \<Rightarrow> string \<Rightarrow> bool" where
  "hasFlag args short long =
     list_ex (\<lambda>a. a = ''--'' @ long \<or>
       length a \<ge> 2 \<and> a ! 0 = CHR ''-'' \<and> a ! 1 \<noteq> CHR ''-'' \<and> short \<in> set (drop 1 a)) args"

definition containsAny :: "string list \<Rightarrow> string list \<Rightarrow> bool" where
  "containsAny args subs = list_ex (\<lambda>a. a \<in> set subs) args"

definition isDestructiveInvocation :: "string \<Rightarrow> string list \<Rightarrow> bool" where
  "isDestructiveInvocation b args =
     (let lower = map ToLower args; joined = joinWith '' '' lower
      in if b = ''rm'' then
           (hasFlag lower (CHR ''r'') ''recursive'' \<or> Contains joined ''-rf'' \<or> Contains joined ''-fr'') \<and>
           (hasFlag lower (CHR ''f'') ''force'' \<or> Contains joined ''-rf'' \<or> Contains joined ''-fr'')
         else if b = ''rmdir'' \<or> b = ''rd'' then containsAny lower [''/s'', ''/q'']
         else if b = ''del'' \<or> b = ''erase'' then containsAny lower [''/s'', ''/q'', ''/f'']
         else if b = ''chmod'' then
           (hasFlag lower (CHR ''r'') ''recursive'' \<or> Contains joined ''-r'') \<and> Contains joined ''777''
         else if b = ''chown'' then hasFlag lower (CHR ''r'') ''recursive''
         else if b = ''git'' then
           length args > 0 \<and>
           (hd lower = ''push'' \<or> hd lower = ''clean'' \<or> hd lower = ''reset'' \<and> containsAny lower [''--hard''])
         else False)"

definition CheckCommand :: "string list \<Rightarrow> string \<Rightarrow> string list \<Rightarrow> policyError option" where
  "CheckCommand allowed prog args =
     (if TrimSpace prog = [] then Some ErrCommandNotAllowed
      else if list_ex (\<lambda>tok. ContainsAny tok shellMetacharacters \<or> CHR 0x00 \<in> set tok) (prog # args) then
        Some ErrCommandInjection
      else if normProgram prog \<in> set alwaysBlockedPrograms then Some ErrCommandDestructive
      else if \<not> isBareProgramName prog then Some ErrCommandPathQualified
      else if \<not> programAllowed allowed (normProgram prog) then Some ErrCommandNotAllowed
      else if isDestructiveInvocation (normProgram prog) args then Some ErrCommandDestructive
      else None)"

subsection \<open>Configuration\<close>

type_synonym Mode = string

definition ModeReadOnly :: Mode where
  "ModeReadOnly = ''read-only''"
definition ModeAsk :: Mode where
  "ModeAsk = ''ask''"
definition ModeAllow :: Mode where
  "ModeAllow = ''allow''"

record Config =
  cfRoots :: "string list"
  cfMode :: Mode
  cfAllowedCommands :: "string list"
  cfTestCommand :: "string list"
  cfAuditPath :: string
  cfSandboxBackend :: string

definition KnownSandboxBackends :: "string list" where
  "KnownSandboxBackends = [''private-rootless'', ''docker'', ''nsjail'', ''gvisor'']"

definition NormalizeMode :: "Mode \<Rightarrow> policyError + Mode" where
  "NormalizeMode mode =
     (if mode = [] then Inr ModeReadOnly
      else if mode = ModeReadOnly \<or> mode = ModeAsk \<or> mode = ModeAllow then Inr mode
      else Inl ErrUnknownMode)"

definition SecureDefaults :: Config where
  "SecureDefaults = \<lparr>cfRoots = [], cfMode = ModeReadOnly, cfAllowedCommands = [''git'', ''go'', ''ls'', ''cat''],
     cfTestCommand = [], cfAuditPath = [], cfSandboxBackend = []\<rparr>"

definition New_config :: "Config \<Rightarrow> policyError + Config" where
  "New_config c =
     (if length (cfRoots c) = 0 then Inl ErrNoRoots
      else if list_ex (\<lambda>r. \<not> IsAbs r) (cfRoots c) then Inl ErrRootNotAbsolute
      else
        case NormalizeMode (cfMode c) of
          Inl e \<Rightarrow> Inl e
        | Inr mode \<Rightarrow>
           let cleaned = c\<lparr>cfRoots := map Clean (cfRoots c), cfMode := mode\<rparr>;
               b = ToLower (TrimSpace (cfSandboxBackend c))
           in if b = [] \<or> b = ''none'' then Inr (cleaned\<lparr>cfSandboxBackend := ''none''\<rparr>)
              else if b \<notin> set KnownSandboxBackends then Inl ErrUnknownSandboxBackend
              else Inr (cleaned\<lparr>cfSandboxBackend := b\<rparr>))"

subsection \<open>The policy\<close>

record Policy =
  plJail :: Jail
  plAllowed :: "string list"
  plMode :: Mode
  plGrants :: AccessGrants

definition NewPolicy :: "(string \<Rightarrow> string option) \<Rightarrow> Config \<Rightarrow> policyError + Policy" where
  "NewPolicy evalSymlinks cfg =
     (case NewJail evalSymlinks (cfRoots cfg) of
        Inl e \<Rightarrow> Inl e
      | Inr jail \<Rightarrow>
         (case NormalizeMode (cfMode cfg) of
            Inl e \<Rightarrow> Inl e
          | Inr mode \<Rightarrow>
              Inr \<lparr>plJail = jail, plAllowed = cfAllowedCommands cfg, plMode = mode, plGrants = NewAccessGrants\<rparr>))"

definition CheckContainedExecution :: "Policy \<Rightarrow> policyError option" where
  "CheckContainedExecution p =
     (if plMode p = ModeReadOnly then Some ErrReadOnly
      else if plMode p = ModeAllow then None
      else if plMode p = ModeAsk then Some ErrExecutionRequiresAllow
      else Some ErrUnknownMode)"

definition CheckRead :: "(string \<Rightarrow> string option) \<Rightarrow> Policy \<Rightarrow> string \<Rightarrow> policyError + string" where
  "CheckRead evalSymlinks p path =
     (if IsSecretPath path then Inl ErrSecretDenied
      else
        case Resolve_jail evalSymlinks (plJail p) path of
          Inl e \<Rightarrow> Inl e
        | Inr resolved \<Rightarrow> if IsSecretPath resolved then Inl ErrSecretDenied else Inr resolved)"

text \<open>\<^const>\<open>None\<close> in the result of \<open>RequestReadAccess\<close> is the empty request of a path that is not secret.\<close>

definition RequestReadAccess ::
  "(string \<Rightarrow> string option) \<Rightarrow> gotime \<Rightarrow> string option \<Rightarrow> Policy \<Rightarrow> string \<Rightarrow> bool \<Rightarrow>
     Policy \<times> (policyError + AccessRequest option)" where
  "RequestReadAccess evalSymlinks now newID p path raw =
     (case Resolve_jail evalSymlinks (plJail p) path of
        Inl e \<Rightarrow> (p, Inl e)
      | Inr resolved \<Rightarrow>
         if \<not> IsSecretPath path \<and> \<not> IsSecretPath resolved then (p, Inr None)
         else
           case Request now newID resolved raw (plGrants p) of
             (g, Inl e) \<Rightarrow> (p\<lparr>plGrants := g\<rparr>, Inl e)
           | (g, Inr req) \<Rightarrow> (p\<lparr>plGrants := g\<rparr>, Inr (Some req)))"

definition ApproveReadAccess ::
  "gotime \<Rightarrow> Policy \<Rightarrow> string \<Rightarrow> bool \<Rightarrow> duration \<Rightarrow> Policy \<times> (policyError + AccessDecision)" where
  "ApproveReadAccess now p requestID raw ttl =
     (case Approve now requestID raw ttl (plGrants p) of (g, result) \<Rightarrow> (p\<lparr>plGrants := g\<rparr>, result))"

definition ConsumeReadGrant ::
  "(string \<Rightarrow> string option) \<Rightarrow> gotime \<Rightarrow> Policy \<Rightarrow> string \<Rightarrow> string \<Rightarrow> bool \<Rightarrow> Policy \<times> (policyError + bool)" where
  "ConsumeReadGrant evalSymlinks now p requestID path raw =
     (case Resolve_jail evalSymlinks (plJail p) path of
        Inl e \<Rightarrow> (p, Inl e)
      | Inr resolved \<Rightarrow>
         (case Consume now requestID resolved raw (plGrants p) of (g, result) \<Rightarrow> (p\<lparr>plGrants := g\<rparr>, result)))"

definition CheckReadWithAccess ::
  "(string \<Rightarrow> string option) \<Rightarrow> gotime \<Rightarrow> string option \<Rightarrow> Policy \<Rightarrow> string \<Rightarrow> string \<Rightarrow> bool \<Rightarrow>
     Policy \<times> (policyError + string \<times> bool)" where
  "CheckReadWithAccess evalSymlinks now newID p path requestID raw =
     (case Resolve_jail evalSymlinks (plJail p) path of
        Inl e \<Rightarrow> (p, Inl e)
      | Inr resolved \<Rightarrow>
         if \<not> IsSecretPath path \<and> \<not> IsSecretPath resolved then (p, Inr (resolved, False))
         else if requestID = [] then
           (case RequestReadAccess evalSymlinks now newID p resolved raw of
              (p', Inl e) \<Rightarrow> (p', Inl e)
            | (p', Inr None) \<Rightarrow> (p', Inl (AccessRequired [] [] [] False))
            | (p', Inr (Some req)) \<Rightarrow>
                (p', Inl (AccessRequired (rqID req) (rqPath req) (rqReason req) (rqRawRequested req))))
         else
           (case ConsumeReadGrant evalSymlinks now p requestID resolved raw of
              (p', Inl e) \<Rightarrow> (p', Inl e)
            | (p', Inr rawAllowed) \<Rightarrow> (p', Inr (resolved, rawAllowed))))"

text \<open>The write and command posture: whether the action needs approval.\<close>

definition CheckAction :: "Policy \<Rightarrow> policyError + bool" where
  "CheckAction p =
     (if plMode p = ModeReadOnly then Inl ErrReadOnly
      else if plMode p = ModeAsk then Inr True
      else if plMode p = ModeAllow then Inr False
      else Inl ErrUnknownMode)"

definition CheckSandboxExec :: "Policy \<Rightarrow> policyError + bool" where
  "CheckSandboxExec p = CheckAction p"

definition CheckWrite :: "(string \<Rightarrow> string option) \<Rightarrow> Policy \<Rightarrow> string \<Rightarrow> policyError + string \<times> bool" where
  "CheckWrite evalSymlinks p path =
     (case CheckRead evalSymlinks p path of
        Inl e \<Rightarrow> Inl e
      | Inr resolved \<Rightarrow>
         if plMode p = ModeReadOnly then Inl ErrReadOnly
         else if plMode p = ModeAsk then Inr (resolved, True)
         else if plMode p = ModeAllow then Inr (resolved, False)
         else Inl ErrUnknownMode)"

definition CheckCommandAllowed :: "Policy \<Rightarrow> string \<Rightarrow> string list \<Rightarrow> policyError option" where
  "CheckCommandAllowed p prog args = CheckCommand (plAllowed p) prog args"

definition CheckCommand_policy :: "Policy \<Rightarrow> string \<Rightarrow> string list \<Rightarrow> policyError + bool" where
  "CheckCommand_policy p prog args =
     (case CheckCommand (plAllowed p) prog args of
        Some e \<Rightarrow> Inl e
      | None \<Rightarrow>
         if plMode p = ModeReadOnly then Inl ErrReadOnly
         else if plMode p = ModeAsk then Inr True
         else if plMode p = ModeAllow then Inr False
         else Inl ErrUnknownMode)"

subsection \<open>Properties\<close>

lemma ConsumeReadGrant_Inr:
  assumes "ConsumeReadGrant ev now p i path raw = (p', Inr b)"
  obtains x where "Consume now i x raw (plGrants p) = (plGrants p', Inr b)"
proof (cases "Resolve_jail ev (plJail p) path")
  case (Inr x)
  then have "Consume now i x raw (plGrants p) = (plGrants p', Inr b)"
    using assms by (cases "Consume now i x raw (plGrants p)") (auto simp: ConsumeReadGrant_def)
  then show ?thesis by (rule that)
qed (use assms in \<open>simp add: ConsumeReadGrant_def\<close>)

lemma CheckReadWithAccess_secret:
  assumes "CheckReadWithAccess ev now newID p path i raw = (p', Inr (resolved, b))" and "IsSecretPath path \<or> IsSecretPath resolved"
    and "Resolve_jail ev (plJail p) path = Inr resolved"
  shows "ConsumeReadGrant ev now p i resolved raw = (p', Inr b)"
proof -
  have "i \<noteq> []" using assms by (auto simp: CheckReadWithAccess_def split: prod.splits sum.splits option.splits)
  then show ?thesis using assms by (auto simp: CheckReadWithAccess_def split: prod.splits sum.splits)
qed

text \<open>
  C13: reads are confined and secrets need a grant. Links resolve the same way when the jail
  is built and when the path is checked, and an absolute path resolves to an absolute one.
  When the read gate authorises a path, the path lies inside a root of the jail; a path that is secret, by the name asked for or
  by the name it resolves to, is authorised only by an unused, unexpired grant under the
  given request identifier, which is used up by this call, and raw content only if the
  grant says so; for every other path nothing changes.
\<close>

theorem CheckReadWithAccess_confined:
  assumes "NewJail evalSymlinks roots = Inr (plJail p)"
    and "\<forall>a b. IsAbs a \<longrightarrow> evalSymlinks a = Some b \<longrightarrow> IsAbs b"
    and "CheckReadWithAccess evalSymlinks now newID p path requestID raw = (p', Inr (resolved, rawAllowed))"
  shows "(\<exists>root \<in> set (jailRoots (plJail p)). prefix (elements root) (elements resolved)) \<and>
    (if IsSecretPath path \<or> IsSecretPath resolved
     then \<exists>r. map_of (agGrants (plGrants p)) requestID = Some r \<and> \<not> rgUsed r \<and> now \<le> rgExpiresAt r \<and>
            (raw \<longrightarrow> rgRaw r) \<and> rawAllowed = rgRaw r \<and>
            map_of (agGrants (plGrants p')) requestID = Some (r\<lparr>rgUsed := True\<rparr>)
     else p' = p \<and> \<not> rawAllowed)"
proof -
  have real: "Resolve_jail evalSymlinks (plJail p) path = Inr resolved"
    using assms(3) by (auto simp: CheckReadWithAccess_def split: sum.splits prod.splits if_splits option.splits)
  note inside = Resolve_jail_contained [OF assms(1,2) real assms(2)]
  show ?thesis
  proof (cases "IsSecretPath path \<or> IsSecretPath resolved")
    case True
    obtain x where c: "Consume now requestID x raw (plGrants p) = (plGrants p', Inr rawAllowed)"
      using CheckReadWithAccess_secret [OF assms(3) True real] by (rule ConsumeReadGrant_Inr)
    then obtain r where "map_of (agGrants (plGrants p)) requestID = Some r" "\<not> rgUsed r" "now \<le> rgExpiresAt r"
      "raw \<longrightarrow> rgRaw r" "rawAllowed = rgRaw r"
      "plGrants p' = (plGrants p)\<lparr>agGrants := AList.update requestID (r\<lparr>rgUsed := True\<rparr>) (agGrants (plGrants p))\<rparr>"
      by (rule Consume_grant)
    then show ?thesis using True inside by (simp add: update_conv')
  next
    case False
    then show ?thesis using assms(3) real inside by (simp add: CheckReadWithAccess_def)
  qed
qed

text \<open>
  An argument that gives an option by its full long name, or by its letter, alone or among
  other letters behind one dash, in upper or lower case.
\<close>

definition givesOption :: "char \<Rightarrow> string \<Rightarrow> string \<Rightarrow> bool" where
  "givesOption short long a \<longleftrightarrow>
     ToLower a = ''--'' @ long \<or> (\<exists>c cs. ToLower a = CHR ''-'' # c # cs \<and> c \<noteq> CHR ''-'' \<and> short \<in> set (c # cs))"

lemma hasFlag_iff: "hasFlag (map ToLower args) short long \<longleftrightarrow> (\<exists>a \<in> set args. givesOption short long a)"
proof -
  have "length b \<ge> 2 \<and> b ! 0 = CHR ''-'' \<and> b ! 1 \<noteq> CHR ''-'' \<and> short \<in> set (drop 1 b) \<longleftrightarrow>
      (\<exists>c cs. b = CHR ''-'' # c # cs \<and> c \<noteq> CHR ''-'' \<and> short \<in> set (c # cs))" for b
    by (cases b rule: remdups_adj.cases) auto
  then show ?thesis by (simp add: hasFlag_def list_ex_iff givesOption_def)
qed

text \<open>
  C17: what the command gate accepts. The program is a bare name, with no slash, backslash
  or colon, and so not the path of a file of the repository. Its name, without case and \<open>.exe\<close> suffix,
  is on the allowlist and is none of the programs of the fixed list of the code. No token
  holds a shell metacharacter or a zero byte. The arguments of \<open>rm\<close> do not
  give both the recursive and the force option, and those of \<open>chown\<close> do not give the recursive
  one, where an option is given by its full long name or by its letter, alone or among
  others behind one dash, in either case. The first argument of \<open>git\<close> is neither
  \<open>push\<close> nor \<open>clean\<close>, and if it is \<open>reset\<close>, no argument is \<open>--hard\<close>.
\<close>

theorem CheckCommand_accepts:
  assumes "CheckCommand allowed prog args = None"
  shows "prog \<noteq> [] \<and> set prog \<inter> {slash, backslash, CHR '':''} = {} \<and>
    (let name = TrimSuffix (ToLower prog) ''.exe''
     in name \<notin> set alwaysBlockedPrograms \<and> (\<exists>a \<in> set allowed. normProgram a = name) \<and>
        (name = ''rm'' \<longrightarrow>
           \<not> ((\<exists>a \<in> set args. givesOption (CHR ''r'') ''recursive'' a) \<and> (\<exists>a \<in> set args. givesOption (CHR ''f'') ''force'' a))) \<and>
        (name = ''chown'' \<longrightarrow> \<not> (\<exists>a \<in> set args. givesOption (CHR ''r'') ''recursive'' a)) \<and>
        (name = ''git'' \<and> args \<noteq> [] \<longrightarrow> ToLower (hd args) \<noteq> ''push'' \<and> ToLower (hd args) \<noteq> ''clean'' \<and>
           (ToLower (hd args) = ''reset'' \<longrightarrow> ''--hard'' \<notin> ToLower ` set args))) \<and>
    (\<forall>tok \<in> set (prog # args). CHR 0x00 \<notin> set tok \<and> set tok \<inter> set shellMetacharacters = {})"
proof -
  have bare: "isBareProgramName prog" using assms by (auto simp: CheckCommand_def split: if_splits)
  then have prog: "prog \<noteq> []" "set prog \<inter> {slash, backslash, CHR '':''} = {}" "Base prog = prog"
    by (auto simp: isBareProgramName_def ContainsAny_def list_ex_iff split: if_splits)
  have name: "normProgram prog = TrimSuffix (ToLower prog) ''.exe''" by (simp add: normProgram_def prog(3))
  have "\<forall>tok \<in> set (prog # args). CHR 0x00 \<notin> set tok \<and> set tok \<inter> set shellMetacharacters = {}"
    using assms by (auto simp: CheckCommand_def ContainsAny_def list_ex_iff split: if_splits)
  moreover have "normProgram prog \<notin> set alwaysBlockedPrograms" "programAllowed allowed (normProgram prog)"
    and safe: "\<not> isDestructiveInvocation (normProgram prog) args"
    using assms by (auto simp: CheckCommand_def split: if_splits)
  moreover have "normProgram prog = ''rm'' \<longrightarrow>
      \<not> (hasFlag (map ToLower args) (CHR ''r'') ''recursive'' \<and> hasFlag (map ToLower args) (CHR ''f'') ''force'')"
    "normProgram prog = ''chown'' \<longrightarrow> \<not> hasFlag (map ToLower args) (CHR ''r'') ''recursive''"
    using safe by (auto simp: isDestructiveInvocation_def Let_def)
  moreover have "normProgram prog = ''git'' \<and> args \<noteq> [] \<longrightarrow> ToLower (hd args) \<noteq> ''push'' \<and> ToLower (hd args) \<noteq> ''clean'' \<and>
      (ToLower (hd args) = ''reset'' \<longrightarrow> ''--hard'' \<notin> ToLower ` set args)"
    using safe by (cases args) (auto simp: isDestructiveInvocation_def containsAny_def list_ex_iff)
  ultimately show ?thesis
    using prog(1,2) unfolding name Let_def hasFlag_iff programAllowed_def list_ex_iff by blast
qed

text \<open>
  a secret name that resolves to an ordinary file can never be granted. If the path
  asked for is secret by name but resolves to a path that is not, the gate asks for
  approval with an empty request identifier and records no request that could be
  approved.
\<close>

theorem CheckReadWithAccess_empty_request:
  assumes "Resolve_jail evalSymlinks (plJail p) path = Inr resolved"
    and "Resolve_jail evalSymlinks (plJail p) resolved = Inr resolved"
    and "IsSecretPath path" and "\<not> IsSecretPath resolved"
  shows "CheckReadWithAccess evalSymlinks now newID p path [] raw = (p, Inl (AccessRequired [] [] [] False))"
  using assms by (simp add: CheckReadWithAccess_def RequestReadAccess_def)

subsection \<open>Examples\<close>

definition examplePolicyGate :: Policy where
  "examplePolicyGate = \<lparr>plJail = \<lparr>jailRoots = [''/repo'', ''/srv'']\<rparr>, plAllowed = [''git'', ''Rm.exe''], plMode = ModeAsk,
     plGrants = exampleApproved\<rparr>"

lemma examplePolicyGate_jail: "NewJail exampleLinks [''/repo'', ''/srv''] = Inr (plJail examplePolicyGate)"
  by code_simp

theorem CheckReadWithAccess_confined_witness:
  "\<exists>r. map_of (agGrants exampleApproved) ''r1'' = Some r \<and> \<not> rgUsed r \<and> 2 * second \<le> rgExpiresAt r"
proof -
  have ok: "snd (CheckReadWithAccess exampleLinks (2 * second) None examplePolicyGate ''.env'' ''r1'' True) = Inr (''/repo/.env'', True)"
    by code_simp
  have secret: "IsSecretPath ''.env''" by code_simp
  then obtain p' where p': "CheckReadWithAccess exampleLinks (2 * second) None examplePolicyGate ''.env'' ''r1'' True =
      (p', Inr (''/repo/.env'', True))"
    using ok by (metis prod.collapse)
  show ?thesis
    using CheckReadWithAccess_confined [OF examplePolicyGate_jail exampleLinks_abs p'] secret
    by (auto simp: examplePolicyGate_def)
qed

theorem CheckCommand_accepts_witness:
  "CheckCommand [''git'', ''Rm.exe''] ''RM'' [''-vR'', ''build''] = None \<and>
   givesOption (CHR ''r'') ''recursive'' ''-vR'' \<and> \<not> givesOption (CHR ''f'') ''force'' ''build''"
proof -
  have ok: "CheckCommand [''git'', ''Rm.exe''] ''RM'' [''-vR'', ''build''] = None" by code_simp
  have "ToLower ''-vR'' = ''-vr''" by code_simp
  then have rec: "givesOption (CHR ''r'') ''recursive'' ''-vR''" by (simp add: givesOption_def)
  have "TrimSuffix (ToLower ''RM'') ''.exe'' = ''rm''" by code_simp
  with CheckCommand_accepts [OF ok] ok rec show ?thesis by (auto simp: Let_def)
qed

text \<open>
  The comment on the case of \<open>rm\<close> promises any spelling of the two options. A long option
  may be abbreviated, and the gate does not look for that. The fixed list does not hold every
  shell and network tool either.
\<close>

lemma CheckCommand_rm_abbreviated: "CheckCommand [''rm''] ''rm'' [''--recursive'', ''--forc'', ''build''] = None"
  by code_simp

lemma CheckCommand_other_shells:
  "CheckCommand [''ash''] ''ash'' [''script''] = None" "CheckCommand [''ssh''] ''ssh'' [''host''] = None"
  by code_simp+

theorem CheckReadWithAccess_empty_request_witness:
  "CheckReadWithAccess exampleLinks 0 (Some ''r2'') examplePolicyGate ''.env/../src'' [] False =
     (examplePolicyGate, Inl (AccessRequired [] [] [] False))"
proof (rule CheckReadWithAccess_empty_request)
  show "Resolve_jail exampleLinks (plJail examplePolicyGate) ''.env/../src'' = Inr ''/repo/src''" by code_simp
  show "Resolve_jail exampleLinks (plJail examplePolicyGate) ''/repo/src'' = Inr ''/repo/src''" by code_simp
  show "IsSecretPath ''.env/../src''" by code_simp
  show "\<not> IsSecretPath ''/repo/src''" by code_simp
qed

text \<open>The gate looks for destructive git commands in the first argument only.\<close>

lemma CheckCommand_git_options: "CheckCommand [''git''] ''git'' [''-C'', ''.'', ''push''] = None"
  by code_simp
end
