(* ===== verification/Catalog_Rollout.thy ===== *)
theory Catalog_Rollout
  imports Go_Sha256 Go_Strings
begin

text \<open>
  The rollout of a new backend catalog (\<open>internal/catalogrollout/runner.go\<close>, with the
  identities of \<open>internal/catalogidentity\<close>): a runner that observes the deployed system
  and moves it, one phase at a time, from the previous to the candidate catalog, with a
  journal of its status, and compensates when anything fails. The platform it drives is
  a record of functions over an arbitrary world; the runner keeps a list of its calls,
  the latest first. Errors are their texts.
\<close>

subsection \<open>Identities and requests\<close>

record Identity =
  idCommit :: string
  idProtocolVersion :: string
  idToolCount :: int
  idCatalogHash :: string

definition commitPattern :: "string \<Rightarrow> bool" where
  "commitPattern s \<longleftrightarrow> length s = 40 \<and> list_all isHex s"

definition requestPattern :: "string \<Rightarrow> bool" where
  "requestPattern s \<longleftrightarrow> length s = 43 \<and> list_all (\<lambda>c. isAlnum c \<or> c = CHR ''_'' \<or> c = CHR ''-'') s"

definition protocolPattern :: "string \<Rightarrow> bool" where
  "protocolPattern s \<longleftrightarrow>
     length s = 10 \<and> list_all isDigit (take 4 s) \<and> s ! 4 = CHR ''-'' \<and> list_all isDigit (take 2 (drop 5 s)) \<and>
     s ! 7 = CHR ''-'' \<and> list_all isDigit (drop 8 s)"

definition catalogPattern :: "string \<Rightarrow> bool" where
  "catalogPattern = digestPattern"

definition Validate_catalog :: "Identity \<Rightarrow> string option" where
  "Validate_catalog i =
     (if \<not> protocolPattern (idProtocolVersion i) then Some ''catalog protocol version is invalid''
      else if idToolCount i < 1 \<or> idToolCount i > 10000 then Some ''catalog tool count is invalid''
      else if \<not> catalogPattern (idCatalogHash i) then Some ''catalog hash is invalid''
      else None)"

definition Validate_identity :: "Identity \<Rightarrow> string option" where
  "Validate_identity i = (if \<not> commitPattern (idCommit i) then Some ''rollout commit is invalid'' else Validate_catalog i)"

record RolloutRequest =
  rrRequestID :: string
  rrPrevious :: Identity
  rrCandidate :: Identity

definition Validate_request :: "RolloutRequest \<Rightarrow> string option" where
  "Validate_request r =
     (if \<not> requestPattern (rrRequestID r) then Some ''rollout request id is invalid''
      else
        case Validate_identity (rrPrevious r) of
          Some e \<Rightarrow> Some e
        | None \<Rightarrow>
           (case Validate_identity (rrCandidate r) of
              Some e \<Rightarrow> Some e
            | None \<Rightarrow>
               if idProtocolVersion (rrPrevious r) \<noteq> idProtocolVersion (rrCandidate r) then
                 Some ''candidate protocol does not match current protocol''
               else None))"

record FrontContract =
  fcPrimary :: string
  fcTransition :: string

record Observation =
  obBackend :: Identity
  obFront :: FrontContract

datatype RolloutState =
    RolloutIdle | RolloutQueued | RolloutRunning | RolloutCompensating | RolloutSucceeded | RolloutFailed
  | OtherRolloutState string

datatype RolloutPhase =
    PhaseNone | PhasePrepareFront | PhaseDeployBackend | PhaseVerifyBackend | PhaseFinalizeFront
  | PhaseRollbackBackend | PhaseRollbackFront | PhaseComplete | OtherRolloutPhase string

record RolloutStatus =
  stSchemaVersion :: int
  stRevision :: "64 word"
  stRequest :: RolloutRequest
  stState :: RolloutState
  stPhase :: RolloutPhase
  stDeploymentID :: string
  stReason :: string
  stUpdatedAt :: gotime

definition zeroIdentity :: Identity where
  "zeroIdentity = \<lparr>idCommit = [], idProtocolVersion = [], idToolCount = 0, idCatalogHash = []\<rparr>"

text \<open>A status literal of the source with the given fields and the zero values elsewhere.\<close>

definition statusOf :: "RolloutRequest \<Rightarrow> RolloutState \<Rightarrow> RolloutPhase \<Rightarrow> string \<Rightarrow> string \<Rightarrow> RolloutStatus" where
  "statusOf q st ph deployment reason =
     \<lparr>stSchemaVersion = 0, stRevision = 0, stRequest = q, stState = st, stPhase = ph, stDeploymentID = deployment,
      stReason = reason, stUpdatedAt = zeroTime\<rparr>"

definition zeroStatus :: RolloutStatus where
  "zeroStatus = statusOf \<lparr>rrRequestID = [], rrPrevious = zeroIdentity, rrCandidate = zeroIdentity\<rparr>
     (OtherRolloutState []) PhaseNone [] []"

subsection \<open>The platform and the runner's state\<close>

record 'w RolloutPlatform =
  pfCtxErr :: "'w \<Rightarrow> string option"
  pfNow :: "'w \<Rightarrow> gotime"
  pfJournalError :: "'w \<Rightarrow> 'w \<times> string option"
  pfObserve :: "'w \<Rightarrow> 'w \<times> (string + Observation)"
  pfPrepareFront :: "Identity \<Rightarrow> Identity \<Rightarrow> 'w \<Rightarrow> 'w \<times> string \<times> string option"
  pfDeployBackend :: "Identity \<Rightarrow> 'w \<Rightarrow> 'w \<times> string \<times> string option"
  pfVerifyBackend :: "Identity \<Rightarrow> 'w \<Rightarrow> 'w \<times> string option"
  pfFinalizeFront :: "Identity \<Rightarrow> 'w \<Rightarrow> 'w \<times> string \<times> string option"
  pfRollbackBackend :: "Identity \<Rightarrow> 'w \<Rightarrow> 'w \<times> string \<times> string option"
  pfRollbackFront :: "Identity \<Rightarrow> 'w \<Rightarrow> 'w \<times> string \<times> string option"
  pfPublishStatus :: "RolloutStatus \<Rightarrow> 'w \<Rightarrow> 'w \<times> string option"

datatype rolloutCall =
    CallObserve "string + Observation"
  | CallPrepareFront Identity Identity "string option"
  | CallDeployBackend Identity "string option"
  | CallVerifyBackend Identity "string option"
  | CallFinalizeFront Identity "string option"
  | CallRollbackBackend Identity "string option"
  | CallRollbackFront Identity "string option"
  | CallPublishStatus RolloutStatus

record 'w runState =
  rnWorld :: 'w
  rnJournal :: RolloutStatus
  rnCalls :: "rolloutCall list"

definition called :: "'w runState \<Rightarrow> 'w \<Rightarrow> rolloutCall \<Rightarrow> 'w runState" where
  "called st w c = st\<lparr>rnWorld := w, rnCalls := c # rnCalls st\<rparr>"

definition observe :: "'w RolloutPlatform \<Rightarrow> 'w runState \<Rightarrow> 'w runState \<times> (string + Observation)" where
  "observe p st = (case pfObserve p (rnWorld st) of (w, r) \<Rightarrow> (called st w (CallObserve r), r))"

definition prepareFront ::
  "'w RolloutPlatform \<Rightarrow> Identity \<Rightarrow> Identity \<Rightarrow> 'w runState \<Rightarrow> 'w runState \<times> string \<times> string option" where
  "prepareFront p a b st = (case pfPrepareFront p a b (rnWorld st) of (w, d, e) \<Rightarrow> (called st w (CallPrepareFront a b e), d, e))"

definition deployBackend :: "'w RolloutPlatform \<Rightarrow> Identity \<Rightarrow> 'w runState \<Rightarrow> 'w runState \<times> string \<times> string option" where
  "deployBackend p i st = (case pfDeployBackend p i (rnWorld st) of (w, d, e) \<Rightarrow> (called st w (CallDeployBackend i e), d, e))"

definition verifyBackend :: "'w RolloutPlatform \<Rightarrow> Identity \<Rightarrow> 'w runState \<Rightarrow> 'w runState \<times> string option" where
  "verifyBackend p i st = (case pfVerifyBackend p i (rnWorld st) of (w, e) \<Rightarrow> (called st w (CallVerifyBackend i e), e))"

definition finalizeFront :: "'w RolloutPlatform \<Rightarrow> Identity \<Rightarrow> 'w runState \<Rightarrow> 'w runState \<times> string \<times> string option" where
  "finalizeFront p i st = (case pfFinalizeFront p i (rnWorld st) of (w, d, e) \<Rightarrow> (called st w (CallFinalizeFront i e), d, e))"

definition rollbackBackend :: "'w RolloutPlatform \<Rightarrow> Identity \<Rightarrow> 'w runState \<Rightarrow> 'w runState \<times> string \<times> string option" where
  "rollbackBackend p i st = (case pfRollbackBackend p i (rnWorld st) of (w, d, e) \<Rightarrow> (called st w (CallRollbackBackend i e), d, e))"

definition rollbackFront :: "'w RolloutPlatform \<Rightarrow> Identity \<Rightarrow> 'w runState \<Rightarrow> 'w runState \<times> string \<times> string option" where
  "rollbackFront p i st = (case pfRollbackFront p i (rnWorld st) of (w, d, e) \<Rightarrow> (called st w (CallRollbackFront i e), d, e))"

definition publishStatus :: "'w RolloutPlatform \<Rightarrow> RolloutStatus \<Rightarrow> 'w runState \<Rightarrow> 'w runState \<times> string option" where
  "publishStatus p s st = (case pfPublishStatus p s (rnWorld st) of (w, e) \<Rightarrow> (called st w (CallPublishStatus s), e))"

subsection \<open>The journal\<close>

text \<open>
  The file holds one status; \<open>pfJournalError\<close> is the failure, if any, of the file
  operations and the encoding of one access. The file is replaced by its last operation,
  so an access that fails leaves it as it was.
\<close>

definition checkStatus :: "RolloutStatus \<Rightarrow> string + RolloutStatus" where
  "checkStatus s =
     (if stSchemaVersion s \<noteq> 1 then Inl ''unsupported rollout journal schema''
      else if stState s \<noteq> RolloutIdle then
        (case Validate_request (stRequest s) of Some e \<Rightarrow> Inl e | None \<Rightarrow> Inr s)
      else Inr s)"

definition Read_journal :: "'w RolloutPlatform \<Rightarrow> 'w runState \<Rightarrow> 'w runState \<times> (string + RolloutStatus)" where
  "Read_journal p st =
     (case pfJournalError p (rnWorld st) of
        (w, Some e) \<Rightarrow> (st\<lparr>rnWorld := w\<rparr>, Inl e)
      | (w, None) \<Rightarrow> (st\<lparr>rnWorld := w\<rparr>, checkStatus (rnJournal st)))"

definition Advance :: "'w RolloutPlatform \<Rightarrow> RolloutStatus \<Rightarrow> 'w runState \<Rightarrow> 'w runState \<times> (string + RolloutStatus)" where
  "Advance p status st =
     (case pfJournalError p (rnWorld st) of
        (w, Some e) \<Rightarrow> (st\<lparr>rnWorld := w\<rparr>, Inl e)
      | (w, None) \<Rightarrow>
         (case checkStatus (rnJournal st) of
            Inl e \<Rightarrow> (st\<lparr>rnWorld := w\<rparr>, Inl e)
          | Inr current \<Rightarrow>
             let nxt = status\<lparr>stSchemaVersion := 1, stRevision := stRevision current + 1, stUpdatedAt := pfNow p w\<rparr>
             in (st\<lparr>rnWorld := w, rnJournal := nxt\<rparr>, Inr nxt)))"

definition persist :: "'w RolloutPlatform \<Rightarrow> RolloutStatus \<Rightarrow> 'w runState \<Rightarrow> 'w runState \<times> RolloutStatus \<times> string option" where
  "persist p status st =
     (case Advance p status st of
        (st1, Inl e) \<Rightarrow> (st1, zeroStatus, Some e)
      | (st1, Inr nxt) \<Rightarrow> (case publishStatus p nxt st1 of (st2, e) \<Rightarrow> (st2, nxt, e)))"

subsection \<open>Contracts of the front door\<close>

definition frontOld :: "FrontContract \<Rightarrow> RolloutRequest \<Rightarrow> bool" where
  "frontOld f q \<longleftrightarrow> fcPrimary f = idCatalogHash (rrPrevious q) \<and> fcTransition f = []"

definition frontBoth :: "FrontContract \<Rightarrow> RolloutRequest \<Rightarrow> bool" where
  "frontBoth f q \<longleftrightarrow> fcPrimary f = idCatalogHash (rrCandidate q) \<and> fcTransition f = idCatalogHash (rrPrevious q)"

definition frontNew :: "FrontContract \<Rightarrow> RolloutRequest \<Rightarrow> bool" where
  "frontNew f q \<longleftrightarrow> fcPrimary f = idCatalogHash (rrCandidate q) \<and> fcTransition f = []"

definition validateObservation :: "Observation \<Rightarrow> RolloutRequest \<Rightarrow> string option" where
  "validateObservation o' q =
     (case Validate_identity (obBackend o') of
        Some e \<Rightarrow> Some e
      | None \<Rightarrow>
         if list_ex (\<lambda>hash. hash \<noteq> [] \<and> hash \<noteq> idCatalogHash (rrPrevious q) \<and> hash \<noteq> idCatalogHash (rrCandidate q))
              [fcPrimary (obFront o'), fcTransition (obFront o')]
         then Some ''front door contains a third catalog''
         else if fcPrimary (obFront o') = [] \<or> fcPrimary (obFront o') = fcTransition (obFront o') then
           Some ''front door catalog contract is invalid''
         else None)"

subsection \<open>Failure and compensation\<close>

definition joinErrors :: "string \<Rightarrow> string \<Rightarrow> string" where
  "joinErrors a b = a @ [CHR 0x0A] @ b"

definition ErrInterrupted :: string where
  "ErrInterrupted = ''catalog rollout interrupted''"

definition fail_rollout ::
  "'w RolloutPlatform \<Rightarrow> RolloutStatus \<Rightarrow> string \<Rightarrow> string \<Rightarrow> 'w runState \<Rightarrow> 'w runState \<times> RolloutStatus \<times> string option" where
  "fail_rollout p status reason cause st =
     (case persist p (status\<lparr>stState := RolloutFailed, stPhase := PhaseComplete, stReason := reason\<rparr>) st of
        (st1, s, Some e) \<Rightarrow> (st1, s, Some (joinErrors cause e))
      | (st1, s, None) \<Rightarrow> (st1, s, Some (reason @ '': '' @ cause)))"

text \<open>The end of the compensation, once the backend was observed.\<close>

definition compensateFront ::
  "'w RolloutPlatform \<Rightarrow> RolloutStatus \<Rightarrow> RolloutRequest \<Rightarrow> string \<Rightarrow> string \<Rightarrow> string \<Rightarrow> Observation \<Rightarrow> 'w runState \<Rightarrow>
     'w runState \<times> RolloutStatus \<times> string option" where
  "compensateFront p status q reason cause failureDeploymentID o' st =
     (let finish = (\<lambda>status. if failureDeploymentID \<noteq> [] then status\<lparr>stDeploymentID := failureDeploymentID\<rparr> else status)
      in if obBackend o' \<noteq> rrPrevious q then
           fail_rollout p status (reason @ '': backend rollback verification failed'')
             (joinErrors cause ''previous backend identity was not restored'') st
         else if frontOld (obFront o') q then fail_rollout p (finish status) reason cause st
         else
           case persist p (statusOf q RolloutCompensating PhaseRollbackFront (stDeploymentID status) reason) st of
             (st1, s1, _) \<Rightarrow>
               (case rollbackFront p (rrPrevious q) st1 of
                  (st2, rollbackID, Some e) \<Rightarrow>
                    fail_rollout p (if rollbackID \<noteq> [] then s1\<lparr>stDeploymentID := rollbackID\<rparr> else s1)
                      (reason @ '': front rollback failed'') (joinErrors cause e) st2
                | (st2, rollbackID, None) \<Rightarrow>
                   (case persist p (statusOf q RolloutCompensating PhaseRollbackFront rollbackID reason) st2 of
                      (st3, s3, _) \<Rightarrow>
                        (case observe p st3 of
                           (st4, Inl e) \<Rightarrow>
                             fail_rollout p s3 (reason @ '': rollback observation failed'') (joinErrors cause e) st4
                         | (st4, Inr o'') \<Rightarrow>
                             if obBackend o'' \<noteq> rrPrevious q \<or> \<not> frontOld (obFront o'') q then
                               fail_rollout p s3 (reason @ '': rollback verification failed'')
                                 (joinErrors cause ''previous backend and front-door contract were not restored'') st4
                             else fail_rollout p (finish s3) reason cause st4))))"

text \<open>The rollback of the backend, with the observation after it.\<close>

definition compensateBackend ::
  "'w RolloutPlatform \<Rightarrow> RolloutRequest \<Rightarrow> string \<Rightarrow> string \<Rightarrow> string \<Rightarrow> 'w runState \<Rightarrow>
     'w runState \<times> RolloutStatus \<times> string option" where
  "compensateBackend p q reason cause failureDeploymentID st =
     (case persist p (statusOf q RolloutCompensating PhaseRollbackBackend failureDeploymentID reason) st of
        (st1, s1, _) \<Rightarrow>
          (case rollbackBackend p (rrPrevious q) st1 of
             (st2, rollbackID, Some e) \<Rightarrow>
               fail_rollout p (if rollbackID \<noteq> [] then s1\<lparr>stDeploymentID := rollbackID\<rparr> else s1)
                 (reason @ '': backend rollback failed'') (joinErrors cause e) st2
           | (st2, rollbackID, None) \<Rightarrow>
              (case persist p (statusOf q RolloutCompensating PhaseRollbackBackend rollbackID reason) st2 of
                 (st3, s3, _) \<Rightarrow>
                   (case observe p st3 of
                      (st4, Inl e) \<Rightarrow> fail_rollout p s3 (reason @ '': rollback observation failed'') (joinErrors cause e) st4
                    | (st4, Inr o') \<Rightarrow> compensateFront p s3 q reason cause failureDeploymentID o' st4))))"

definition compensate ::
  "'w RolloutPlatform \<Rightarrow> RolloutStatus \<Rightarrow> RolloutRequest \<Rightarrow> string \<Rightarrow> string \<Rightarrow> 'w runState \<Rightarrow>
     'w runState \<times> RolloutStatus \<times> string option" where
  "compensate p status q reason cause st =
     (let failureDeploymentID = stDeploymentID status
      in case persist p (statusOf q RolloutCompensating (stPhase status) failureDeploymentID reason) st of
           (st1, s1, _) \<Rightarrow>
             if reason = ''backend_deploy_failed'' then compensateBackend p q reason cause failureDeploymentID st1
             else
               case observe p st1 of
                 (st2, Inl e) \<Rightarrow> fail_rollout p s1 (reason @ '': rollback observation failed'') (joinErrors cause e) st2
               | (st2, Inr o') \<Rightarrow>
                   if obBackend o' = rrCandidate q then compensateBackend p q reason cause failureDeploymentID st2
                   else compensateFront p s1 q reason cause failureDeploymentID o' st2)"

subsection \<open>The run\<close>

type_synonym 'w runResult = "'w runState \<times> RolloutStatus \<times> string option"

text \<open>A round either goes on (\<open>Inl\<close>) or ends the run with its result (\<open>Inr\<close>).\<close>

type_synonym 'w roundResult = "('w runState \<times> RolloutStatus) + 'w runResult"

definition interrupted :: "'w RolloutPlatform \<Rightarrow> 'w runState \<Rightarrow> bool" where
  "interrupted p st \<longleftrightarrow> pfCtxErr p (rnWorld st) \<noteq> None"

definition actionFailed ::
  "'w RolloutPlatform \<Rightarrow> RolloutRequest \<Rightarrow> string \<Rightarrow> string \<Rightarrow> RolloutStatus \<Rightarrow> 'w runState \<Rightarrow> 'w runResult" where
  "actionFailed p q reason e status st =
     (if interrupted p st then (st, status, Some (joinErrors ErrInterrupted e))
      else compensate p status q reason e st)"

definition continueWith :: "'w RolloutPlatform \<Rightarrow> RolloutStatus \<Rightarrow> 'w runState \<Rightarrow> 'w roundResult" where
  "continueWith p status st =
     (case persist p status st of
        (st1, s, Some e) \<Rightarrow> Inr (st1, s, Some e)
      | (st1, s, None) \<Rightarrow> Inl (st1, s))"

definition candidateRound ::
  "'w RolloutPlatform \<Rightarrow> RolloutRequest \<Rightarrow> Observation \<Rightarrow> RolloutStatus \<Rightarrow> 'w runState \<Rightarrow> 'w roundResult" where
  "candidateRound p q o' status st =
     (if stPhase status \<noteq> PhaseFinalizeFront \<and> stPhase status \<noteq> PhaseComplete then
        (case persist p (statusOf q RolloutRunning PhaseVerifyBackend [] []) st of
           (st1, s1, _) \<Rightarrow>
             (case verifyBackend p (rrCandidate q) st1 of
                (st2, Some e) \<Rightarrow> Inr (actionFailed p q ''candidate_verification_failed'' e s1 st2)
              | (st2, None) \<Rightarrow> continueWith p (statusOf q RolloutRunning PhaseFinalizeFront [] []) st2))
      else if idCatalogHash (rrCandidate q) = idCatalogHash (rrPrevious q) \<or> frontNew (obFront o') q then
        Inr (persist p (statusOf q RolloutSucceeded PhaseComplete [] []) st)
      else if \<not> frontBoth (obFront o') q then
        Inr (compensate p status q ''front_contract_lost'' ''candidate backend is not admitted by front door'' st)
      else
        (case persist p (statusOf q RolloutRunning PhaseFinalizeFront [] []) st of
           (st1, s1, _) \<Rightarrow>
             (case finalizeFront p (rrCandidate q) st1 of
                (st2, d, Some e) \<Rightarrow> Inr (actionFailed p q ''front_finalize_failed'' e s1 st2)
              | (st2, d, None) \<Rightarrow> continueWith p (statusOf q RolloutRunning PhaseComplete d []) st2)))"

definition previousRound ::
  "'w RolloutPlatform \<Rightarrow> RolloutRequest \<Rightarrow> Observation \<Rightarrow> RolloutStatus \<Rightarrow> 'w runState \<Rightarrow> 'w roundResult" where
  "previousRound p q o' status st =
     (if idCatalogHash (rrCandidate q) \<noteq> idCatalogHash (rrPrevious q) \<and> \<not> frontBoth (obFront o') q then
        if \<not> frontOld (obFront o') q then
          Inr (compensate p status q ''front_contract_invalid'' ''front door is not on the previous compatible catalog'' st)
        else
          (case persist p (statusOf q RolloutRunning PhasePrepareFront [] []) st of
             (st1, s1, _) \<Rightarrow>
               (case prepareFront p (rrPrevious q) (rrCandidate q) st1 of
                  (st2, d, Some e) \<Rightarrow> Inr (actionFailed p q ''front_prepare_failed'' e s1 st2)
                | (st2, d, None) \<Rightarrow> continueWith p (statusOf q RolloutRunning PhaseDeployBackend d []) st2))
      else
        (case persist p (statusOf q RolloutRunning PhaseDeployBackend [] []) st of
           (st1, s1, _) \<Rightarrow>
             (case deployBackend p (rrCandidate q) st1 of
                (st2, d, Some e) \<Rightarrow>
                  if interrupted p st2 then Inr (st2, s1, Some (joinErrors ErrInterrupted e))
                  else
                    (case persist p (statusOf q RolloutRunning PhaseDeployBackend d ''backend_deploy_failed'') st2 of
                       (st3, s3, Some e') \<Rightarrow> Inr (st3, s3, Some (joinErrors e e'))
                     | (st3, s3, None) \<Rightarrow> Inr (compensate p s3 q ''backend_deploy_failed'' e st3))
              | (st2, d, None) \<Rightarrow> continueWith p (statusOf q RolloutRunning PhaseVerifyBackend d []) st2)))"

definition runRound :: "'w RolloutPlatform \<Rightarrow> RolloutRequest \<Rightarrow> RolloutStatus \<Rightarrow> 'w runState \<Rightarrow> 'w roundResult" where
  "runRound p q status st =
     (case pfCtxErr p (rnWorld st) of
        Some e \<Rightarrow> Inr (st, status, Some (joinErrors ErrInterrupted e))
      | None \<Rightarrow>
         (case observe p st of
            (st1, Inl e) \<Rightarrow> Inr (actionFailed p q ''observe_failed'' e status st1)
          | (st1, Inr o') \<Rightarrow>
             (case validateObservation o' q of
                Some e \<Rightarrow> Inr (compensate p status q ''contract_invalid'' e st1)
              | None \<Rightarrow>
                 if obBackend o' = rrCandidate q then candidateRound p q o' status st1
                 else if obBackend o' \<noteq> rrPrevious q then
                   Inr (compensate p status q ''backend_identity_unknown'' ''backend is neither previous nor candidate identity'' st1)
                 else previousRound p q o' status st1)))"

fun runLoop :: "'w RolloutPlatform \<Rightarrow> RolloutRequest \<Rightarrow> nat \<Rightarrow> RolloutStatus \<Rightarrow> 'w runState \<Rightarrow> 'w runResult" where
  "runLoop p q 0 status st =
     compensate p status q ''phase_budget_exhausted'' ''catalog rollout exceeded phase budget'' st"
| "runLoop p q (Suc attempts) status st =
     (case runRound p q status st of
        Inl (st1, s1) \<Rightarrow> runLoop p q attempts s1 st1
      | Inr r \<Rightarrow> r)"

definition Run :: "'w RolloutPlatform \<Rightarrow> RolloutRequest \<Rightarrow> 'w runState \<Rightarrow> 'w runResult" where
  "Run p q st =
     (case Validate_request q of
        Some e \<Rightarrow> (st, zeroStatus, Some e)
      | None \<Rightarrow>
         (case Read_journal p st of
            (st1, Inl e) \<Rightarrow> (st1, zeroStatus, Some e)
          | (st1, Inr status) \<Rightarrow>
             let mine = rrRequestID (stRequest status) = rrRequestID q
             in if stState status \<in> {RolloutQueued, RolloutRunning, RolloutCompensating} \<and> \<not> mine then
                  (st1, status, Some ''a different rollout is active'')
                else if mine \<and> stState status \<in> {RolloutSucceeded, RolloutFailed} then
                  (case publishStatus p status st1 of
                     (st2, Some e) \<Rightarrow> (st2, status, Some e)
                   | (st2, None) \<Rightarrow> (st2, status, if stState status = RolloutFailed then Some (stReason status) else None))
                else if \<not> mine then
                  (case persist p (statusOf q RolloutQueued PhaseNone [] []) st1 of
                     (st2, s, Some e) \<Rightarrow> (st2, s, Some e)
                   | (st2, s, None) \<Rightarrow> runLoop p q 24 s st2)
                else runLoop p q 24 status st1))"

subsection \<open>The discipline of the calls\<close>

fun isPublish :: "rolloutCall \<Rightarrow> bool" where
  "isPublish (CallPublishStatus s) = True"
| "isPublish _ = False"

definition actions :: "rolloutCall list \<Rightarrow> rolloutCall list" where
  "actions cs = filter (\<lambda>c. \<not> isPublish c) cs"

fun lastSeen :: "rolloutCall list \<Rightarrow> Observation option" where
  "lastSeen (CallObserve (Inr o') # cs) = Some o'"
| "lastSeen _ = None"

fun deployFailed :: "RolloutRequest \<Rightarrow> rolloutCall list \<Rightarrow> bool" where
  "deployFailed q (CallDeployBackend i (Some e) # cs) = (i = rrCandidate q)"
| "deployFailed q _ = False"

fun admitted :: "RolloutRequest \<Rightarrow> rolloutCall \<Rightarrow> rolloutCall list \<Rightarrow> bool" where
  "admitted q (CallPrepareFront a b e) cs =
     (a = rrPrevious q \<and> b = rrCandidate q \<and>
      (case lastSeen cs of Some o' \<Rightarrow> obBackend o' = rrPrevious q \<and> frontOld (obFront o') q | None \<Rightarrow> False))"
| "admitted q (CallDeployBackend i e) cs =
     (i = rrCandidate q \<and>
      (case lastSeen cs of
         Some o' \<Rightarrow> obBackend o' = rrPrevious q \<and>
           (idCatalogHash (rrCandidate q) = idCatalogHash (rrPrevious q) \<or> frontBoth (obFront o') q)
       | None \<Rightarrow> False))"
| "admitted q (CallVerifyBackend i e) cs =
     (i = rrCandidate q \<and> (case lastSeen cs of Some o' \<Rightarrow> obBackend o' = rrCandidate q | None \<Rightarrow> False))"
| "admitted q (CallFinalizeFront i e) cs =
     (i = rrCandidate q \<and>
      (case lastSeen cs of Some o' \<Rightarrow> obBackend o' = rrCandidate q \<and> frontBoth (obFront o') q | None \<Rightarrow> False))"
| "admitted q (CallRollbackBackend i e) cs =
     (i = rrPrevious q \<and>
      (deployFailed q cs \<or>
       (case lastSeen cs of Some o' \<Rightarrow> obBackend o' = rrCandidate q | None \<Rightarrow> False)))"
| "admitted q (CallRollbackFront i e) cs =
     (i = rrPrevious q \<and>
      (case lastSeen cs of Some o' \<Rightarrow> obBackend o' = rrPrevious q \<and> \<not> frontOld (obFront o') q | None \<Rightarrow> False))"
| "admitted q _ cs = True"

fun disciplined :: "RolloutRequest \<Rightarrow> rolloutCall list \<Rightarrow> bool" where
  "disciplined q [] = True"
| "disciplined q (c # cs) = (admitted q c cs \<and> disciplined q cs)"


subsection \<open>What each operation leaves in the calls\<close>

abbreviation acts :: "'w runState \<Rightarrow> rolloutCall list" where
  "acts st \<equiv> actions (rnCalls st)"

lemma actions_Cons [simp]: "actions (c # cs) = (if isPublish c then actions cs else c # actions cs)"
  by (simp add: actions_def)

lemma rnCalls_called [simp]: "rnCalls (called st w c) = c # rnCalls st"
  by (simp add: called_def)

lemma acts_persist: "persist p s st = (st1, s1, e) \<Longrightarrow> acts st1 = acts st"
  by (auto simp: persist_def Advance_def publishStatus_def Let_def split: prod.splits sum.splits option.splits)

lemma acts_Read_journal: "Read_journal p st = (st1, r) \<Longrightarrow> acts st1 = acts st"
  by (auto simp: Read_journal_def split: prod.splits option.splits)

lemma acts_publishStatus: "publishStatus p s st = (st1, e) \<Longrightarrow> acts st1 = acts st"
  by (auto simp: publishStatus_def split: prod.splits)

lemma acts_fail: "fail_rollout p s reason cause st = (st1, s1, e) \<Longrightarrow> acts st1 = acts st"
  by (auto simp: fail_rollout_def acts_persist split: prod.splits option.splits)

lemma acts_observe: "observe p st = (st1, r) \<Longrightarrow> acts st1 = CallObserve r # acts st"
  by (auto simp: observe_def split: prod.splits)

lemma acts_prepareFront: "prepareFront p a b st = (st1, d, e) \<Longrightarrow> acts st1 = CallPrepareFront a b e # acts st"
  by (auto simp: prepareFront_def split: prod.splits)

lemma acts_deployBackend: "deployBackend p i st = (st1, d, e) \<Longrightarrow> acts st1 = CallDeployBackend i e # acts st"
  by (auto simp: deployBackend_def split: prod.splits)

lemma acts_verifyBackend: "verifyBackend p i st = (st1, e) \<Longrightarrow> acts st1 = CallVerifyBackend i e # acts st"
  by (auto simp: verifyBackend_def split: prod.splits)

lemma acts_finalizeFront: "finalizeFront p i st = (st1, d, e) \<Longrightarrow> acts st1 = CallFinalizeFront i e # acts st"
  by (auto simp: finalizeFront_def split: prod.splits)

lemma acts_rollbackBackend: "rollbackBackend p i st = (st1, d, e) \<Longrightarrow> acts st1 = CallRollbackBackend i e # acts st"
  by (auto simp: rollbackBackend_def split: prod.splits)

lemma acts_rollbackFront: "rollbackFront p i st = (st1, d, e) \<Longrightarrow> acts st1 = CallRollbackFront i e # acts st"
  by (auto simp: rollbackFront_def split: prod.splits)

lemmas acts_calls = acts_persist acts_fail acts_observe acts_prepareFront acts_deployBackend acts_verifyBackend
  acts_finalizeFront acts_rollbackBackend acts_rollbackFront

lemma disciplined_compensateFront:
  assumes "compensateFront p s q reason cause d o' st = (st1, s1, e)" "disciplined q (acts st)"
    "lastSeen (acts st) = Some o'"
  shows "disciplined q (acts st1)"
  using assms
  by (auto simp: compensateFront_def Let_def dest!: acts_calls split: prod.splits sum.splits option.splits if_splits)

lemma disciplined_compensateBackend:
  assumes "compensateBackend p q reason cause d st = (st1, s1, e)" "disciplined q (acts st)"
    "deployFailed q (acts st) \<or> (\<exists>o'. lastSeen (acts st) = Some o' \<and> obBackend o' = rrCandidate q)"
  shows "disciplined q (acts st1)"
  using assms
  by (auto simp: compensateBackend_def Let_def dest!: acts_calls disciplined_compensateFront
      split: prod.splits sum.splits option.splits if_splits)

lemma disciplined_compensate:
  assumes "compensate p s q reason cause st = (st1, s1, e)" "disciplined q (acts st)"
    "reason = ''backend_deploy_failed'' \<Longrightarrow> deployFailed q (acts st)"
  shows "disciplined q (acts st1)"
  using assms
  by (auto simp: compensate_def Let_def dest!: acts_calls disciplined_compensateFront disciplined_compensateBackend
      split: prod.splits sum.splits option.splits if_splits)


lemma disciplined_actionFailed:
  assumes "actionFailed p q reason e s st = (st1, s1, e1)" "disciplined q (acts st)" "reason \<noteq> ''backend_deploy_failed''"
  shows "disciplined q (acts st1)"
  using assms by (auto simp: actionFailed_def dest: disciplined_compensate split: if_splits)

text \<open>The state a round ends in, whether it goes on or not.\<close>

definition roundState :: "'w roundResult \<Rightarrow> 'w runState" where
  "roundState r = (case r of Inl (st, s) \<Rightarrow> st | Inr (st, s, e) \<Rightarrow> st)"

lemma roundState_simps [simp]: "roundState (Inl (st, s)) = st" "roundState (Inr r) = fst r"
  by (simp_all add: roundState_def split: prod.splits)

lemma acts_continueWith [simp]: "acts (roundState (continueWith p s st)) = acts st"
  by (auto simp: continueWith_def dest!: acts_persist split: prod.splits option.splits)

lemma disciplined_fst_compensate:
  "disciplined q (acts st) \<Longrightarrow> (reason = ''backend_deploy_failed'' \<Longrightarrow> deployFailed q (acts st)) \<Longrightarrow>
   disciplined q (acts (fst (compensate p s q reason cause st)))"
  by (metis disciplined_compensate prod.exhaust_sel)

lemma disciplined_fst_actionFailed:
  "disciplined q (acts st) \<Longrightarrow> reason \<noteq> ''backend_deploy_failed'' \<Longrightarrow>
   disciplined q (acts (fst (actionFailed p q reason e s st)))"
  by (metis disciplined_actionFailed prod.exhaust_sel)

lemma acts_fst_persist [simp]: "acts (fst (persist p s st)) = acts st"
  by (metis acts_persist prod.exhaust_sel)

lemmas disciplined_ends = disciplined_fst_compensate disciplined_fst_actionFailed

lemma disciplined_candidateRound:
  assumes "disciplined q (acts st)" "lastSeen (acts st) = Some o'" "obBackend o' = rrCandidate q"
  shows "disciplined q (acts (roundState (candidateRound p q o' s st)))"
  using assms
  by (auto simp: candidateRound_def intro!: disciplined_ends dest!: acts_calls split: prod.splits option.splits)

lemma disciplined_previousRound:
  assumes "disciplined q (acts st)" "lastSeen (acts st) = Some o'" "obBackend o' = rrPrevious q"
  shows "disciplined q (acts (roundState (previousRound p q o' s st)))"
  using assms
  by (auto simp: previousRound_def intro!: disciplined_ends dest!: acts_calls split: prod.splits option.splits)

lemma disciplined_runRound:
  assumes "disciplined q (acts st)"
  shows "disciplined q (acts (roundState (runRound p q s st)))"
  using assms
  by (auto simp: runRound_def intro!: disciplined_ends disciplined_candidateRound disciplined_previousRound
      dest!: acts_observe split: prod.splits sum.splits option.splits)

lemma disciplined_runLoop: "disciplined q (acts st) \<Longrightarrow> disciplined q (acts (fst (runLoop p q n s st)))"
proof (induction n arbitrary: s st)
  case 0
  then show ?case by (auto intro: disciplined_fst_compensate)
next
  case (Suc n)
  from disciplined_runRound [OF Suc.prems, of p s] show ?case
    by (auto simp: Suc.IH split: sum.splits prod.splits)
qed

subsection \<open>What a result says\<close>

definition seenCandidate :: "RolloutRequest \<Rightarrow> rolloutCall list \<Rightarrow> bool" where
  "seenCandidate q cs \<longleftrightarrow>
     (case lastSeen cs of
        Some o' \<Rightarrow> obBackend o' = rrCandidate q \<and>
          (idCatalogHash (rrCandidate q) = idCatalogHash (rrPrevious q) \<or> frontNew (obFront o') q)
      | None \<Rightarrow> False)"

definition seenPrevious :: "RolloutRequest \<Rightarrow> rolloutCall list \<Rightarrow> bool" where
  "seenPrevious q cs \<longleftrightarrow>
     (case lastSeen cs of Some o' \<Rightarrow> obBackend o' = rrPrevious q \<and> frontOld (obFront o') q | None \<Rightarrow> False)"

definition settled :: "RolloutRequest \<Rightarrow> 'w runResult \<Rightarrow> bool" where
  "settled q r \<longleftrightarrow>
     (case r of (st, s, e) \<Rightarrow>
        (e = None \<longrightarrow> stState s = RolloutSucceeded) \<and>
        (stState s = RolloutSucceeded \<longrightarrow> seenCandidate q (acts st)) \<and>
        (stState s = RolloutFailed \<longrightarrow> CHR '':'' \<notin> set (stReason s) \<longrightarrow> seenPrevious q (acts st)) \<and>
        (stState s \<in> {RolloutSucceeded, RolloutFailed} \<longrightarrow> rnJournal st = s))"

lemma stState_simps [simp]: "stState zeroStatus = OtherRolloutState []" "stState (statusOf q a ph d reason) = a"
  by (simp_all add: zeroStatus_def statusOf_def)

lemma persist_result:
  assumes "persist p s st = (st1, s1, e)"
  obtains "s1 = zeroStatus" "e \<noteq> None" | "stState s1 = stState s" "stReason s1 = stReason s" "rnJournal st1 = s1" "acts st1 = acts st"
  using assms acts_persist [OF assms]
  by (auto simp: persist_def Advance_def publishStatus_def called_def Let_def split: prod.splits sum.splits option.splits)

lemma settled_running:
  "stState s \<notin> {RolloutSucceeded, RolloutFailed} \<Longrightarrow> settled q (st, s, Some e)"
  by (auto simp: settled_def)

lemma settled_fail:
  assumes "CHR '':'' \<notin> set reason \<Longrightarrow> seenPrevious q (acts st)"
  shows "settled q (fail_rollout p s reason cause st)"
  using assms
  by (auto simp: fail_rollout_def settled_def elim!: persist_result split: prod.splits option.splits)


lemma settled_fail_partial: "CHR '':'' \<in> set reason \<Longrightarrow> settled q (fail_rollout p s reason cause st)"
  by (rule settled_fail) simp

lemma settled_fail_restored:
  "lastSeen (acts st) = Some o' \<Longrightarrow> obBackend o' = rrPrevious q \<Longrightarrow> frontOld (obFront o') q \<Longrightarrow>
   settled q (fail_rollout p s reason cause st)"
  by (rule settled_fail) (simp add: seenPrevious_def)

lemma settled_compensateFront:
  assumes "lastSeen (acts st) = Some o'"
  shows "settled q (compensateFront p s q reason cause d o' st)"
  unfolding compensateFront_def Let_def using assms
  by (simp add: settled_fail_partial settled_fail_restored acts_observe split: prod.split sum.split option.split)

lemma settled_compensateBackend: "settled q (compensateBackend p q reason cause d st)"
  by (auto simp: compensateBackend_def intro!: settled_fail settled_compensateFront dest!: acts_calls
      split: prod.splits sum.splits option.splits)

lemma settled_compensate: "settled q (compensate p s q reason cause st)"
  by (auto simp: compensate_def Let_def intro!: settled_fail settled_compensateFront settled_compensateBackend
      dest!: acts_calls split: prod.splits sum.splits option.splits)

text \<open>A status with which the loop goes on is not a final one.\<close>

definition unfinished :: "RolloutStatus \<Rightarrow> bool" where
  "unfinished s \<longleftrightarrow> stState s \<notin> {RolloutSucceeded, RolloutFailed}"

lemma unfinished_persist: "persist p (statusOf q a ph d reason) st = (st1, s1, e) \<Longrightarrow>
  a \<notin> {RolloutSucceeded, RolloutFailed} \<Longrightarrow> unfinished s1"
  by (auto simp: unfinished_def elim!: persist_result)

lemma settled_actionFailed: "unfinished s \<Longrightarrow> settled q (actionFailed p q reason e s st)"
  by (auto simp: actionFailed_def settled_compensate unfinished_def intro: settled_running)

definition roundSettled :: "RolloutRequest \<Rightarrow> 'w roundResult \<Rightarrow> bool" where
  "roundSettled q r \<longleftrightarrow> (case r of Inl (st, s) \<Rightarrow> unfinished s | Inr res \<Rightarrow> settled q res)"

lemma roundSettled_simps [simp]:
  "roundSettled q (Inl (st, s)) = unfinished s" "roundSettled q (Inr res) = settled q res"
  by (simp_all add: roundSettled_def)

lemma roundSettled_continueWith:
  "a \<notin> {RolloutSucceeded, RolloutFailed} \<Longrightarrow> roundSettled q (continueWith p (statusOf q' a ph d reason) st)"
  by (auto simp: continueWith_def unfinished_def intro!: settled_running elim!: persist_result split: prod.splits option.splits)

lemma settled_success:
  "seenCandidate q (acts st) \<Longrightarrow> settled q (persist p (statusOf q RolloutSucceeded ph d reason) st)"
  by (auto simp: settled_def elim!: persist_result split: prod.splits)

lemma settled_success_seen:
  "lastSeen (acts st) = Some o' \<Longrightarrow> obBackend o' = rrCandidate q \<Longrightarrow>
   idCatalogHash (rrCandidate q) = idCatalogHash (rrPrevious q) \<or> frontNew (obFront o') q \<Longrightarrow>
   settled q (persist p (statusOf q RolloutSucceeded ph d reason) st)"
  by (rule settled_success) (simp add: seenCandidate_def)

lemma roundSettled_verify:
  "roundSettled q
     (case persist p (statusOf q RolloutRunning ph [] []) st of
        (st1, s1, _) \<Rightarrow>
          (case verifyBackend p i st1 of
             (st2, Some e) \<Rightarrow> Inr (actionFailed p q reason e s1 st2)
           | (st2, None) \<Rightarrow> continueWith p (statusOf q RolloutRunning ph' [] []) st2))"
  by (auto intro!: settled_actionFailed roundSettled_continueWith dest!: unfinished_persist split: prod.splits option.splits)

lemma roundSettled_finalize:
  "roundSettled q
     (case persist p (statusOf q RolloutRunning ph [] []) st of
        (st1, s1, _) \<Rightarrow>
          (case finalizeFront p i st1 of
             (st2, d, Some e) \<Rightarrow> Inr (actionFailed p q reason e s1 st2)
           | (st2, d, None) \<Rightarrow> continueWith p (statusOf q RolloutRunning ph' d []) st2))"
  by (auto intro!: settled_actionFailed roundSettled_continueWith dest!: unfinished_persist split: prod.splits option.splits)

lemma roundSettled_candidateRound:
  assumes "lastSeen (acts st) = Some o'" "obBackend o' = rrCandidate q"
  shows "roundSettled q (candidateRound p q o' s st)"
  unfolding candidateRound_def
  by (simp add: roundSettled_verify roundSettled_finalize settled_compensate settled_success_seen [OF assms])

lemma roundSettled_previousRound:
  assumes "unfinished s"
  shows "roundSettled q (previousRound p q o' s st)"
  using assms
  by (auto simp: previousRound_def intro!: settled_compensate settled_actionFailed roundSettled_continueWith settled_running
      dest!: unfinished_persist split: prod.splits option.splits) (auto simp: unfinished_def)

lemma roundSettled_runRound:
  assumes "unfinished s"
  shows "roundSettled q (runRound p q s st)"
  using assms
  by (auto simp: runRound_def intro!: settled_compensate settled_actionFailed roundSettled_candidateRound
      roundSettled_previousRound settled_running dest!: acts_observe split: prod.splits sum.splits option.splits)
     (auto simp: unfinished_def)

lemma settled_runLoop: "unfinished s \<Longrightarrow> settled q (runLoop p q n s st)"
proof (induction n arbitrary: s st)
  case 0
  show ?case by (simp add: settled_compensate)
next
  case (Suc n)
  from roundSettled_runRound [OF Suc.prems, of q p st] show ?case
    by (auto simp: Suc.IH split: sum.splits prod.splits)
qed

subsection \<open>The budget\<close>

lemma length_compensateFront:
  "compensateFront p s q reason cause d o' st = (st1, s1, e) \<Longrightarrow> length (acts st1) \<le> length (acts st) + 2"
  by (auto simp: compensateFront_def Let_def dest!: acts_calls split: prod.splits sum.splits option.splits if_splits)

lemma length_compensateBackend:
  "compensateBackend p q reason cause d st = (st1, s1, e) \<Longrightarrow> length (acts st1) \<le> length (acts st) + 4"
  by (auto simp: compensateBackend_def dest!: acts_calls length_compensateFront
      split: prod.splits sum.splits option.splits if_splits)

lemma length_compensate:
  "compensate p s q reason cause st = (st1, s1, e) \<Longrightarrow> length (acts st1) \<le> length (acts st) + 5"
  by (auto simp: compensate_def Let_def dest!: acts_calls length_compensateFront length_compensateBackend
      split: prod.splits sum.splits option.splits if_splits)

end
