(* ===== verification/Rollout_Properties.thy ===== *)
theory Rollout_Properties
  imports Catalog_Rollout
begin

text \<open>
  What the rollout runner guarantees whatever its platform does (the discipline of its
  calls, what its results mean, its budget), that it converges on a platform that does
  what it is asked, also when it resumes, and what a journal failure during a
  compensation leaves behind.
\<close>

subsection \<open>The budget\<close>

lemma length_fst_compensate: "length (acts (fst (compensate p s q reason cause st))) \<le> length (acts st) + 5"
  by (metis length_compensate prod.exhaust_sel)

lemma length_fst_actionFailed: "length (acts (fst (actionFailed p q reason e s st))) \<le> length (acts st) + 5"
  by (simp add: actionFailed_def length_fst_compensate)

text \<open>A round that goes on makes two calls, one that ends the run seven.\<close>

definition roundBudget :: "nat \<Rightarrow> 'w roundResult \<Rightarrow> bool" where
  "roundBudget n r \<longleftrightarrow>
     (case r of Inl (st, s) \<Rightarrow> length (acts st) \<le> n + 2 | Inr res \<Rightarrow> length (acts (fst res)) \<le> n + 7)"

lemma roundBudget_simps [simp]:
  "roundBudget n (Inl (st, s)) = (length (acts st) \<le> n + 2)"
  "roundBudget n (Inr res) = (length (acts (fst res)) \<le> n + 7)"
  by (simp_all add: roundBudget_def)

lemma roundBudget_continueWith: "length (acts st) \<le> n + 2 \<Longrightarrow> roundBudget n (continueWith p s st)"
  by (auto simp: continueWith_def dest!: acts_persist split: prod.splits option.splits)

lemma budget_end:
  "length (acts st) \<le> n + 2 \<Longrightarrow> length (acts (fst (compensate p s q reason cause st))) \<le> n + 7"
  "length (acts st) \<le> n + 2 \<Longrightarrow> length (acts (fst (actionFailed p q reason cause s st))) \<le> n + 7"
  using length_fst_compensate [of p s q reason cause st] length_fst_actionFailed [of p q reason cause s st] by linarith+

lemma roundBudget_candidateRound:
  "length (acts st) = n + 1 \<Longrightarrow> roundBudget n (candidateRound p q o' s st)"
  by (auto simp: candidateRound_def intro!: budget_end roundBudget_continueWith dest!: acts_calls
      split: prod.splits option.splits)

lemma roundBudget_previousRound:
  "length (acts st) = n + 1 \<Longrightarrow> roundBudget n (previousRound p q o' s st)"
  by (auto simp: previousRound_def intro!: budget_end roundBudget_continueWith dest!: acts_calls
      split: prod.splits option.splits)

lemma roundBudget_runRound: "roundBudget (length (acts st)) (runRound p q s st)"
  by (auto simp: runRound_def intro!: budget_end roundBudget_candidateRound roundBudget_previousRound
      dest!: acts_observe split: prod.splits sum.splits option.splits)

lemma length_runLoop: "length (acts (fst (runLoop p q n s st))) \<le> length (acts st) + 2 * n + 5"
proof (induction n arbitrary: s st)
  case 0
  show ?case using length_fst_compensate by simp
next
  case (Suc n)
  show ?case
  proof (cases "runRound p q s st")
    case (Inl r)
    then obtain st1 s1 where r: "runRound p q s st = Inl (st1, s1)" by (cases r) auto
    with roundBudget_runRound [of st p q s] Suc.IH [of s1 st1] show ?thesis by simp
  next
    case (Inr r)
    with roundBudget_runRound [of st p q s] show ?thesis by simp
  qed
qed

subsection \<open>The runs\<close>

definition startRun :: "'w \<Rightarrow> RolloutStatus \<Rightarrow> 'w runState" where
  "startRun w j = \<lparr>rnWorld = w, rnJournal = j, rnCalls = []\<rparr>"

lemma acts_startRun [simp]: "acts (startRun w j) = []"
  by (simp add: startRun_def actions_def)

lemma Read_journal_status: "Read_journal p st = (st1, Inr s) \<Longrightarrow> s = rnJournal st \<and> rnJournal st1 = rnJournal st"
  by (auto simp: Read_journal_def checkStatus_def split: prod.splits option.splits if_splits)

text \<open>The ends of a run: without an action, or those of the loop.\<close>

lemma Run_cases:
  obtains (idle) "acts (fst (Run p q st)) = acts st" "settled q (Run p q st)"
  | (again) "acts (fst (Run p q st)) = acts st" "fst (snd (Run p q st)) = rnJournal st"
      "stState (rnJournal st) \<in> {RolloutSucceeded, RolloutFailed}"
      "rrRequestID (stRequest (rnJournal st)) = rrRequestID q"
  | (loop) s st1 where "Run p q st = runLoop p q 24 s st1" "acts st1 = acts st" "unfinished s"
proof (cases "Validate_request q")
  case (Some e)
  then show ?thesis using idle by (simp add: Run_def settled_running)
next
  case valid: None
  obtain st1 r where read: "Read_journal p st = (st1, r)" by force
  note a1 = acts_Read_journal [OF read]
  show ?thesis
  proof (cases r)
    case (Inl e)
    with valid read a1 show ?thesis using idle by (simp add: Run_def settled_running)
  next
    case (Inr s)
    with read have s: "s = rnJournal st" by (simp add: Read_journal_status)
    let ?mine = "rrRequestID (stRequest s) = rrRequestID q"
    note run = Run_def [of p q st] valid read Inr
    consider "stState s \<in> {RolloutQueued, RolloutRunning, RolloutCompensating}" "\<not> ?mine"
      | "?mine" "stState s \<in> {RolloutSucceeded, RolloutFailed}"
      | "\<not> ?mine" "stState s \<notin> {RolloutQueued, RolloutRunning, RolloutCompensating}"
      | "?mine" "unfinished s"
      by (auto simp: unfinished_def)
    then show ?thesis
    proof cases
      case 1
      then show ?thesis using idle run a1 by (auto simp: settled_running)
    next
      case 2
      obtain st2 e where "publishStatus p s st1 = (st2, e)" by force
      with 2 run a1 s show ?thesis using again acts_publishStatus [of p s st1 st2 e] by (cases e) auto
    next
      case 3
      obtain st2 s2 e where pe: "persist p (statusOf q RolloutQueued PhaseNone [] []) st1 = (st2, s2, e)"
        by (metis prod_cases3)
      note u = unfinished_persist [OF pe] acts_persist [OF pe]
      show ?thesis
        using 3 run a1 pe u idle loop [of s2 st2] by (cases e) (auto simp: unfinished_def settled_running)
    next
      case 4
      then show ?thesis using run a1 loop [of s st1] by (auto simp: unfinished_def)
    qed
  qed
qed

text \<open>
  C8: Whatever the platform answers, every call the runner makes that changes the deployed
  system is one the observation just before it allows. The front door is opened to both
  catalogs only on the previous backend behind the old contract. The candidate backend is
  deployed only over the previous one, behind a front door that admits both catalogs (or
  when the catalog does not change). The front door is closed on the candidate only when
  the candidate serves. A rollback goes to the previous identity, of a backend that was
  seen to be the candidate or whose deployment just failed.
\<close>

theorem rollout_disciplined: "disciplined q (actions (rnCalls (fst (Run p q (startRun w j)))))"
proof (cases rule: Run_cases [of p q "startRun w j"])
  case (loop s st1)
  then show ?thesis by (simp add: disciplined_runLoop)
qed simp_all

text \<open>
  C9: A run without an error has succeeded. A run that reports success last observed the
  candidate backend behind the new contract (or an unchanged catalog), and one that
  reports a failure without a rollback remark last observed the previous backend behind
  the old contract. A final status that is reported is the one the journal holds. The
  only other case is a request that was already finished: its status is given back and
  nothing is called but the publication.
\<close>

theorem rollout_outcome:
  "settled q (Run p q (startRun w j)) \<or>
   (stState j \<in> {RolloutSucceeded, RolloutFailed} \<and> rrRequestID (stRequest j) = rrRequestID q \<and>
    fst (snd (Run p q (startRun w j))) = j \<and> actions (rnCalls (fst (Run p q (startRun w j)))) = [])"
proof (cases rule: Run_cases [of p q "startRun w j"])
  case again
  then show ?thesis by (simp add: startRun_def actions_def)
next
  case (loop s st1)
  then show ?thesis by (simp add: settled_runLoop)
qed simp

text \<open>
  C30: A run ends after at most 53 calls of the platform other than publications: two in
  each of the 24 rounds of its budget and five in the compensation.
\<close>

theorem rollout_budget: "length (actions (rnCalls (fst (Run p q (startRun w j))))) \<le> 53"
proof (cases rule: Run_cases [of p q "startRun w j"])
  case (loop s st1)
  then show ?thesis using length_runLoop [of p q 24 s st1] by simp
qed simp_all

subsection \<open>Convergence\<close>

text \<open>
  A platform that does what it is asked: its calls do not fail, reading and publishing
  leave the deployed system (its \<open>view\<close>) as it is, and each change has its effect.
\<close>

definition cooperative :: "'w RolloutPlatform \<Rightarrow> RolloutRequest \<Rightarrow> ('w \<Rightarrow> Observation) \<Rightarrow> bool" where
  "cooperative p q view \<longleftrightarrow> (\<forall>w.
     pfCtxErr p w = None \<and>
     (\<exists>w'. pfJournalError p w = (w', None) \<and> view w' = view w) \<and>
     (\<exists>w'. pfObserve p w = (w', Inr (view w)) \<and> view w' = view w) \<and>
     (\<forall>s. \<exists>w'. pfPublishStatus p s w = (w', None) \<and> view w' = view w) \<and>
     (\<exists>w'. pfVerifyBackend p (rrCandidate q) w = (w', None) \<and> view w' = view w) \<and>
     (\<exists>w' d. pfPrepareFront p (rrPrevious q) (rrCandidate q) w = (w', d, None) \<and>
        view w' = (view w)\<lparr>obFront := \<lparr>fcPrimary = idCatalogHash (rrCandidate q), fcTransition = idCatalogHash (rrPrevious q)\<rparr>\<rparr>) \<and>
     (\<exists>w' d. pfDeployBackend p (rrCandidate q) w = (w', d, None) \<and> view w' = (view w)\<lparr>obBackend := rrCandidate q\<rparr>) \<and>
     (\<exists>w' d. pfFinalizeFront p (rrCandidate q) w = (w', d, None) \<and>
        view w' = (view w)\<lparr>obFront := \<lparr>fcPrimary = idCatalogHash (rrCandidate q), fcTransition = []\<rparr>\<rparr>))"

text \<open>The deployments a rollout passes through.\<close>

definition onPath :: "RolloutRequest \<Rightarrow> Observation \<Rightarrow> bool" where
  "onPath q o' \<longleftrightarrow>
     (let transition = idCatalogHash (rrCandidate q) \<noteq> idCatalogHash (rrPrevious q) \<and> frontBoth (obFront o') q
      in obBackend o' = rrPrevious q \<and> (frontOld (obFront o') q \<or> transition) \<or>
         obBackend o' = rrCandidate q \<and> (frontNew (obFront o') q \<or> transition))"

definition journalOk :: "'w runState \<Rightarrow> bool" where
  "journalOk st \<longleftrightarrow> checkStatus (rnJournal st) = Inr (rnJournal st)"

lemma Validate_request_parts:
  assumes "Validate_request q = None"
  shows "Validate_identity (rrPrevious q) = None" "Validate_identity (rrCandidate q) = None"
    "idCatalogHash (rrPrevious q) \<noteq> []" "idCatalogHash (rrCandidate q) \<noteq> []"
  using assms
  by (auto simp: Validate_request_def Validate_identity_def Validate_catalog_def catalogPattern_def digestPattern_def
      prefixPattern_def split: option.splits if_splits)

lemma onPath_valid:
  assumes "Validate_request q = None" "onPath q o'"
  shows "validateObservation o' q = None"
  using assms Validate_request_parts [OF assms(1)]
  by (auto simp: onPath_def validateObservation_def frontOld_def frontNew_def frontBoth_def Let_def)

lemma persist_cooperative:
  assumes "cooperative p q view" "Validate_request q = None" "journalOk st"
  obtains st1 s1 where "persist p (statusOf q a ph d reason) st = (st1, s1, None)" "stPhase s1 = ph" "stState s1 = a"
    "journalOk st1" "view (rnWorld st1) = view (rnWorld st)"
proof -
  from assms(1) obtain w1 where w1: "pfJournalError p (rnWorld st) = (w1, None)" "view w1 = view (rnWorld st)"
    unfolding cooperative_def by blast
  define nxt where "nxt = (statusOf q a ph d reason)\<lparr>stSchemaVersion := 1,
    stRevision := stRevision (rnJournal st) + 1, stUpdatedAt := pfNow p w1\<rparr>"
  from assms(1) obtain w2 where w2: "pfPublishStatus p nxt w1 = (w2, None)" "view w2 = view w1"
    unfolding cooperative_def by blast
  show thesis
    by (rule that [of "st\<lparr>rnWorld := w2, rnJournal := nxt, rnCalls := CallPublishStatus nxt # rnCalls st\<rparr>" nxt])
      (use assms(2,3) w1 w2 in \<open>simp_all add: persist_def Advance_def publishStatus_def called_def journalOk_def
         checkStatus_def Let_def nxt_def statusOf_def\<close>)
qed

lemma continueWith_cooperative:
  assumes "cooperative p q view" "Validate_request q = None" "journalOk st"
  obtains st1 s1 where "continueWith p (statusOf q a ph d reason) st = Inl (st1, s1)" "stPhase s1 = ph"
    "journalOk st1" "view (rnWorld st1) = view (rnWorld st)"
  by (rule persist_cooperative [OF assms, of a ph d reason]) (auto simp: continueWith_def intro: that)

lemma journalOk_called [simp]: "journalOk (called st w c) = journalOk st" "rnWorld (called st w c) = w"
  by (simp_all add: journalOk_def called_def)

text \<open>The four calls, on a platform that cooperates.\<close>

lemma calls_cooperative:
  assumes "cooperative p q view"
  shows "\<exists>st1. observe p st = (st1, Inr (view (rnWorld st))) \<and> journalOk st1 = journalOk st \<and>
           view (rnWorld st1) = view (rnWorld st)"
    and "\<exists>st1. verifyBackend p (rrCandidate q) st = (st1, None) \<and> journalOk st1 = journalOk st \<and>
           view (rnWorld st1) = view (rnWorld st)"
    and "\<exists>st1 d. prepareFront p (rrPrevious q) (rrCandidate q) st = (st1, d, None) \<and> journalOk st1 = journalOk st \<and>
           obBackend (view (rnWorld st1)) = obBackend (view (rnWorld st)) \<and> frontBoth (obFront (view (rnWorld st1))) q"
    and "\<exists>st1 d. deployBackend p (rrCandidate q) st = (st1, d, None) \<and> journalOk st1 = journalOk st \<and>
           obBackend (view (rnWorld st1)) = rrCandidate q \<and> obFront (view (rnWorld st1)) = obFront (view (rnWorld st))"
    and "\<exists>st1 d. finalizeFront p (rrCandidate q) st = (st1, d, None) \<and> journalOk st1 = journalOk st \<and>
           obBackend (view (rnWorld st1)) = obBackend (view (rnWorld st)) \<and> frontNew (obFront (view (rnWorld st1))) q"
proof -
  note c = spec [OF assms [unfolded cooperative_def], of "rnWorld st"]
  from c show "\<exists>st1. observe p st = (st1, Inr (view (rnWorld st))) \<and> journalOk st1 = journalOk st \<and>
      view (rnWorld st1) = view (rnWorld st)" by (auto simp: observe_def)
  from c show "\<exists>st1. verifyBackend p (rrCandidate q) st = (st1, None) \<and> journalOk st1 = journalOk st \<and>
      view (rnWorld st1) = view (rnWorld st)" by (auto simp: verifyBackend_def)
  from c show "\<exists>st1 d. prepareFront p (rrPrevious q) (rrCandidate q) st = (st1, d, None) \<and> journalOk st1 = journalOk st \<and>
      obBackend (view (rnWorld st1)) = obBackend (view (rnWorld st)) \<and> frontBoth (obFront (view (rnWorld st1))) q"
    by (auto simp: prepareFront_def frontBoth_def)
  from c show "\<exists>st1 d. deployBackend p (rrCandidate q) st = (st1, d, None) \<and> journalOk st1 = journalOk st \<and>
      obBackend (view (rnWorld st1)) = rrCandidate q \<and> obFront (view (rnWorld st1)) = obFront (view (rnWorld st))"
    by (auto simp: deployBackend_def)
  from c show "\<exists>st1 d. finalizeFront p (rrCandidate q) st = (st1, d, None) \<and> journalOk st1 = journalOk st \<and>
      obBackend (view (rnWorld st1)) = obBackend (view (rnWorld st)) \<and> frontNew (obFront (view (rnWorld st1))) q"
    by (auto simp: finalizeFront_def frontNew_def)
qed

text \<open>A round on the path: its observation is the view, and the branch of the backend is taken.\<close>

lemma runRound_onPath:
  assumes "cooperative p q view" "Validate_request q = None" "journalOk st" "onPath q (view (rnWorld st))"
  obtains st1 where "journalOk st1" "view (rnWorld st1) = view (rnWorld st)"
    "runRound p q s st =
       (if obBackend (view (rnWorld st)) = rrCandidate q then candidateRound p q (view (rnWorld st)) s st1
        else previousRound p q (view (rnWorld st)) s st1)"
proof -
  obtain st1 where st1: "observe p st = (st1, Inr (view (rnWorld st)))" "journalOk st1 = journalOk st"
    "view (rnWorld st1) = view (rnWorld st)" using calls_cooperative(1) [OF assms(1)] by blast
  have ctx: "pfCtxErr p (rnWorld st) = None" using assms(1) by (simp add: cooperative_def)
  have "obBackend (view (rnWorld st)) = rrCandidate q \<or> obBackend (view (rnWorld st)) = rrPrevious q"
    using assms(4) by (auto simp: onPath_def Let_def)
  with st1 ctx assms(3) onPath_valid [OF assms(2,4)] show thesis
    by (intro that [of st1]) (auto simp: runRound_def)
qed

definition converged :: "RolloutRequest \<Rightarrow> ('w \<Rightarrow> Observation) \<Rightarrow> 'w runResult \<Rightarrow> bool" where
  "converged q view r \<longleftrightarrow>
     (case r of (st, s, e) \<Rightarrow>
        e = None \<and> stState s = RolloutSucceeded \<and>
        obBackend (view (rnWorld st)) = rrCandidate q \<and> frontNew (obFront (view (rnWorld st))) q)"

lemma runLoop_next: "runRound p q s st = Inl (st1, s1) \<Longrightarrow> runLoop p q (Suc n) s st = runLoop p q n s1 st1"
  by simp

lemma onPath_candidate:
  "onPath q o' \<Longrightarrow> obBackend o' = rrCandidate q \<Longrightarrow> \<not> frontNew (obFront o') q \<Longrightarrow>
   idCatalogHash (rrCandidate q) \<noteq> idCatalogHash (rrPrevious q) \<and> frontBoth (obFront o') q"
  by (auto simp: onPath_def frontOld_def frontNew_def Let_def)

lemma converge_finalized:
  assumes "cooperative p q view" "Validate_request q = None" "journalOk st" "onPath q (view (rnWorld st))"
    "obBackend (view (rnWorld st)) = rrCandidate q" "frontNew (obFront (view (rnWorld st))) q"
    "stPhase s \<in> {PhaseFinalizeFront, PhaseComplete}"
  shows "converged q view (runLoop p q (Suc n) s st)"
proof -
  obtain st1 where st1: "journalOk st1" "view (rnWorld st1) = view (rnWorld st)"
    "runRound p q s st = candidateRound p q (view (rnWorld st)) s st1"
    using runRound_onPath [OF assms(1-4), of s] assms(5) by metis
  obtain st2 s2 where "persist p (statusOf q RolloutSucceeded PhaseComplete [] []) st1 = (st2, s2, None)"
    "stState s2 = RolloutSucceeded" "view (rnWorld st2) = view (rnWorld st1)"
    by (rule persist_cooperative [OF assms(1,2) st1(1)])
  with st1 assms(5-7) show ?thesis by (auto simp: candidateRound_def converged_def)
qed

lemma converge_verified:
  assumes "cooperative p q view" "Validate_request q = None" "journalOk st" "onPath q (view (rnWorld st))"
    "obBackend (view (rnWorld st)) = rrCandidate q" "stPhase s \<in> {PhaseFinalizeFront, PhaseComplete}"
  shows "converged q view (runLoop p q (Suc (Suc n)) s st)"
proof (cases "frontNew (obFront (view (rnWorld st))) q")
  case False
  note both = onPath_candidate [OF assms(4,5) False]
  obtain st1 where st1: "journalOk st1" "view (rnWorld st1) = view (rnWorld st)"
    "runRound p q s st = candidateRound p q (view (rnWorld st)) s st1"
    using runRound_onPath [OF assms(1-4), of s] assms(5) by metis
  obtain st2 s2 where st2: "persist p (statusOf q RolloutRunning PhaseFinalizeFront [] []) st1 = (st2, s2, None)"
    "journalOk st2" "view (rnWorld st2) = view (rnWorld st1)"
    by (rule persist_cooperative [OF assms(1,2) st1(1)])
  obtain st3 d where st3: "finalizeFront p (rrCandidate q) st2 = (st3, d, None)" "journalOk st3 = journalOk st2"
    "obBackend (view (rnWorld st3)) = obBackend (view (rnWorld st2))" "frontNew (obFront (view (rnWorld st3))) q"
    using calls_cooperative(5) [OF assms(1)] by blast
  with st2 have "journalOk st3" by simp
  from continueWith_cooperative [OF assms(1,2) this, of RolloutRunning PhaseComplete d "[]"]
  obtain st4 s4 where st4: "continueWith p (statusOf q RolloutRunning PhaseComplete d []) st3 = Inl (st4, s4)"
    "stPhase s4 = PhaseComplete" "journalOk st4" "view (rnWorld st4) = view (rnWorld st3)" by metis
  have "runRound p q s st = Inl (st4, s4)"
    using assms(5,6) both False st1 st2(1) st3(1) st4(1) by (auto simp: candidateRound_def)
  moreover have "converged q view (runLoop p q (Suc n) s4 st4)"
    by (rule converge_finalized [OF assms(1,2) st4(3)])
      (use st1 st2 st3 st4 assms(5) in \<open>simp_all add: onPath_def\<close>)
  ultimately show ?thesis by simp
qed (rule converge_finalized [OF assms(1-5) _ assms(6)])

lemma converge_candidate:
  assumes "cooperative p q view" "Validate_request q = None" "journalOk st" "onPath q (view (rnWorld st))"
    "obBackend (view (rnWorld st)) = rrCandidate q"
  shows "converged q view (runLoop p q (Suc (Suc (Suc n))) s st)"
proof (cases "stPhase s \<in> {PhaseFinalizeFront, PhaseComplete}")
  case False
  obtain st1 where st1: "journalOk st1" "view (rnWorld st1) = view (rnWorld st)"
    "runRound p q s st = candidateRound p q (view (rnWorld st)) s st1"
    using runRound_onPath [OF assms(1-4), of s] assms(5) by metis
  obtain st2 s2 where st2: "persist p (statusOf q RolloutRunning PhaseVerifyBackend [] []) st1 = (st2, s2, None)"
    "journalOk st2" "view (rnWorld st2) = view (rnWorld st1)"
    by (rule persist_cooperative [OF assms(1,2) st1(1)])
  obtain st3 where st3: "verifyBackend p (rrCandidate q) st2 = (st3, None)" "journalOk st3 = journalOk st2"
    "view (rnWorld st3) = view (rnWorld st2)"
    using calls_cooperative(2) [OF assms(1)] by blast
  with st2 have "journalOk st3" by simp
  from continueWith_cooperative [OF assms(1,2) this, of RolloutRunning PhaseFinalizeFront "[]" "[]"]
  obtain st4 s4 where st4: "continueWith p (statusOf q RolloutRunning PhaseFinalizeFront [] []) st3 = Inl (st4, s4)"
    "stPhase s4 = PhaseFinalizeFront" "journalOk st4" "view (rnWorld st4) = view (rnWorld st3)" by metis
  have "runRound p q s st = Inl (st4, s4)"
    using False st1 st2(1) st3(1) st4(1) by (auto simp: candidateRound_def)
  moreover have "converged q view (runLoop p q (Suc (Suc n)) s4 st4)"
    by (rule converge_verified [OF assms(1,2) st4(3)]) (use st1 st2 st3 st4 assms in simp_all)
  ultimately show ?thesis by simp
qed (rule converge_verified [OF assms])

lemma converge_ready:
  assumes "cooperative p q view" "Validate_request q = None" "journalOk st" "onPath q (view (rnWorld st))"
    "idCatalogHash (rrCandidate q) = idCatalogHash (rrPrevious q) \<or> frontBoth (obFront (view (rnWorld st))) q"
  shows "converged q view (runLoop p q (Suc (Suc (Suc (Suc n)))) s st)"
proof (cases "obBackend (view (rnWorld st)) = rrCandidate q")
  case False
  obtain st1 where st1: "journalOk st1" "view (rnWorld st1) = view (rnWorld st)"
    "runRound p q s st = previousRound p q (view (rnWorld st)) s st1"
    using runRound_onPath [OF assms(1-4), of s] False by metis
  obtain st2 s2 where st2: "persist p (statusOf q RolloutRunning PhaseDeployBackend [] []) st1 = (st2, s2, None)"
    "journalOk st2" "view (rnWorld st2) = view (rnWorld st1)"
    by (rule persist_cooperative [OF assms(1,2) st1(1)])
  obtain st3 d where st3: "deployBackend p (rrCandidate q) st2 = (st3, d, None)" "journalOk st3 = journalOk st2"
    "obBackend (view (rnWorld st3)) = rrCandidate q" "obFront (view (rnWorld st3)) = obFront (view (rnWorld st2))"
    using calls_cooperative(4) [OF assms(1)] by blast
  with st2 have "journalOk st3" by simp
  from continueWith_cooperative [OF assms(1,2) this, of RolloutRunning PhaseVerifyBackend d "[]"]
  obtain st4 s4 where st4: "continueWith p (statusOf q RolloutRunning PhaseVerifyBackend d []) st3 = Inl (st4, s4)"
    "journalOk st4" "view (rnWorld st4) = view (rnWorld st3)" by metis
  have "runRound p q s st = Inl (st4, s4)"
    using assms(5) st1 st2(1) st3(1) st4(1) by (auto simp: previousRound_def)
  moreover have "onPath q (view (rnWorld st4))"
    using assms(4,5) False st1 st2 st3 st4 by (auto simp: onPath_def frontOld_def frontNew_def Let_def)
  with converge_candidate [OF assms(1,2) st4(2)] st3 st4
  have "converged q view (runLoop p q (Suc (Suc (Suc n))) s4 st4)" by simp
  ultimately show ?thesis by simp
qed (rule converge_candidate [OF assms(1-4)])

lemma converge_path:
  assumes "cooperative p q view" "Validate_request q = None" "journalOk st" "onPath q (view (rnWorld st))"
  shows "converged q view (runLoop p q (Suc (Suc (Suc (Suc (Suc n))))) s st)"
proof (cases "obBackend (view (rnWorld st)) = rrCandidate q \<or> idCatalogHash (rrCandidate q) = idCatalogHash (rrPrevious q) \<or>
    frontBoth (obFront (view (rnWorld st))) q")
  case True
  then show ?thesis using converge_candidate [OF assms] converge_ready [OF assms] by blast
next
  case False
  then have old: "obBackend (view (rnWorld st)) = rrPrevious q" "frontOld (obFront (view (rnWorld st))) q"
    using assms(4) by (auto simp: onPath_def Let_def)
  obtain st1 where st1: "journalOk st1" "view (rnWorld st1) = view (rnWorld st)"
    "runRound p q s st = previousRound p q (view (rnWorld st)) s st1"
    using runRound_onPath [OF assms, of s] False by metis
  obtain st2 s2 where st2: "persist p (statusOf q RolloutRunning PhasePrepareFront [] []) st1 = (st2, s2, None)"
    "journalOk st2" "view (rnWorld st2) = view (rnWorld st1)"
    by (rule persist_cooperative [OF assms(1,2) st1(1)])
  obtain st3 d where st3: "prepareFront p (rrPrevious q) (rrCandidate q) st2 = (st3, d, None)" "journalOk st3 = journalOk st2"
    "obBackend (view (rnWorld st3)) = obBackend (view (rnWorld st2))" "frontBoth (obFront (view (rnWorld st3))) q"
    using calls_cooperative(3) [OF assms(1)] by blast
  with st2 have "journalOk st3" by simp
  from continueWith_cooperative [OF assms(1,2) this, of RolloutRunning PhaseDeployBackend d "[]"]
  obtain st4 s4 where st4: "continueWith p (statusOf q RolloutRunning PhaseDeployBackend d []) st3 = Inl (st4, s4)"
    "journalOk st4" "view (rnWorld st4) = view (rnWorld st3)" by metis
  have "runRound p q s st = Inl (st4, s4)"
    using False old st1 st2(1) st3(1) st4(1) by (auto simp: previousRound_def)
  moreover have "converged q view (runLoop p q (Suc (Suc (Suc (Suc n)))) s4 st4)"
    by (rule converge_ready [OF assms(1,2) st4(2)])
      (use False old st1 st2 st3 st4 in \<open>auto simp: onPath_def Let_def\<close>)
  ultimately show ?thesis by simp
qed

text \<open>A journal with which a request can start or go on.\<close>

definition startable :: "RolloutRequest \<Rightarrow> RolloutStatus \<Rightarrow> bool" where
  "startable q j \<longleftrightarrow>
     (if rrRequestID (stRequest j) = rrRequestID q then stState j \<notin> {RolloutSucceeded, RolloutFailed}
      else stState j \<notin> {RolloutQueued, RolloutRunning, RolloutCompensating})"

text \<open>The platform of the examples: a deployment that does what it is asked.\<close>

definition exampleIdentity :: "char \<Rightarrow> Identity" where
  "exampleIdentity c = \<lparr>idCommit = replicate 40 c, idProtocolVersion = ''2024-11-05'', idToolCount = 137,
     idCatalogHash = ''sha256:'' @ replicate 64 c\<rparr>"

definition exampleRequest :: RolloutRequest where
  "exampleRequest = \<lparr>rrRequestID = replicate 43 CHR ''r'', rrPrevious = exampleIdentity CHR ''a'',
     rrCandidate = exampleIdentity CHR ''b''\<rparr>"

definition examplePlatform :: "Observation RolloutPlatform" where
  "examplePlatform =
     \<lparr>pfCtxErr = (\<lambda>w. None), pfNow = (\<lambda>w. 0), pfJournalError = (\<lambda>w. (w, None)), pfObserve = (\<lambda>w. (w, Inr w)),
      pfPrepareFront = (\<lambda>a b w. (w\<lparr>obFront := \<lparr>fcPrimary = idCatalogHash b, fcTransition = idCatalogHash a\<rparr>\<rparr>, ''d1'', None)),
      pfDeployBackend = (\<lambda>i w. (w\<lparr>obBackend := i\<rparr>, ''d2'', None)), pfVerifyBackend = (\<lambda>i w. (w, None)),
      pfFinalizeFront = (\<lambda>i w. (w\<lparr>obFront := \<lparr>fcPrimary = idCatalogHash i, fcTransition = []\<rparr>\<rparr>, ''d3'', None)),
      pfRollbackBackend = (\<lambda>i w. (w\<lparr>obBackend := i\<rparr>, ''d4'', None)),
      pfRollbackFront = (\<lambda>i w. (w\<lparr>obFront := \<lparr>fcPrimary = idCatalogHash i, fcTransition = []\<rparr>\<rparr>, ''d5'', None)),
      pfPublishStatus = (\<lambda>s w. (w, None))\<rparr>"

definition exampleView :: Observation where
  "exampleView = \<lparr>obBackend = rrPrevious exampleRequest,
     obFront = \<lparr>fcPrimary = idCatalogHash (rrPrevious exampleRequest), fcTransition = []\<rparr>\<rparr>"

definition idleJournal :: RolloutStatus where
  "idleJournal = zeroStatus\<lparr>stSchemaVersion := 1, stState := RolloutIdle\<rparr>"

lemma exampleRequest_valid: "Validate_request exampleRequest = None"
  by code_simp

lemma examplePlatform_cooperative: "cooperative examplePlatform exampleRequest (\<lambda>w. w)"
  by (simp add: cooperative_def examplePlatform_def)

text \<open>
  C10: On a platform that does what it is asked, a run that starts or resumes anywhere on
  the way from the previous to the candidate deployment, in whatever phase its journal
  is, returns success, with the candidate backend deployed and the front door closed on
  the candidate catalog.
\<close>

theorem rollout_converges:
  assumes "cooperative p q view" "Validate_request q = None" "checkStatus j = Inr j" "startable q j" "onPath q (view w)"
  shows "converged q view (Run p q (startRun w j))"
proof -
  from assms(1) obtain w1 where w1: "pfJournalError p w = (w1, None)" "view w1 = view w"
    unfolding cooperative_def by blast
  let ?st = "(startRun w j)\<lparr>rnWorld := w1\<rparr>"
  have read: "Read_journal p (startRun w j) = (?st, Inr j)" using w1 assms(3) by (simp add: Read_journal_def startRun_def)
  have ok: "journalOk ?st" "view (rnWorld ?st) = view w" using w1 assms(3) by (simp_all add: journalOk_def startRun_def)
  have loop: "converged q view (runLoop p q 24 s st)" if "journalOk st" "onPath q (view (rnWorld st))" for s st
    using converge_path [OF assms(1,2) that, of 19 s] by (simp add: eval_nat_numeral del: runLoop.simps)
  obtain st2 s2 where st2: "persist p (statusOf q RolloutQueued PhaseNone [] []) ?st = (st2, s2, None)"
    "journalOk st2" "view (rnWorld st2) = view (rnWorld ?st)"
    by (rule persist_cooperative [OF assms(1,2) ok(1)])
  show ?thesis
    using assms(2,4,5) read ok st2 loop
    by (auto simp: Run_def startable_def Let_def simp del: runLoop.simps split: if_splits)
qed

theorem rollout_converges_witness:
  "converged exampleRequest (\<lambda>w. w) (Run examplePlatform exampleRequest (startRun exampleView idleJournal))"
proof -
  have "checkStatus idleJournal = Inr idleJournal" by (simp add: checkStatus_def idleJournal_def)
  moreover have "startable exampleRequest idleJournal" by (simp add: startable_def idleJournal_def)
  moreover have "onPath exampleRequest exampleView" by (simp add: onPath_def exampleView_def frontOld_def)
  ultimately show ?thesis
    by (rule rollout_converges [OF examplePlatform_cooperative exampleRequest_valid])
qed

subsection \<open>A journal failure during a compensation\<close>

lemma Validate_request_zero: "Validate_request (stRequest zeroStatus) = Some ''rollout request id is invalid''"
  by (simp add: zeroStatus_def statusOf_def Validate_request_def requestPattern_def)

text \<open>
  C31: When the journal cannot be written at the start of a compensation, the error is
  dropped with the status; if the system is then seen on the previous deployment and the
  journal works again, the failure is recorded with an empty request. Every later run
  that reads this journal, whatever its request and its platform, is refused.
\<close>

theorem compensate_invalid_journal:
  assumes "pfJournalError p w = (w1, Some err)" "pfObserve p w1 = (w2, Inr o')" "pfJournalError p w2 = (w3, None)"
    "checkStatus j = Inr j" "obBackend o' = rrPrevious q" "frontOld (obFront o') q" "rrPrevious q \<noteq> rrCandidate q"
    "reason \<noteq> ''backend_deploy_failed''"
    "Validate_request q' = None" "pfJournalError p' w' = (w'', None)"
  shows "snd (snd (Run p' q' (startRun w' (rnJournal (fst (compensate p s q reason cause (startRun w j))))))) =
    Some ''rollout request id is invalid''"
proof -
  have "checkStatus (rnJournal (fst (compensate p s q reason cause (startRun w j)))) = Inl ''rollout request id is invalid''"
    using assms(1-8) Validate_request_zero
    by (simp add: compensate_def compensateFront_def fail_rollout_def persist_def Advance_def observe_def publishStatus_def
        called_def startRun_def checkStatus_def Let_def split: prod.split option.split)
  with assms(9,10) show ?thesis by (simp add: Run_def Read_journal_def startRun_def)
qed

text \<open>A platform over a clock, whose journal cannot be written at the first access.\<close>

definition fullDisk :: "nat RolloutPlatform" where
  "fullDisk =
     \<lparr>pfCtxErr = (\<lambda>w. None), pfNow = (\<lambda>w. 0),
      pfJournalError = (\<lambda>w. (Suc w, if w = 0 then Some ''no space left on device'' else None)),
      pfObserve = (\<lambda>w. (Suc w, Inr exampleView)), pfPrepareFront = (\<lambda>a b w. (w, [], None)),
      pfDeployBackend = (\<lambda>i w. (w, [], None)), pfVerifyBackend = (\<lambda>i w. (w, None)),
      pfFinalizeFront = (\<lambda>i w. (w, [], None)), pfRollbackBackend = (\<lambda>i w. (w, [], None)),
      pfRollbackFront = (\<lambda>i w. (w, [], None)), pfPublishStatus = (\<lambda>s w. (w, None))\<rparr>"

theorem compensate_invalid_journal_witness:
  "snd (snd (Run examplePlatform exampleRequest (startRun exampleView (rnJournal (fst
     (compensate fullDisk (statusOf exampleRequest RolloutQueued PhaseNone [] []) exampleRequest ''observe_failed'' ''timeout''
        (startRun 0 idleJournal))))))) = Some ''rollout request id is invalid''"
proof (rule compensate_invalid_journal)
  show "pfJournalError fullDisk 0 = (1, Some ''no space left on device'')" by (simp add: fullDisk_def)
  show "pfObserve fullDisk 1 = (2, Inr exampleView)" by (simp add: fullDisk_def numeral_2_eq_2)
  show "pfJournalError fullDisk 2 = (3, None)" by (simp add: fullDisk_def)
  show "checkStatus idleJournal = Inr idleJournal" by (simp add: checkStatus_def idleJournal_def)
  show "obBackend exampleView = rrPrevious exampleRequest" "frontOld (obFront exampleView) exampleRequest"
    by (simp_all add: exampleView_def frontOld_def)
  show "rrPrevious exampleRequest \<noteq> rrCandidate exampleRequest" by code_simp
  show "Validate_request exampleRequest = None" by (rule exampleRequest_valid)
  show "pfJournalError examplePlatform exampleView = (exampleView, None)" by (simp add: examplePlatform_def)
qed simp

end
