(* ===== verification/Go_JsonParse.thy ===== *)
theory Go_JsonParse
  imports Go_Json
begin

text \<open>
  The decoder of \<open>encoding/json\<close>: the values of a JSON text, with numbers kept as their
  literals, and the way the members of an object are stored in the fields of a struct
  (\<open>json.NewDecoder\<close> with \<open>DisallowUnknownFields\<close>). A text that is not JSON, and one nested
  deeper than the 10000 levels the package allows, is \<open>None\<close>.
\<close>

subsection \<open>Strings\<close>

definition hexValue :: "char \<Rightarrow> nat option" where
  "hexValue c =
     (if isDigit c then Some (of_char c - 48)
      else if CHR ''a'' \<le> c \<and> c \<le> CHR ''f'' then Some (of_char c - 87)
      else if CHR ''A'' \<le> c \<and> c \<le> CHR ''F'' then Some (of_char c - 55)
      else None)"

definition hex4 :: "string \<Rightarrow> (nat \<times> string) option" where
  "hex4 s =
     (case s of
        a # b # c # d # rs \<Rightarrow>
          (case (hexValue a, hexValue b, hexValue c, hexValue d) of
             (Some p, Some q, Some r, Some t) \<Rightarrow> Some (((p * 16 + q) * 16 + r) * 16 + t, rs)
           | _ \<Rightarrow> None)
      | _ \<Rightarrow> None)"

definition encodeRune :: "nat \<Rightarrow> string" where
  "encodeRune r =
     (if r < 128 then [char_of r]
      else if r < 2048 then [char_of (192 + r div 64), char_of (128 + r mod 64)]
      else if r < 65536 then
        [char_of (224 + r div 4096), char_of (128 + r div 64 mod 64), char_of (128 + r mod 64)]
      else
        [char_of (240 + r div 262144), char_of (128 + r div 4096 mod 64), char_of (128 + r div 64 mod 64),
         char_of (128 + r mod 64)])"

definition replacementRune :: string where
  "replacementRune = encodeRune 65533"

definition surrogate :: "nat \<Rightarrow> bool" where
  "surrogate r \<longleftrightarrow> 55296 \<le> r \<and> r \<le> 57343"

text \<open>The escape after a backslash: its text and what follows it.\<close>

definition unescapeUnicode :: "string \<Rightarrow> (string \<times> string) option" where
  "unescapeUnicode s =
     (case hex4 s of
        None \<Rightarrow> None
      | Some (r, rs) \<Rightarrow>
         if \<not> surrogate r then Some (encodeRune r, rs)
         else
           case rs of
             a # b # rest1 \<Rightarrow>
               if a = CHR 0x5C \<and> b = CHR ''u'' \<and> r < 56320 then
                 (case hex4 rest1 of
                    Some (r2, rest2) \<Rightarrow>
                      if 56320 \<le> r2 \<and> r2 \<le> 57343
                      then Some (encodeRune ((r - 55296) * 1024 + (r2 - 56320) + 65536), rest2)
                      else Some (replacementRune, rs)
                  | None \<Rightarrow> Some (replacementRune, rs))
               else Some (replacementRune, rs)
           | _ \<Rightarrow> Some (replacementRune, rs))"

definition simpleEscapes :: "(char \<times> char) list" where
  "simpleEscapes =
     [(CHR 0x22, CHR 0x22), (CHR 0x5C, CHR 0x5C), (CHR ''/'', CHR ''/''), (CHR ''b'', CHR 0x08),
      (CHR ''f'', CHR 0x0C), (CHR ''n'', CHR 0x0A), (CHR ''r'', CHR 0x0D), (CHR ''t'', CHR 0x09)]"

definition unescape :: "string \<Rightarrow> (string \<times> string) option" where
  "unescape s =
     (case s of
        [] \<Rightarrow> None
      | c # cs \<Rightarrow>
         if c = CHR ''u'' then unescapeUnicode cs
         else map_option (\<lambda>d. ([d], cs)) (map_of simpleEscapes c))"

lemma hex4_length: "hex4 s = Some (r, rs) \<Longrightarrow> length rs < length s"
  by (auto simp: hex4_def split: list.splits option.splits)

lemma unescapeUnicode_length: "unescapeUnicode s = Some (out, rs) \<Longrightarrow> length rs < length s"
  by (auto simp: unescapeUnicode_def dest!: hex4_length split: option.splits prod.splits if_splits list.splits)

lemma unescape_length: "unescape s = Some (out, rs) \<Longrightarrow> length rs < length s"
  by (auto simp: unescape_def dest: unescapeUnicode_length split: list.splits if_splits)

definition prepend :: "string \<Rightarrow> (string \<times> string) option \<Rightarrow> (string \<times> string) option" where
  "prepend out r = map_option (\<lambda>(s, rs). (out @ s, rs)) r"

text \<open>The characters up to the closing quote.\<close>

function parseChars :: "string \<Rightarrow> (string \<times> string) option" where
  "parseChars s =
     (case s of
        [] \<Rightarrow> None
      | c # cs \<Rightarrow>
         if c = CHR 0x22 then Some ([], cs)
         else if c = CHR 0x5C then
           (case unescape cs of None \<Rightarrow> None | Some (out, rs) \<Rightarrow> prepend out (parseChars rs))
         else if c < CHR 0x20 then None
         else if c < CHR 0x80 then prepend [c] (parseChars cs)
         else
           let w = max 1 (runeWidth s)
           in prepend (if w = 1 then replacementRune else take w s) (parseChars (drop w s)))"
  by pat_completeness auto
termination
  by (relation "measure length") (auto simp: Let_def dest: unescape_length)

declare parseChars.simps [simp del]

subsection \<open>Values\<close>

datatype jval =
    VNull
  | VBool bool
  | VNumber string
  | VString string
  | VArray "jval list"
  | VObject "(string \<times> jval) list"

definition skipSpace :: "string \<Rightarrow> string" where
  "skipSpace s = dropWhile (\<lambda>c. c \<in> {CHR '' '', CHR 0x09, CHR 0x0A, CHR 0x0D}) s"

definition digitsOf :: "string \<Rightarrow> string \<times> string" where
  "digitsOf s = (takeWhile isDigit s, dropWhile isDigit s)"

definition parseFraction :: "string \<Rightarrow> (string \<times> string) option" where
  "parseFraction s =
     (case s of
        c # cs \<Rightarrow>
          if c = CHR ''.'' then
            (case digitsOf cs of (ds, rs) \<Rightarrow> if ds = [] then None else Some (c # ds, rs))
          else Some ([], s)
      | [] \<Rightarrow> Some ([], s))"

definition parseExponent :: "string \<Rightarrow> (string \<times> string) option" where
  "parseExponent s =
     (case s of
        c # cs \<Rightarrow>
          if c = CHR ''e'' \<or> c = CHR ''E'' then
            (let sign = (case cs of d # _ \<Rightarrow> if d = CHR ''+'' \<or> d = CHR ''-'' then [d] else [] | [] \<Rightarrow> [])
             in case digitsOf (drop (length sign) cs) of
                  (ds, rs) \<Rightarrow> if ds = [] then None else Some (c # sign @ ds, rs))
          else Some ([], s)
      | [] \<Rightarrow> Some ([], s))"

definition parseWhole :: "string \<Rightarrow> (string \<times> string) option" where
  "parseWhole s =
     (case s of
        [] \<Rightarrow> None
      | c # cs \<Rightarrow>
         if c = CHR ''0'' then Some ([c], cs)
         else if isDigit c then Some (digitsOf s)
         else None)"

definition parseNumber :: "string \<Rightarrow> (string \<times> string) option" where
  "parseNumber s =
     (let sign = (case s of c # _ \<Rightarrow> if c = CHR ''-'' then [c] else [] | [] \<Rightarrow> [])
      in case parseWhole (drop (length sign) s) of
           None \<Rightarrow> None
         | Some (whole, r1) \<Rightarrow>
            (case parseFraction r1 of
               None \<Rightarrow> None
             | Some (frac, r2) \<Rightarrow>
                map_option (\<lambda>(ex, r3). (sign @ whole @ frac @ ex, r3)) (parseExponent r2)))"

definition literal :: "string \<Rightarrow> jval \<Rightarrow> string \<Rightarrow> (jval \<times> string) option" where
  "literal w v s = map_option (\<lambda>rs. (v, rs)) (stripPrefix w s)"

definition parseScalar :: "string \<Rightarrow> (jval \<times> string) option" where
  "parseScalar s =
     (case s of
        [] \<Rightarrow> None
      | c # cs \<Rightarrow>
         if c = CHR 0x22 then map_option (\<lambda>(t, rs). (VString t, rs)) (parseChars cs)
         else if c = CHR ''n'' then literal ''null'' VNull s
         else if c = CHR ''t'' then literal ''true'' (VBool True) s
         else if c = CHR ''f'' then literal ''false'' (VBool False) s
         else map_option (\<lambda>(t, rs). (VNumber t, rs)) (parseNumber s))"

text \<open>
  The elements of an array and the members of an object, up to the closing bracket; the
  parser of one value is an argument, and what it leaves is shorter than what it got.
\<close>

function parseElements :: "(string \<Rightarrow> (jval \<times> string) option) \<Rightarrow> string \<Rightarrow> (jval list \<times> string) option" where
  "parseElements value s =
     (case value s of
        None \<Rightarrow> None
      | Some (v, rs) \<Rightarrow>
         (case skipSpace rs of
            [] \<Rightarrow> None
          | c # rest1 \<Rightarrow>
             if c = CHR '']'' then Some ([v], rest1)
             else if c = CHR '','' \<and> length rest1 < length s then
               map_option (\<lambda>(vs, r). (v # vs, r)) (parseElements value rest1)
             else None))"
  by pat_completeness auto
termination
  by (relation "measure (\<lambda>(value, s). length s)") auto

declare parseElements.simps [simp del]

definition parseMember ::
  "(string \<Rightarrow> (jval \<times> string) option) \<Rightarrow> string \<Rightarrow> ((string \<times> jval) \<times> string) option" where
  "parseMember value s =
     (case skipSpace s of
        [] \<Rightarrow> None
      | c # cs \<Rightarrow>
         if c \<noteq> CHR 0x22 then None
         else
           (case parseChars cs of
              None \<Rightarrow> None
            | Some (k, rs) \<Rightarrow>
               (case skipSpace rs of
                  [] \<Rightarrow> None
                | d # rest1 \<Rightarrow>
                   if d \<noteq> CHR '':'' then None
                   else map_option (\<lambda>(v, r). ((k, v), r)) (value rest1))))"

function parseMembers ::
  "(string \<Rightarrow> (jval \<times> string) option) \<Rightarrow> string \<Rightarrow> ((string \<times> jval) list \<times> string) option" where
  "parseMembers value s =
     (case parseMember value s of
        None \<Rightarrow> None
      | Some (m, rs) \<Rightarrow>
         (case skipSpace rs of
            [] \<Rightarrow> None
          | c # rest1 \<Rightarrow>
             if c = CHR 0x7D then Some ([m], rest1)
             else if c = CHR '','' \<and> length rest1 < length s then
               map_option (\<lambda>(ms, r). (m # ms, r)) (parseMembers value rest1)
             else None))"
  by pat_completeness auto
termination
  by (relation "measure (\<lambda>(value, s). length s)") auto

declare parseMembers.simps [simp del]

primrec parseValue :: "nat \<Rightarrow> string \<Rightarrow> (jval \<times> string) option" where
  "parseValue 0 s =
     (case skipSpace s of
        [] \<Rightarrow> None
      | c # cs \<Rightarrow> if c = CHR ''['' \<or> c = CHR 0x7B then None else parseScalar (c # cs))"
| "parseValue (Suc depth) s =
     (case skipSpace s of
        [] \<Rightarrow> None
      | c # cs \<Rightarrow>
         if c = CHR ''['' then
           (case skipSpace cs of
              [] \<Rightarrow> None
            | d # rs \<Rightarrow>
               if d = CHR '']'' then Some (VArray [], rs)
               else map_option (\<lambda>(vs, r). (VArray vs, r)) (parseElements (parseValue depth) cs))
         else if c = CHR 0x7B then
           (case skipSpace cs of
              [] \<Rightarrow> None
            | d # rs \<Rightarrow>
               if d = CHR 0x7D then Some (VObject [], rs)
               else map_option (\<lambda>(ms, r). (VObject ms, r)) (parseMembers (parseValue depth) cs))
         else parseScalar (c # cs))"

definition maxNestingDepth :: nat where
  "maxNestingDepth = 10000"

text \<open>\<open>Decode\<close> followed by a second one that must find the end of the text.\<close>

definition decodeOnly :: "string \<Rightarrow> jval option" where
  "decodeOnly s =
     (case parseValue maxNestingDepth s of
        None \<Rightarrow> None
      | Some (v, rs) \<Rightarrow> if skipSpace rs = [] then Some v else None)"


subsection \<open>Reading what the encoder wrote\<close>

lemma hexValue_hexDigit: "n < 16 \<Longrightarrow> hexValue (hexDigit n) = Some n"
proof -
  have "list_all (\<lambda>n. hexValue (hexDigit n) = Some n) [0..<16]" by code_simp
  then show "n < 16 \<Longrightarrow> hexValue (hexDigit n) = Some n" by (simp add: list_all_iff)
qed

lemma prepend_Some [simp]: "prepend out (Some (s, rs)) = Some (out @ s, rs)"
  by (simp add: prepend_def)

lemma char_less_of_char: "c < d \<longleftrightarrow> (of_char c :: nat) < of_char d"
  by (simp add: less_char_def)

lemma parseChars_unicodeEscape:
  assumes "c < CHR 0x80"
  shows "parseChars (unicodeEscape c @ t) = prepend [c] (parseChars t)"
proof -
  from assms have c: "(of_char c :: nat) < 128" by (simp add: char_less_of_char)
  then have "hexValue (hexDigit (of_char c div 16)) = Some (of_char c div 16)"
    "hexValue (hexDigit (of_char c mod 16)) = Some (of_char c mod 16)"
    by (simp_all add: hexValue_hexDigit)
  moreover have "hexValue CHR ''0'' = Some 0" by code_simp
  ultimately have "hex4 (''00'' @ [hexDigit (of_char c div 16), hexDigit (of_char c mod 16)] @ t) = Some (of_char c, t)"
    by (simp add: hex4_def)
  with c have "unescape (''u00'' @ [hexDigit (of_char c div 16), hexDigit (of_char c mod 16)] @ t) = Some ([c], t)"
    by (simp add: unescape_def unescapeUnicode_def surrogate_def encodeRune_def)
  then show ?thesis by (subst parseChars.simps) (simp add: unicodeEscape_def)
qed

lemma parseChars_shortEscape:
  "map_of shortEscapes c = Some e \<Longrightarrow> parseChars (e @ t) = prepend [c] (parseChars t)"
  by (subst parseChars.simps)
    (auto simp: shortEscapes_def unescape_def simpleEscapes_def split: if_splits)

lemma parseChars_escapeAscii:
  assumes "c < CHR 0x80"
  shows "parseChars (escapeAscii c @ t) = prepend [c] (parseChars t)"
proof (cases "map_of shortEscapes c")
  case (Some e)
  then show ?thesis by (simp add: escapeAscii_def parseChars_shortEscape)
next
  case None
  then have "c \<noteq> CHR 0x22" "c \<noteq> CHR 0x5C" by (auto simp: shortEscapes_def)
  with None assms show ?thesis
    by (cases "c < CHR 0x20 \<or> c \<in> {CHR ''<'', CHR ''>'', CHR ''&''}")
      (simp_all add: escapeAscii_def parseChars_unicodeEscape parseChars.simps [of "c # t"] del: insert_iff)
qed

definition ascii :: "string \<Rightarrow> bool" where
  "ascii s \<longleftrightarrow> list_all (\<lambda>c. c < CHR 0x80) s"

lemma parseChars_escapeString: "ascii s \<Longrightarrow> parseChars (escapeString s @ CHR 0x22 # rs) = Some (s, rs)"
proof (induction s)
  case Nil
  show ?case by (subst escapeString.simps) (simp add: parseChars.simps [of "CHR 0x22 # rs"])
next
  case (Cons c cs)
  then have "c < CHR 0x80" "ascii cs" by (simp_all add: ascii_def)
  with Cons.IH show ?case by (subst escapeString.simps) (simp add: parseChars_escapeAscii)
qed

text \<open>What may follow a number without becoming part of it.\<close>

definition endsNumber :: "string \<Rightarrow> bool" where
  "endsNumber s \<longleftrightarrow> (case s of [] \<Rightarrow> True | c # _ \<Rightarrow> \<not> isDigit c \<and> c \<notin> {CHR ''.'', CHR ''e'', CHR ''E''})"

lemma isDigit_hexDigit: "n < 10 \<Longrightarrow> isDigit (hexDigit n)"
proof -
  have "list_all (\<lambda>n. isDigit (hexDigit n)) [0..<10]" by code_simp
  then show "n < 10 \<Longrightarrow> isDigit (hexDigit n)" by (simp add: list_all_iff)
qed

lemma hexDigit_zero: "n < 10 \<Longrightarrow> hexDigit n = CHR ''0'' \<longleftrightarrow> n = 0"
proof -
  have "list_all (\<lambda>n. (hexDigit n = CHR ''0'') = (n = 0)) [0..<10]" by code_simp
  then show "n < 10 \<Longrightarrow> hexDigit n = CHR ''0'' \<longleftrightarrow> n = 0" by (simp add: list_all_iff)
qed

lemma formatNat_digits: "formatNat n \<noteq> [] \<and> list_all isDigit (formatNat n) \<and> (hd (formatNat n) = CHR ''0'' \<longleftrightarrow> n = 0)"
proof (induction n rule: formatNat.induct)
  case (1 n)
  show ?case
  proof (cases "n < 10")
    case True
    then show ?thesis by (subst (1 2 3) formatNat.simps) (simp add: isDigit_hexDigit hexDigit_zero)
  next
    case False
    with 1 have "formatNat (n div 10) \<noteq> []" "list_all isDigit (formatNat (n div 10))"
      "hd (formatNat (n div 10)) \<noteq> CHR ''0''" by auto
    with False show ?thesis by (subst (1 2 3) formatNat.simps) (simp add: isDigit_hexDigit)
  qed
qed

lemma digitsOf_append: "list_all isDigit ds \<Longrightarrow> endsNumber s \<Longrightarrow> digitsOf (ds @ s) = (ds, s)"
  by (cases s) (auto simp: digitsOf_def endsNumber_def list_all_iff takeWhile_append dropWhile_append)

lemma parseWhole_formatNat:
  assumes "endsNumber s"
  shows "parseWhole (formatNat n @ s) = Some (formatNat n, s)"
proof (cases "n = 0")
  case True
  then show ?thesis by (subst (1 2) formatNat.simps) (simp add: parseWhole_def hexDigit_def)
next
  case False
  with formatNat_digits [of n] obtain c cs where c: "formatNat n = c # cs" "c \<noteq> CHR ''0''" "isDigit c"
    by (cases "formatNat n") auto
  with digitsOf_append [OF _ assms, of "c # cs"] formatNat_digits [of n] show ?thesis by (simp add: parseWhole_def)
qed

lemma parseTail_endsNumber: "endsNumber s \<Longrightarrow> parseFraction s = Some ([], s)" "endsNumber s \<Longrightarrow> parseExponent s = Some ([], s)"
  by (auto simp: endsNumber_def parseFraction_def parseExponent_def split: list.splits)

lemma formatNat_not_minus: "formatNat n = c # cs \<Longrightarrow> c \<noteq> CHR ''-''"
  using formatNat_digits [of n] by (auto simp: isDigit_def less_eq_char_def)

lemma parseNumber_formatInt:
  assumes "endsNumber s"
  shows "parseNumber (formatInt i @ s) = Some (formatInt i, s)"
proof (cases "i < 0")
  case True
  then show ?thesis
    by (simp add: formatInt_def parseNumber_def parseWhole_formatNat [OF assms] parseTail_endsNumber [OF assms])
next
  case False
  obtain c cs where c: "formatNat (nat i) = c # cs" using formatNat_digits [of "nat i"] by (cases "formatNat (nat i)") auto
  from parseWhole_formatNat [OF assms, of "nat i"] c False formatNat_not_minus [OF c] show ?thesis
    by (simp add: formatInt_def parseNumber_def parseTail_endsNumber [OF assms])
qed

fun valueOf :: "json \<Rightarrow> jval" where
  "valueOf JNull = VNull"
| "valueOf (JBool b) = VBool b"
| "valueOf (JInt i) = VNumber (formatInt i)"
| "valueOf (JString s) = VString s"
| "valueOf (JArray js) = VArray (map valueOf js)"
| "valueOf (JObject fs) = VObject (map (\<lambda>(k, v). (k, valueOf v)) fs)"

fun asciiJson :: "json \<Rightarrow> bool" where
  "asciiJson (JString s) = ascii s"
| "asciiJson (JArray js) = (\<forall>j \<in> set js. asciiJson j)"
| "asciiJson (JObject fs) = (\<forall>(k, v) \<in> set fs. ascii k \<and> asciiJson v)"
| "asciiJson _ = True"

fun nesting :: "json \<Rightarrow> nat" where
  "nesting (JArray js) = Suc (Max (insert 0 (set (map nesting js))))"
| "nesting (JObject fs) = Suc (Max (insert 0 (set (map (\<lambda>(k, v). nesting v) fs))))"
| "nesting _ = 0"

lemma skipSpace_plain: "plain c \<Longrightarrow> skipSpace (c # s) = c # s"
  by (auto simp: skipSpace_def plain_def less_eq_char_def)

lemma formatInt_first: "\<exists>c cs. formatInt i = c # cs \<and> (isDigit c \<or> c = CHR ''-'')"
  using formatNat_digits [of "nat i"] by (cases "formatNat (nat i)") (auto simp: formatInt_def)

definition opensScalar :: "char \<Rightarrow> bool" where
  "opensScalar c \<longleftrightarrow> isDigit c \<or> c \<in> {CHR ''-'', CHR 0x22, CHR ''n'', CHR ''t'', CHR ''f''}"

lemma opensScalar_plain:
  assumes "opensScalar c"
  shows "plain c" "c \<noteq> CHR ''[''" "c \<noteq> CHR 0x7B" "c \<noteq> CHR '']''" "c \<noteq> CHR 0x7D"
  using assms by (auto simp: opensScalar_def plain_def isDigit_def less_eq_char_def)

lemma digit_scalar:
  assumes "isDigit c \<or> c = CHR ''-''"
  shows "c \<noteq> CHR 0x22" "c \<noteq> CHR ''n''" "c \<noteq> CHR ''t''" "c \<noteq> CHR ''f''"
  using assms by (auto simp: isDigit_def less_eq_char_def)

text \<open>Scalars.\<close>

fun scalar :: "json \<Rightarrow> bool" where
  "scalar (JArray js) = False"
| "scalar (JObject fs) = False"
| "scalar _ = True"

lemma encode_scalar_first: "scalar j \<Longrightarrow> \<exists>c cs. encodeJson j = c # cs \<and> opensScalar c"
  using formatInt_first by (cases j) (fastforce simp: opensScalar_def encodeString_def)+

lemma parseScalar_encode:
  assumes "scalar j" "asciiJson j" "endsNumber s"
  shows "parseScalar (encodeJson j @ s) = Some (valueOf j, s)"
proof (cases j)
  case (JInt i)
  obtain c cs where c: "formatInt i = c # cs" "isDigit c \<or> c = CHR ''-''" using formatInt_first by blast
  with parseNumber_formatInt [OF assms(3), of i] digit_scalar [OF c(2)] JInt show ?thesis
    by (simp add: parseScalar_def)
next
  case (JString t)
  with assms(2) parseChars_escapeString [of t s] show ?thesis by (simp add: parseScalar_def encodeString_def)
qed (use assms in \<open>auto simp: parseScalar_def literal_def stripPrefix_def\<close>)

text \<open>The first character of an encoded value.\<close>

lemma encode_first: "\<exists>c cs. encodeJson j = c # cs \<and> plain c \<and> c \<noteq> CHR '']'' \<and> c \<noteq> CHR 0x7D"
proof (cases "scalar j")
  case True
  then show ?thesis using encode_scalar_first opensScalar_plain by blast
next
  case False
  then show ?thesis by (cases j) (auto simp: plain_def less_eq_char_def)
qed

lemma parseValue_scalar:
  assumes "scalar j" "asciiJson j" "endsNumber s"
  shows "parseValue n (encodeJson j @ s) = Some (valueOf j, s)"
proof -
  obtain c cs where c: "encodeJson j = c # cs" "opensScalar c" using encode_scalar_first [OF assms(1)] by blast
  note o = opensScalar_plain [OF c(2)]
  from parseScalar_encode [OF assms] c show ?thesis
    by (cases n) (simp_all add: skipSpace_plain [OF o(1)] o)
qed

text \<open>Lists of values, for a parser that reads each of them.\<close>

definition reads :: "(string \<Rightarrow> (jval \<times> string) option) \<Rightarrow> json \<Rightarrow> bool" where
  "reads value j \<longleftrightarrow> (\<forall>s. endsNumber s \<longrightarrow> value (encodeJson j @ s) = Some (valueOf j, s))"

lemma readsD: "reads value j \<Longrightarrow> endsNumber s \<Longrightarrow> value (encodeJson j @ s) = Some (valueOf j, s)"
  by (simp add: reads_def)

lemma endsNumber_punctuation [simp]:
  "endsNumber (CHR '','' # s)" "endsNumber (CHR '']'' # s)" "endsNumber (CHR 0x7D # s)"
  by (simp_all add: endsNumber_def isDigit_def less_eq_char_def)

lemma skipSpace_punctuation [simp]:
  "skipSpace (CHR '','' # s) = CHR '','' # s" "skipSpace (CHR '']'' # s) = CHR '']'' # s"
  "skipSpace (CHR 0x7D # s) = CHR 0x7D # s" "skipSpace (CHR '':'' # s) = CHR '':'' # s"
  "skipSpace (CHR 0x22 # s) = CHR 0x22 # s"
  by (simp_all add: skipSpace_def)

lemma parseElements_encode:
  assumes "list_all (reads value) js" "js \<noteq> []"
  shows "parseElements value (joinWith '','' (map encodeJson js) @ CHR '']'' # s) = Some (map valueOf js, s)"
  using assms(2,1)
proof (induction js rule: list_nonempty_induct)
  case (single j)
  then show ?case by (subst parseElements.simps) (simp add: readsD)
next
  case (cons j js)
  from cons.hyps obtain j' js' where js: "js = j' # js'" by (cases js) auto
  with cons show ?case by (subst parseElements.simps) (simp add: readsD)
qed

lemma parseMember_encode:
  assumes "ascii k" "reads value j" "endsNumber s"
  shows "parseMember value (encodeString k @ CHR '':'' # encodeJson j @ s) = Some ((k, valueOf j), s)"
  using readsD [OF assms(2,3)] parseChars_escapeString [OF assms(1)]
  by (simp add: parseMember_def encodeString_def)

definition readsMember :: "(string \<Rightarrow> (jval \<times> string) option) \<Rightarrow> string \<times> json \<Rightarrow> bool" where
  "readsMember value m \<longleftrightarrow> ascii (fst m) \<and> reads value (snd m)"

definition encodeMember :: "string \<times> json \<Rightarrow> string" where
  "encodeMember m = encodeString (fst m) @ '':'' @ encodeJson (snd m)"

lemma encodeJson_members: "encodeJson (JObject ms) = CHR 0x7B # joinWith '','' (map encodeMember ms) @ [CHR 0x7D]"
  by (simp add: encodeMember_def [abs_def] case_prod_unfold)

lemma parseMember_encodeMember:
  assumes "readsMember value m" "endsNumber s"
  shows "parseMember value (encodeMember m @ s) = Some ((fst m, valueOf (snd m)), s)"
  using parseMember_encode assms by (simp add: readsMember_def encodeMember_def)

lemma parseMembers_encode:
  assumes "list_all (readsMember value) ms" "ms \<noteq> []"
  shows "parseMembers value (joinWith '','' (map encodeMember ms) @ CHR 0x7D # s) =
    Some (map (\<lambda>m. (fst m, valueOf (snd m))) ms, s)"
  using assms(2,1)
proof (induction ms rule: list_nonempty_induct)
  case (single m)
  then show ?case by (subst parseMembers.simps) (simp add: parseMember_encodeMember)
next
  case (cons m ms)
  from cons.hyps obtain m' ms' where ms: "ms = m' # ms'" by (cases ms) auto
  with cons show ?case by (subst parseMembers.simps) (simp add: parseMember_encodeMember)
qed

lemma joinWith_first: "w = c # cs \<Longrightarrow> \<exists>t. joinWith sep (w # ws) = c # t"
  by (cases ws) auto

lemma parseValue_encode:
  "asciiJson j \<Longrightarrow> nesting j \<le> n \<Longrightarrow> reads (parseValue n) j"
proof (induction n arbitrary: j)
  case 0
  then have "scalar j" by (cases j) auto
  with 0 show ?case by (simp add: reads_def parseValue_scalar del: parseValue.simps)
next
  case (Suc n)
  show ?case
  proof (cases j)
    case (JArray js)
    have all: "list_all (reads (parseValue n)) js"
      using Suc JArray by (auto simp: list_all_iff)
    show ?thesis
    proof (cases js)
      case Nil
      with JArray show ?thesis by (simp add: reads_def skipSpace_plain plain_def less_eq_char_def)
    next
      case (Cons a as)
      obtain c cs where c: "encodeJson a = c # cs" "plain c" "c \<noteq> CHR '']''" using encode_first by blast
      obtain t where t: "joinWith '','' (map encodeJson js) = c # t" using joinWith_first [OF c(1)] Cons by fastforce
      have "parseElements (parseValue n) (c # t @ CHR '']'' # s) = Some (map valueOf js, s)" for s
        using parseElements_encode [OF all, of s] Cons t by simp
      with JArray t c show ?thesis by (simp add: reads_def skipSpace_plain plain_def less_eq_char_def)
    qed
  next
    case (JObject ms)
    have all: "list_all (readsMember (parseValue n)) ms"
      using Suc JObject by (fastforce simp: list_all_iff readsMember_def)
    show ?thesis
    proof (cases ms)
      case Nil
      with JObject show ?thesis by (simp add: reads_def skipSpace_plain plain_def less_eq_char_def)
    next
      case (Cons a as)
      have "encodeMember a = CHR 0x22 # (escapeString (fst a) @ CHR 0x22 # CHR '':'' # encodeJson (snd a))"
        by (simp add: encodeMember_def encodeString_def)
      from joinWith_first [OF this] Cons
      obtain t where t: "joinWith '','' (map encodeMember ms) = CHR 0x22 # t" by fastforce
      have "parseMembers (parseValue n) (CHR 0x22 # t @ CHR 0x7D # s) = Some (map (\<lambda>m. (fst m, valueOf (snd m))) ms, s)" for s
        using parseMembers_encode [OF all, of s] Cons t by simp
      with JObject t show ?thesis
        by (simp add: reads_def encodeJson_members skipSpace_plain plain_def less_eq_char_def case_prod_unfold del: encodeJson.simps)
    qed
  qed (use Suc.prems in \<open>simp_all add: reads_def parseValue_scalar del: parseValue.simps encodeJson.simps\<close>)
qed

lemma decodeOnly_encode:
  "asciiJson j \<Longrightarrow> nesting j \<le> maxNestingDepth \<Longrightarrow> decodeOnly (encodeJson j) = Some (valueOf j)"
  using parseValue_encode [of j maxNestingDepth] readsD [of "parseValue maxNestingDepth" j "[]"]
  by (simp add: decodeOnly_def endsNumber_def skipSpace_def)

subsection \<open>The fields of a struct\<close>

text \<open>
  A member is stored in the field with its name, or else in one whose name differs only
  in case; the Kelvin sign and the long s fold to ASCII letters.
\<close>

fun foldName :: "string \<Rightarrow> string" where
  "foldName [] = []"
| "foldName (c # cs) =
     (if take 3 (c # cs) = [CHR 0xE2, CHR 0x84, CHR 0xAA] then CHR ''K'' # foldName (drop 2 cs)
      else if take 2 (c # cs) = [CHR 0xC5, CHR 0xBF] then CHR ''S'' # foldName (drop 1 cs)
      else (if isLower c then char_of (of_char c - 32 :: nat) else c) # foldName cs)"

definition fieldFor :: "string list \<Rightarrow> string \<Rightarrow> string option" where
  "fieldFor names key =
     (if key \<in> set names then Some key else find (\<lambda>n. foldName n = foldName key) names)"

definition decodeStringField :: "jval \<Rightarrow> string \<Rightarrow> string option" where
  "decodeStringField v old = (case v of VString s \<Rightarrow> Some s | VNull \<Rightarrow> Some old | _ \<Rightarrow> None)"

definition parseNat :: "string \<Rightarrow> nat" where
  "parseNat s = foldl (\<lambda>n c. n * 10 + (of_char c - 48)) 0 s"

definition decodeUint64Field :: "jval \<Rightarrow> 64 word \<Rightarrow> 64 word option" where
  "decodeUint64Field v old =
     (case v of
        VNumber s \<Rightarrow> if s \<noteq> [] \<and> list_all isDigit s \<and> parseNat s < 2 ^ 64 then Some (of_nat (parseNat s)) else None
      | VNull \<Rightarrow> Some old
      | _ \<Rightarrow> None)"

text \<open>The members in their order; an unknown one and one of the wrong type are errors.\<close>

fun decodeMembers :: "(string \<Rightarrow> jval \<Rightarrow> 'r \<Rightarrow> 'r option) \<Rightarrow> string list \<Rightarrow> (string \<times> jval) list \<Rightarrow> 'r \<Rightarrow> 'r option" where
  "decodeMembers store names [] r = Some r"
| "decodeMembers store names ((k, v) # ms) r =
     (case fieldFor names k of
        None \<Rightarrow> None
      | Some n \<Rightarrow> (case store n v r of None \<Rightarrow> None | Some r' \<Rightarrow> decodeMembers store names ms r'))"

definition decodeStruct :: "(string \<Rightarrow> jval \<Rightarrow> 'r \<Rightarrow> 'r option) \<Rightarrow> string list \<Rightarrow> 'r \<Rightarrow> jval \<Rightarrow> 'r option" where
  "decodeStruct store names zero v =
     (case v of VObject ms \<Rightarrow> decodeMembers store names ms zero | VNull \<Rightarrow> Some zero | _ \<Rightarrow> None)"

lemma of_char_hexDigit: "n < 10 \<Longrightarrow> (of_char (hexDigit n) :: nat) = 48 + n"
proof -
  have "list_all (\<lambda>n. (of_char (hexDigit n) :: nat) = 48 + n) [0..<10]" by code_simp
  then show "n < 10 \<Longrightarrow> (of_char (hexDigit n) :: nat) = 48 + n" by (simp add: list_all_iff)
qed

lemma parseNat_formatNat: "parseNat (formatNat n) = n"
proof (induction n rule: formatNat.induct)
  case (1 n)
  then show ?case by (subst formatNat.simps) (auto simp: parseNat_def of_char_hexDigit)
qed

lemma decodeUint64Field_format [simp]: "decodeUint64Field (VNumber (formatInt (uint w))) old = Some w"
proof -
  have "unat w < 2 ^ 64" using unsigned_less [of w, where ?'a = nat] by simp
  then show ?thesis
    using formatNat_digits [of "unat w"]
    by (simp add: decodeUint64Field_def formatInt_def parseNat_formatNat flip: unat_eq_nat_uint)
qed

lemma decodeStringField_VString [simp]: "decodeStringField (VString s) old = Some s"
  by (simp add: decodeStringField_def)

end
