(* ===== verification/Wq_Request.thy ===== *)
theory Wq_Request
  imports Wq_Store Dev_Objective Go_JsonParse
begin

text \<open>
  The requests for development work that the queue's database keeps
  (\<open>internal/workqueue/development_request.go\<close>): small records that are created once per
  idempotency key, advance by compare-and-swap of their revision, and are read back only
  when the stored text is the canonical one with the stored digest. States and reasons
  are strings, as in the source; errors are their texts.
\<close>

subsection \<open>Requests\<close>

type_synonym DevelopmentRequestState = string
type_synonym DevelopmentRequestReason = string

definition DevelopmentRequestPreparing :: string where "DevelopmentRequestPreparing = ''preparing''"
definition DevelopmentRequestActive :: string where "DevelopmentRequestActive = ''active''"
definition DevelopmentRequestCancelling :: string where "DevelopmentRequestCancelling = ''cancelling''"
definition DevelopmentRequestCompleted :: string where "DevelopmentRequestCompleted = ''completed''"
definition DevelopmentRequestFailed :: string where "DevelopmentRequestFailed = ''failed''"
definition DevelopmentRequestCancelled :: string where "DevelopmentRequestCancelled = ''cancelled''"
definition DevelopmentRequestAwaitingReasoning :: string where
  "DevelopmentRequestAwaitingReasoning = ''awaiting_reasoning''"

definition ReasonNone_request :: string where "ReasonNone_request = ''''"
definition ReasonInspectionPending :: string where "ReasonInspectionPending = ''inspection_pending''"
definition ReasonCapabilityMissing :: string where "ReasonCapabilityMissing = ''capability_missing''"
definition ReasonSourceChanged :: string where "ReasonSourceChanged = ''source_changed''"
definition ReasonCodeFailure :: string where "ReasonCodeFailure = ''code_failure''"
definition ReasonNewRequirement :: string where "ReasonNewRequirement = ''new_requirement''"
definition ReasonOperationFailed :: string where "ReasonOperationFailed = ''operation_failed''"
definition ReasonOperationUnknown :: string where "ReasonOperationUnknown = ''operation_unknown''"
definition ReasonReconciliationRequired :: string where "ReasonReconciliationRequired = ''reconciliation_required''"
definition ReasonSemanticAcceptancePending :: string where
  "ReasonSemanticAcceptancePending = ''semantic_acceptance_pending''"
definition ReasonCancellationRequested :: string where "ReasonCancellationRequested = ''cancellation_requested''"

lemmas request_states = DevelopmentRequestPreparing_def DevelopmentRequestActive_def DevelopmentRequestCancelling_def
  DevelopmentRequestCompleted_def DevelopmentRequestFailed_def DevelopmentRequestCancelled_def
  DevelopmentRequestAwaitingReasoning_def

lemmas request_reasons = ReasonNone_request_def ReasonInspectionPending_def ReasonCapabilityMissing_def
  ReasonSourceChanged_def ReasonCodeFailure_def ReasonNewRequirement_def ReasonOperationFailed_def
  ReasonOperationUnknown_def ReasonReconciliationRequired_def ReasonSemanticAcceptancePending_def
  ReasonCancellationRequested_def

record DevelopmentRequest =
  dqID :: string
  dqRevision :: "64 word"
  dqKeyDigest :: string
  dqAlias :: string
  dqTarget :: string
  dqDeviceID :: string
  dqBodyRef :: string
  dqBodyDigest :: string
  dqInspectionOperationID :: string
  dqObjectiveID :: string
  dqActiveOperationID :: string
  dqProcessID :: string
  dqState :: DevelopmentRequestState
  dqReason :: DevelopmentRequestReason

definition MaxDevelopmentRequests :: nat where "MaxDevelopmentRequests = 1024"
definition MaxDevelopmentRequestRecordBytes :: nat where "MaxDevelopmentRequestRecordBytes = 4096"
definition maxDevelopmentRequestRevision :: "64 word" where "maxDevelopmentRequestRevision = 1048576"
definition developmentRequestDigestDomain :: string where
  "developmentRequestDigestDomain = ''aeontra-development-request-v1'' @ [CHR 0x00]"
definition DevelopmentRequestIdempotencyTTL :: duration where
  "DevelopmentRequestIdempotencyTTL = 30 * 24 * hour"

definition developmentRequestIDPattern :: "string \<Rightarrow> bool" where
  "developmentRequestIDPattern = prefixPattern ''dr_'' isHex 32 32"
definition developmentRequestDevice :: "string \<Rightarrow> bool" where
  "developmentRequestDevice = prefixPattern ''ed_'' isHex 32 32"
definition developmentRequestGoal :: "string \<Rightarrow> bool" where
  "developmentRequestGoal = prefixPattern ''mb_'' isHex 32 32"
definition developmentRequestOp :: "string \<Rightarrow> bool" where
  "developmentRequestOp = prefixPattern ''eo_'' isHex 32 32"
definition developmentRequestProcess :: "string \<Rightarrow> bool" where
  "developmentRequestProcess = prefixPattern ''pr_'' isHex 32 32"
definition developmentRequestDigest :: "string \<Rightarrow> bool" where
  "developmentRequestDigest = digestPattern"
definition taskProjectPattern :: "string \<Rightarrow> bool" where
  "taskProjectPattern = enclosedPattern isLowerNum (\<lambda>c. isLowerNum c \<or> c = CHR ''-'') 61"
definition taskTargetPattern :: "string \<Rightarrow> bool" where
  "taskTargetPattern = enclosedPattern isLowerNum (\<lambda>c. isLowerNum c \<or> c = CHR ''-'') 30"

definition validDevelopmentRequestObjectiveID :: "string \<Rightarrow> bool" where
  "validDevelopmentRequestObjectiveID v \<longleftrightarrow> v = TrimSpace v \<and> ValidObjectiveID v"

definition validDevelopmentRequestState :: "DevelopmentRequestState \<Rightarrow> bool" where
  "validDevelopmentRequestState st \<longleftrightarrow>
     st \<in> {DevelopmentRequestPreparing, DevelopmentRequestActive, DevelopmentRequestCancelling,
       DevelopmentRequestCompleted, DevelopmentRequestFailed, DevelopmentRequestCancelled,
       DevelopmentRequestAwaitingReasoning}"

definition validDevelopmentRequestReason :: "DevelopmentRequestReason \<Rightarrow> bool" where
  "validDevelopmentRequestReason reason \<longleftrightarrow>
     reason \<in> {ReasonNone_request, ReasonInspectionPending, ReasonCapabilityMissing, ReasonSourceChanged,
       ReasonCodeFailure, ReasonNewRequirement, ReasonOperationFailed, ReasonOperationUnknown,
       ReasonReconciliationRequired, ReasonSemanticAcceptancePending, ReasonCancellationRequested}"

definition validDevelopmentRequestReasonForState :: "DevelopmentRequestState \<Rightarrow> DevelopmentRequestReason \<Rightarrow> bool" where
  "validDevelopmentRequestReasonForState st reason \<longleftrightarrow>
     (if st = DevelopmentRequestAwaitingReasoning then
        reason \<in> {ReasonSemanticAcceptancePending, ReasonCodeFailure, ReasonNewRequirement, ReasonSourceChanged}
      else if st = DevelopmentRequestCancelling then
        reason \<in> {ReasonCancellationRequested, ReasonReconciliationRequired}
      else if st = DevelopmentRequestCancelled then reason \<in> {ReasonNone_request, ReasonCancellationRequested}
      else if st = DevelopmentRequestCompleted then reason = ReasonNone_request
      else if st = DevelopmentRequestFailed then
        reason \<noteq> ReasonNone_request \<and> reason \<noteq> ReasonSemanticAcceptancePending \<and> reason \<noteq> ReasonCancellationRequested
      else reason \<noteq> ReasonSemanticAcceptancePending \<and> reason \<noteq> ReasonCancellationRequested)"

definition developmentRequestTerminal :: "DevelopmentRequestState \<Rightarrow> bool" where
  "developmentRequestTerminal st \<longleftrightarrow>
     st = DevelopmentRequestCompleted \<or> st = DevelopmentRequestFailed \<or> st = DevelopmentRequestCancelled"

definition Valid_request :: "DevelopmentRequest \<Rightarrow> bool" where
  "Valid_request r =
     (if \<not> developmentRequestIDPattern (dqID r) \<or> dqRevision r = 0 \<or> dqRevision r > maxDevelopmentRequestRevision \<or>
         \<not> developmentRequestDigest (dqKeyDigest r) \<or> \<not> taskProjectPattern (dqAlias r) \<or>
         \<not> taskTargetPattern (dqTarget r) \<or> \<not> developmentRequestDevice (dqDeviceID r) \<or>
         \<not> developmentRequestGoal (dqBodyRef r) \<or> \<not> developmentRequestDigest (dqBodyDigest r) \<or>
         \<not> validDevelopmentRequestState (dqState r) \<or> \<not> validDevelopmentRequestReason (dqReason r) then False
      else if dqInspectionOperationID r \<noteq> [] \<and> \<not> developmentRequestOp (dqInspectionOperationID r) \<or>
         dqObjectiveID r \<noteq> [] \<and> \<not> validDevelopmentRequestObjectiveID (dqObjectiveID r) \<or>
         dqActiveOperationID r \<noteq> [] \<and> \<not> developmentRequestOp (dqActiveOperationID r) \<or>
         dqProcessID r \<noteq> [] \<and> \<not> developmentRequestProcess (dqProcessID r) then False
      else if dqState r = DevelopmentRequestCancelling \<and> dqReason r = ReasonReconciliationRequired \<and> dqProcessID r = []
      then False
      else validDevelopmentRequestReasonForState (dqState r) (dqReason r))"

definition validInitialDevelopmentRequest :: "DevelopmentRequest \<Rightarrow> bool" where
  "validInitialDevelopmentRequest r \<longleftrightarrow>
     Valid_request r \<and> dqRevision r = 1 \<and> dqState r = DevelopmentRequestPreparing \<and> dqReason r = ReasonNone_request \<and>
     dqInspectionOperationID r = [] \<and> dqObjectiveID r = [] \<and> dqActiveOperationID r = [] \<and> dqProcessID r = []"

definition validDevelopmentRequestStateTransition :: "DevelopmentRequestState \<Rightarrow> DevelopmentRequestState \<Rightarrow> bool" where
  "validDevelopmentRequestStateTransition before after =
     (if before = after then True
      else if before = DevelopmentRequestPreparing then
        after \<in> {DevelopmentRequestActive, DevelopmentRequestCancelling, DevelopmentRequestFailed, DevelopmentRequestCancelled}
      else if before = DevelopmentRequestActive then
        after \<in> {DevelopmentRequestCancelling, DevelopmentRequestCompleted, DevelopmentRequestFailed,
          DevelopmentRequestCancelled, DevelopmentRequestAwaitingReasoning}
      else if before = DevelopmentRequestCancelling then
        after \<in> {DevelopmentRequestCompleted, DevelopmentRequestFailed, DevelopmentRequestCancelled}
      else if before = DevelopmentRequestAwaitingReasoning then
        after \<in> {DevelopmentRequestCancelling, DevelopmentRequestCompleted, DevelopmentRequestFailed,
          DevelopmentRequestCancelled}
      else False)"

definition setOnceDevelopmentRequestID :: "string \<Rightarrow> string \<Rightarrow> (string \<Rightarrow> bool) \<Rightarrow> bool" where
  "setOnceDevelopmentRequestID before after valid = (if before = [] then True else before = after \<and> valid after)"

definition validDevelopmentRequestTransition :: "DevelopmentRequest \<Rightarrow> DevelopmentRequest \<Rightarrow> bool" where
  "validDevelopmentRequestTransition before after =
     (if \<not> Valid_request before \<or> \<not> Valid_request after \<or> developmentRequestTerminal (dqState before) \<or>
         dqID before \<noteq> dqID after \<or> dqKeyDigest before \<noteq> dqKeyDigest after \<or> dqAlias before \<noteq> dqAlias after \<or>
         dqTarget before \<noteq> dqTarget after \<or> dqDeviceID before \<noteq> dqDeviceID after \<or>
         dqBodyRef before \<noteq> dqBodyRef after \<or> dqBodyDigest before \<noteq> dqBodyDigest after \<or>
         dqRevision after \<noteq> dqRevision before + 1 \<or>
         \<not> validDevelopmentRequestStateTransition (dqState before) (dqState after) \<or>
         \<not> setOnceDevelopmentRequestID (dqInspectionOperationID before) (dqInspectionOperationID after) developmentRequestOp \<or>
         \<not> setOnceDevelopmentRequestID (dqObjectiveID before) (dqObjectiveID after) validDevelopmentRequestObjectiveID \<or>
         \<not> setOnceDevelopmentRequestID (dqProcessID before) (dqProcessID after) developmentRequestProcess
      then False
      else if dqState before = DevelopmentRequestCancelling \<and> dqReason before = ReasonReconciliationRequired \<and>
         dqState after = DevelopmentRequestCancelling \<and> dqReason after \<noteq> ReasonReconciliationRequired
      then False
      else True)"

definition sameDevelopmentRequestBinding :: "DevelopmentRequest \<Rightarrow> DevelopmentRequest \<Rightarrow> bool" where
  "sameDevelopmentRequestBinding l r \<longleftrightarrow>
     dqKeyDigest l = dqKeyDigest r \<and> dqAlias l = dqAlias r \<and> dqTarget l = dqTarget r \<and>
     dqDeviceID l = dqDeviceID r \<and> dqBodyRef l = dqBodyRef r \<and> dqBodyDigest l = dqBodyDigest r"

subsection \<open>Records\<close>

definition omitEmpty :: "string \<Rightarrow> string \<Rightarrow> (string \<times> json) list" where
  "omitEmpty name v = (if v = [] then [] else [(name, JString v)])"

definition requestJson :: "DevelopmentRequest \<Rightarrow> json" where
  "requestJson r =
     JObject
       ([(''request_id'', JString (dqID r)), (''revision'', JInt (uint (dqRevision r))),
         (''key_digest'', JString (dqKeyDigest r)), (''alias'', JString (dqAlias r)), (''target'', JString (dqTarget r)),
         (''device_id'', JString (dqDeviceID r)), (''body_ref'', JString (dqBodyRef r)),
         (''body_digest'', JString (dqBodyDigest r))] @
        omitEmpty ''inspection_operation_id'' (dqInspectionOperationID r) @
        omitEmpty ''objective_id'' (dqObjectiveID r) @
        omitEmpty ''active_operation_id'' (dqActiveOperationID r) @
        omitEmpty ''process_id'' (dqProcessID r) @
        [(''state'', JString (dqState r))] @
        omitEmpty ''reason'' (dqReason r))"

definition developmentRequestRecordDigest :: "string \<Rightarrow> string" where
  "developmentRequestRecordDigest body =
     (if length body = 0 \<or> length body > MaxDevelopmentRequestRecordBytes then []
      else sha256Digest (developmentRequestDigestDomain @ body))"

definition marshalDevelopmentRequest :: "DevelopmentRequest \<Rightarrow> string + string \<times> string" where
  "marshalDevelopmentRequest r =
     (if \<not> Valid_request r then Inl ''workqueue: development request is invalid''
      else
        let body = encodeJson (requestJson r)
        in if length body = 0 \<or> length body > MaxDevelopmentRequestRecordBytes
           then Inl ''workqueue: development request record is unavailable''
           else Inr (body, sha256Digest (developmentRequestDigestDomain @ body)))"

definition zeroRequest :: DevelopmentRequest where
  "zeroRequest = \<lparr>dqID = [], dqRevision = 0, dqKeyDigest = [], dqAlias = [], dqTarget = [], dqDeviceID = [],
     dqBodyRef = [], dqBodyDigest = [], dqInspectionOperationID = [], dqObjectiveID = [], dqActiveOperationID = [],
     dqProcessID = [], dqState = [], dqReason = []\<rparr>"

definition requestFields :: "string list" where
  "requestFields =
     [''request_id'', ''revision'', ''key_digest'', ''alias'', ''target'', ''device_id'', ''body_ref'', ''body_digest'',
      ''inspection_operation_id'', ''objective_id'', ''active_operation_id'', ''process_id'', ''state'', ''reason'']"

definition storeField :: "string \<Rightarrow> jval \<Rightarrow> DevelopmentRequest \<Rightarrow> DevelopmentRequest option" where
  "storeField n v r =
     (if n = ''request_id'' then map_option (\<lambda>s. r\<lparr>dqID := s\<rparr>) (decodeStringField v (dqID r))
      else if n = ''revision'' then map_option (\<lambda>w. r\<lparr>dqRevision := w\<rparr>) (decodeUint64Field v (dqRevision r))
      else if n = ''key_digest'' then map_option (\<lambda>s. r\<lparr>dqKeyDigest := s\<rparr>) (decodeStringField v (dqKeyDigest r))
      else if n = ''alias'' then map_option (\<lambda>s. r\<lparr>dqAlias := s\<rparr>) (decodeStringField v (dqAlias r))
      else if n = ''target'' then map_option (\<lambda>s. r\<lparr>dqTarget := s\<rparr>) (decodeStringField v (dqTarget r))
      else if n = ''device_id'' then map_option (\<lambda>s. r\<lparr>dqDeviceID := s\<rparr>) (decodeStringField v (dqDeviceID r))
      else if n = ''body_ref'' then map_option (\<lambda>s. r\<lparr>dqBodyRef := s\<rparr>) (decodeStringField v (dqBodyRef r))
      else if n = ''body_digest'' then map_option (\<lambda>s. r\<lparr>dqBodyDigest := s\<rparr>) (decodeStringField v (dqBodyDigest r))
      else if n = ''inspection_operation_id'' then
        map_option (\<lambda>s. r\<lparr>dqInspectionOperationID := s\<rparr>) (decodeStringField v (dqInspectionOperationID r))
      else if n = ''objective_id'' then map_option (\<lambda>s. r\<lparr>dqObjectiveID := s\<rparr>) (decodeStringField v (dqObjectiveID r))
      else if n = ''active_operation_id'' then
        map_option (\<lambda>s. r\<lparr>dqActiveOperationID := s\<rparr>) (decodeStringField v (dqActiveOperationID r))
      else if n = ''process_id'' then map_option (\<lambda>s. r\<lparr>dqProcessID := s\<rparr>) (decodeStringField v (dqProcessID r))
      else if n = ''state'' then map_option (\<lambda>s. r\<lparr>dqState := s\<rparr>) (decodeStringField v (dqState r))
      else map_option (\<lambda>s. r\<lparr>dqReason := s\<rparr>) (decodeStringField v (dqReason r)))"

definition decodeRequest :: "string \<Rightarrow> DevelopmentRequest option" where
  "decodeRequest body =
     (case decodeOnly body of
        None \<Rightarrow> None
      | Some v \<Rightarrow> decodeStruct storeField requestFields zeroRequest v)"

subsection \<open>The table\<close>

record requestRow =
  dwID :: string
  dwKeyDigest :: string
  dwRevision :: int
  dwState :: string
  dwDigest :: string
  dwBody :: string
  dwCreated :: gotime
  dwUpdated :: gotime

record requestDB = queueDB +
  qdRequests :: "requestRow list"

definition scanDevelopmentRequest :: "requestRow \<Rightarrow> string + DevelopmentRequest" where
  "scanDevelopmentRequest row =
     (let corrupt = Inl ''workqueue: development request record is corrupt''
      in if dwRevision row < 1 \<or> dwRevision row > uint maxDevelopmentRequestRevision \<or> dwDigest row = [] \<or>
            developmentRequestRecordDigest (dwBody row) \<noteq> dwDigest row then corrupt
         else
           case decodeRequest (dwBody row) of
             None \<Rightarrow> corrupt
           | Some r \<Rightarrow>
              if \<not> Valid_request r \<or> dqID r \<noteq> dwID row \<or> uint (dqRevision r) \<noteq> dwRevision row \<or>
                 dqState r \<noteq> dwState row \<or> dqKeyDigest r \<noteq> dwKeyDigest row then corrupt
              else
                (case marshalDevelopmentRequest r of
                   Inl e \<Rightarrow> corrupt
                 | Inr (canonicalBody, canonicalDigest) \<Rightarrow>
                     if canonicalDigest \<noteq> dwDigest row \<or> canonicalBody \<noteq> dwBody row then corrupt else Inr r))"

definition queryRequest :: "(requestRow \<Rightarrow> bool) \<Rightarrow> requestRow list \<Rightarrow> string + DevelopmentRequest option" where
  "queryRequest p rows =
     (case find p rows of
        None \<Rightarrow> Inr None
      | Some row \<Rightarrow> (case scanDevelopmentRequest row of Inl e \<Rightarrow> Inl e | Inr r \<Rightarrow> Inr (Some r)))"

definition developmentRequestByID :: "requestRow list \<Rightarrow> string \<Rightarrow> string + DevelopmentRequest option" where
  "developmentRequestByID rows i = queryRequest (\<lambda>row. dwID row = i) rows"

definition developmentRequestByKey :: "requestRow list \<Rightarrow> string \<Rightarrow> string + DevelopmentRequest option" where
  "developmentRequestByKey rows k = queryRequest (\<lambda>row. dwKeyDigest row = k) rows"

definition pruneExpiredDevelopmentRequests :: "gotime \<Rightarrow> requestRow list \<Rightarrow> requestRow list" where
  "pruneExpiredDevelopmentRequests now rows =
     filter (\<lambda>row. \<not> (developmentRequestTerminal (dwState row) \<and> dwUpdated row \<le> now - DevelopmentRequestIdempotencyTTL)) rows"

definition nextDevelopmentRequestUpdatedAt :: "requestRow list \<Rightarrow> string \<Rightarrow> gotime \<Rightarrow> string + gotime" where
  "nextDevelopmentRequestUpdatedAt rows i observed =
     (case find (\<lambda>row. dwID row = i) rows of
        None \<Rightarrow> Inl ''workqueue: development request update timestamp unavailable''
      | Some row \<Rightarrow>
         if observed \<le> dwUpdated row then
           if dwUpdated row = 2 ^ 63 - 1 then Inl ''workqueue: development request update timestamp exhausted''
           else Inr (dwUpdated row + 1)
         else Inr observed)"

definition newRequestRow :: "DevelopmentRequest \<Rightarrow> string \<Rightarrow> string \<Rightarrow> gotime \<Rightarrow> requestRow" where
  "newRequestRow r digest body now =
     \<lparr>dwID = dqID r, dwKeyDigest = dqKeyDigest r, dwRevision = uint (dqRevision r), dwState = dqState r,
      dwDigest = digest, dwBody = body, dwCreated = now, dwUpdated = now\<rparr>"

text \<open>The \<open>UPDATE\<close> of both operations, with the number of the rows it changes.\<close>

definition updateRequest ::
  "string \<Rightarrow> int \<Rightarrow> string \<Rightarrow> (requestRow \<Rightarrow> requestRow) \<Rightarrow> requestRow list \<Rightarrow> requestRow list \<times> nat" where
  "updateRequest i revision digest f rows =
     (let p = (\<lambda>row. dwID row = i \<and> dwRevision row = revision \<and> dwDigest row = digest)
      in (map (\<lambda>row. if p row then f row else row) rows, length (filter p rows)))"

subsection \<open>Operations\<close>

text \<open>The transaction of a save: the rows it commits, if it does, and its result.\<close>

definition insertRequest ::
  "DevelopmentRequest \<Rightarrow> string \<Rightarrow> string \<Rightarrow> gotime \<Rightarrow> requestRow list \<Rightarrow>
     requestRow list option \<times> (string + DevelopmentRequest \<times> bool)" where
  "insertRequest r digest body now rows =
     (case developmentRequestByKey rows (dqKeyDigest r) of
        Inl e \<Rightarrow> (None, Inl e)
      | Inr (Some byKey) \<Rightarrow>
          (None, if \<not> sameDevelopmentRequestBinding r byKey
                 then Inl ''workqueue: development request idempotency key conflicts'' else Inr (byKey, False))
      | Inr None \<Rightarrow>
          if \<not> validInitialDevelopmentRequest r then
            (None, Inl ''workqueue: development request must begin at revision one'')
          else if length (filter (\<lambda>row. \<not> developmentRequestTerminal (dwState row)) rows) \<ge> MaxDevelopmentRequests then
            (None, Inl ''workqueue: active development request bound exceeded'')
          else if list_ex (\<lambda>row. dwID row = dqID r \<or> dwKeyDigest row = dqKeyDigest r) rows then
            (None, Inl ''workqueue: development request persistence failed'')
          else (Some (rows @ [newRequestRow r digest body now]), Inr (r, True)))"

definition advanceRequest ::
  "DevelopmentRequest \<Rightarrow> string \<Rightarrow> string \<Rightarrow> DevelopmentRequest \<Rightarrow> gotime \<Rightarrow> requestRow list \<Rightarrow>
     requestRow list option \<times> (string + DevelopmentRequest \<times> bool)" where
  "advanceRequest r digest body existing now rows =
     (if \<not> sameDevelopmentRequestBinding r existing then (None, Inl ''workqueue: development request identity conflicts'')
      else
        case marshalDevelopmentRequest existing of
          Inl e \<Rightarrow> (None, Inl ''workqueue: development request record is corrupt'')
        | Inr (existingBody, existingDigest) \<Rightarrow>
           if dqRevision r = dqRevision existing \<and> digest = existingDigest then (None, Inr (existing, False))
           else if dqRevision r \<noteq> dqRevision existing + 1 \<or> \<not> validDevelopmentRequestTransition existing r then
             (None, Inl ''workqueue: development request revision conflict'')
           else
             case nextDevelopmentRequestUpdatedAt rows (dqID r) now of
               Inl e \<Rightarrow> (None, Inl e)
             | Inr updated \<Rightarrow>
                (case updateRequest (dqID r) (uint (dqRevision existing)) existingDigest
                        (\<lambda>row. row\<lparr>dwRevision := uint (dqRevision r), dwState := dqState r, dwDigest := digest,
                                 dwBody := body, dwUpdated := updated\<rparr>) rows of
                   (rows', n) \<Rightarrow>
                     if n \<noteq> 1 then (None, Inl ''workqueue: development request revision conflict'')
                     else (Some rows', Inr (r, False))))"

definition saveRequestTx ::
  "DevelopmentRequest \<Rightarrow> string \<Rightarrow> string \<Rightarrow> gotime \<Rightarrow> requestRow list \<Rightarrow>
     requestRow list option \<times> (string + DevelopmentRequest \<times> bool)" where
  "saveRequestTx r digest body now rows0 =
     (let rows = pruneExpiredDevelopmentRequests now rows0
      in case developmentRequestByID rows (dqID r) of
           Inl e \<Rightarrow> (None, Inl e)
         | Inr None \<Rightarrow> insertRequest r digest body now rows
         | Inr (Some existing) \<Rightarrow> advanceRequest r digest body existing now rows)"

text \<open>A transaction on the table; without a commit the database is as before.\<close>

definition commitRequests ::
  "'m requestDB_scheme Store \<Rightarrow> 'm requestDB_scheme \<Rightarrow> requestRow list option \<times> 'e \<Rightarrow> 'm requestDB_scheme Store \<times> 'e" where
  "commitRequests s db r =
     (case r of (None, e) \<Rightarrow> (s, e) | (Some rows, e) \<Rightarrow> (s\<lparr>stDB := Some (db\<lparr>qdRequests := rows\<rparr>)\<rparr>, e))"

definition SaveDevelopmentRequest ::
  "'m requestDB_scheme Store \<Rightarrow> DevelopmentRequest \<Rightarrow> gotime \<Rightarrow>
     'm requestDB_scheme Store \<times> (string + DevelopmentRequest \<times> bool)" where
  "SaveDevelopmentRequest s r now =
     (case stDB s of
        None \<Rightarrow> (s, Inl ''workqueue: development request is invalid'')
      | Some db \<Rightarrow>
         (case marshalDevelopmentRequest r of
            Inl e \<Rightarrow> (s, Inl ''workqueue: development request is invalid'')
          | Inr (body, digest) \<Rightarrow> commitRequests s db (saveRequestTx r digest body now (qdRequests db))))"

definition touchRequestTx ::
  "string \<Rightarrow> 64 word \<Rightarrow> gotime \<Rightarrow> requestRow list \<Rightarrow> requestRow list option \<times> (string + DevelopmentRequest)" where
  "touchRequestTx i expectedRevision now rows =
     (let conflict = (None, Inl ''workqueue: development request touch conflict'')
      in case developmentRequestByID rows i of
           Inl e \<Rightarrow> conflict
         | Inr None \<Rightarrow> conflict
         | Inr (Some r) \<Rightarrow>
            if dqRevision r \<noteq> expectedRevision \<or> dqState r = DevelopmentRequestAwaitingReasoning \<or>
               developmentRequestTerminal (dqState r) then conflict
            else
              case marshalDevelopmentRequest r of
                Inl e \<Rightarrow> (None, Inl ''workqueue: development request touch record is corrupt'')
              | Inr (oldBody, oldDigest) \<Rightarrow>
                 (let r' = r\<lparr>dqRevision := dqRevision r + 1\<rparr>
                  in case marshalDevelopmentRequest r' of
                       Inl e \<Rightarrow> (None, Inl ''workqueue: development request touch record is invalid'')
                     | Inr (body, digest) \<Rightarrow>
                        (case nextDevelopmentRequestUpdatedAt rows (dqID r') now of
                           Inl e \<Rightarrow> (None, Inl e)
                         | Inr updated \<Rightarrow>
                            (case updateRequest (dqID r') (uint expectedRevision) oldDigest
                                    (\<lambda>row. row\<lparr>dwRevision := uint (dqRevision r'), dwDigest := digest, dwBody := body,
                                             dwUpdated := updated\<rparr>) rows of
                               (rows', n) \<Rightarrow> if n \<noteq> 1 then conflict else (Some rows', Inr r')))))"

definition TouchDevelopmentRequest ::
  "'m requestDB_scheme Store \<Rightarrow> string \<Rightarrow> 64 word \<Rightarrow> gotime \<Rightarrow> 'm requestDB_scheme Store \<times> (string + DevelopmentRequest)" where
  "TouchDevelopmentRequest s i expectedRevision now =
     (case stDB s of
        None \<Rightarrow> (s, Inl ''workqueue: development request touch is invalid'')
      | Some db \<Rightarrow>
         if \<not> developmentRequestIDPattern i \<or> expectedRevision = 0 \<or> expectedRevision \<ge> maxDevelopmentRequestRevision then
           (s, Inl ''workqueue: development request touch is invalid'')
         else commitRequests s db (touchRequestTx i expectedRevision now (qdRequests db)))"

definition getDevelopmentRequest :: "'m requestDB_scheme Store \<Rightarrow> string \<Rightarrow> string + DevelopmentRequest option" where
  "getDevelopmentRequest s i =
     (case stDB s of
        None \<Rightarrow> Inl ''workqueue: development request id is invalid''
      | Some db \<Rightarrow>
         if \<not> developmentRequestIDPattern i then Inl ''workqueue: development request id is invalid''
         else developmentRequestByID (qdRequests db) i)"

definition getDevelopmentRequestByKey ::
  "'m requestDB_scheme Store \<Rightarrow> string \<Rightarrow> gotime \<Rightarrow> string + DevelopmentRequest option" where
  "getDevelopmentRequestByKey s k now =
     (case stDB s of
        None \<Rightarrow> Inl ''workqueue: development request key digest is invalid''
      | Some db \<Rightarrow>
         if \<not> developmentRequestDigest k then Inl ''workqueue: development request key digest is invalid''
         else
           case developmentRequestByKey (qdRequests db) k of
             Inr (Some r) \<Rightarrow>
               if \<not> developmentRequestTerminal (dqState r) then Inr (Some r)
               else
                 (case find (\<lambda>row. dwKeyDigest row = k) (qdRequests db) of
                    None \<Rightarrow> Inl ''workqueue: development request key lookup failed''
                  | Some row \<Rightarrow>
                     if dwUpdated row \<le> now - DevelopmentRequestIdempotencyTTL then Inr None else Inr (Some r))
           | result \<Rightarrow> result)"

fun scanRequests :: "requestRow list \<Rightarrow> string + DevelopmentRequest list" where
  "scanRequests [] = Inr []"
| "scanRequests (row # rows) =
     (case scanDevelopmentRequest row of
        Inl e \<Rightarrow> Inl ''workqueue: development request list result is invalid''
      | Inr r \<Rightarrow> (case scanRequests rows of Inl e \<Rightarrow> Inl e | Inr rs \<Rightarrow> Inr (r # rs)))"

definition listedRows :: "nat \<Rightarrow> bool \<Rightarrow> requestRow list \<Rightarrow> requestRow list" where
  "listedRows limit includeAwaitingReasoning rows =
     take limit (sort_key (\<lambda>row. (dwUpdated row, dwID row))
       (filter (\<lambda>row. \<not> developmentRequestTerminal (dwState row) \<and>
          (includeAwaitingReasoning \<or> dwState row \<noteq> DevelopmentRequestAwaitingReasoning)) rows))"

definition listDevelopmentRequests :: "requestRow list \<Rightarrow> nat \<Rightarrow> bool \<Rightarrow> string + DevelopmentRequest list" where
  "listDevelopmentRequests rows limit includeAwaitingReasoning =
     scanRequests (listedRows limit includeAwaitingReasoning rows)"

definition DevelopmentRequests :: "'m requestDB_scheme Store \<Rightarrow> int \<Rightarrow> string + DevelopmentRequest list" where
  "DevelopmentRequests s limit =
     (case stDB s of
        None \<Rightarrow> Inl ''workqueue: development request list limit is invalid''
      | Some db \<Rightarrow>
         if limit < 1 \<or> limit > MaxListResults then Inl ''workqueue: development request list limit is invalid''
         else listDevelopmentRequests (qdRequests db) (nat limit) False)"

definition DevelopmentGoalOwners :: "'m requestDB_scheme Store \<Rightarrow> string + (string \<times> string \<times> string) list" where
  "DevelopmentGoalOwners s =
     (case stDB s of
        None \<Rightarrow> Inl ''workqueue: development goal owners are unavailable''
      | Some db \<Rightarrow>
         (case listDevelopmentRequests (qdRequests db) (MaxDevelopmentRequests + 1) True of
            Inl e \<Rightarrow> Inl e
          | Inr rs \<Rightarrow>
             if length rs > MaxDevelopmentRequests then Inl ''workqueue: development goal owner bound exceeded''
             else Inr (map (\<lambda>r. (dqKeyDigest r, dqBodyRef r, dqBodyDigest r)) rs)))"

definition developmentRequestIntegrity :: "'m requestDB_scheme Store \<Rightarrow> string option" where
  "developmentRequestIntegrity s =
     (case stDB s of
        None \<Rightarrow> Some ''workqueue: development request integrity unavailable''
      | Some db \<Rightarrow>
         if list_all (\<lambda>row. case scanDevelopmentRequest row of Inl e \<Rightarrow> False | Inr r \<Rightarrow> Valid_request r) (qdRequests db)
         then None else Some ''workqueue: development request integrity failed'')"

subsection \<open>A stored record is read back\<close>

text \<open>A field that the encoder quotes as it is, of a bounded length.\<close>

definition fieldOk :: "nat \<Rightarrow> string \<Rightarrow> bool" where
  "fieldOk n s \<longleftrightarrow> list_all verbatim s \<and> length s \<le> n"

lemma verbatim_ascii: "list_all verbatim s \<Longrightarrow> ascii s"
  by (auto simp: ascii_def list_all_iff verbatim_def)

lemma verbatim_classes:
  "isHex c \<Longrightarrow> verbatim c" "isLowerNum c \<Longrightarrow> verbatim c" "isAlnum c \<Longrightarrow> verbatim c" "keyChar c \<Longrightarrow> verbatim c"
  by (auto simp: verbatim_def keyChar_def charClass_defs less_eq_char_def less_char_def)

lemma fieldOk_prefix:
  assumes "prefixPattern p isHex lo hi s" "list_all verbatim p" "length p + hi \<le> n"
  shows "fieldOk n s"
proof -
  from assms(1) have "length s \<le> length p + hi" by (auto simp: prefixPattern_def Let_def)
  with assms(3) prefixPattern_all [OF assms(1,2) verbatim_classes(1)] show ?thesis by (simp add: fieldOk_def)
qed

lemma fieldOk_enclosed:
  assumes "enclosedPattern isLowerNum (\<lambda>c. isLowerNum c \<or> c = CHR ''-'') k s" "k + 2 \<le> n"
  shows "fieldOk n s"
proof (cases s)
  case (Cons c cs)
  have dash: "verbatim CHR ''-''" by (simp add: verbatim_def less_eq_char_def less_char_def)
  have "list_all verbatim cs \<and> length cs \<le> Suc k"
  proof (cases cs rule: rev_cases)
    case (snoc xs x)
    with assms(1) Cons dash show ?thesis
      by (auto simp: enclosedPattern_def list_all_iff intro: verbatim_classes)
  qed simp
  with assms Cons show ?thesis by (auto simp: fieldOk_def enclosedPattern_def intro: verbatim_classes)
qed (use assms in \<open>simp add: enclosedPattern_def\<close>)

lemma fieldOk_identity: "identityPattern s \<Longrightarrow> fieldOk 128 s"
  by (cases s) (auto simp: identityPattern_def headPattern_def fieldOk_def list_all_iff intro: verbatim_classes)

lemma fieldOk_optional: "s = [] \<or> fieldOk n s \<Longrightarrow> fieldOk n s"
  by (auto simp: fieldOk_def)

lemma fieldOk_state: "validDevelopmentRequestState s \<Longrightarrow> fieldOk 18 s"
  by (auto simp: validDevelopmentRequestState_def request_states fieldOk_def verbatim_def less_eq_char_def less_char_def)

lemma fieldOk_reason: "validDevelopmentRequestReason s \<Longrightarrow> fieldOk 27 s"
  by (auto simp: validDevelopmentRequestReason_def request_reasons fieldOk_def verbatim_def less_eq_char_def less_char_def)

lemmas request_patterns = developmentRequestIDPattern_def developmentRequestDevice_def developmentRequestGoal_def
  developmentRequestOp_def developmentRequestProcess_def developmentRequestDigest_def digestPattern_def
  taskProjectPattern_def taskTargetPattern_def

lemma verbatim_prefixes:
  "list_all verbatim ''dr_''" "list_all verbatim ''ed_''" "list_all verbatim ''mb_''" "list_all verbatim ''eo_''"
  "list_all verbatim ''pr_''" "list_all verbatim ''sha256:''"
  by (simp_all add: verbatim_def less_eq_char_def less_char_def)

lemma fieldOk_patterns:
  "developmentRequestIDPattern s \<Longrightarrow> fieldOk 35 s" "developmentRequestDevice s \<Longrightarrow> fieldOk 35 s"
  "developmentRequestGoal s \<Longrightarrow> fieldOk 35 s" "developmentRequestOp s \<Longrightarrow> fieldOk 35 s"
  "developmentRequestProcess s \<Longrightarrow> fieldOk 35 s" "developmentRequestDigest s \<Longrightarrow> fieldOk 71 s"
  "taskProjectPattern s \<Longrightarrow> fieldOk 63 s" "taskTargetPattern s \<Longrightarrow> fieldOk 32 s"
  by (auto simp: request_patterns intro: fieldOk_prefix [OF _ verbatim_prefixes(1)] fieldOk_prefix [OF _ verbatim_prefixes(2)]
      fieldOk_prefix [OF _ verbatim_prefixes(3)] fieldOk_prefix [OF _ verbatim_prefixes(4)]
      fieldOk_prefix [OF _ verbatim_prefixes(5)] fieldOk_prefix [OF _ verbatim_prefixes(6)] fieldOk_enclosed)

lemma fieldOk_objective: "validDevelopmentRequestObjectiveID s \<Longrightarrow> fieldOk 128 s"
  by (auto simp: validDevelopmentRequestObjectiveID_def ValidObjectiveID_def intro: fieldOk_identity)

lemma Valid_request_parts:
  assumes "Valid_request r"
  shows "developmentRequestIDPattern (dqID r) \<and> developmentRequestDigest (dqKeyDigest r) \<and> taskProjectPattern (dqAlias r) \<and>
      taskTargetPattern (dqTarget r) \<and> developmentRequestDevice (dqDeviceID r) \<and> developmentRequestGoal (dqBodyRef r) \<and>
      developmentRequestDigest (dqBodyDigest r) \<and> validDevelopmentRequestState (dqState r) \<and>
      validDevelopmentRequestReason (dqReason r)"
    and "dqInspectionOperationID r = [] \<or> developmentRequestOp (dqInspectionOperationID r)"
    and "dqObjectiveID r = [] \<or> validDevelopmentRequestObjectiveID (dqObjectiveID r)"
    and "dqActiveOperationID r = [] \<or> developmentRequestOp (dqActiveOperationID r)"
    and "dqProcessID r = [] \<or> developmentRequestProcess (dqProcessID r)"
    and "dqRevision r \<noteq> 0" "dqRevision r \<le> maxDevelopmentRequestRevision"
  using assms unfolding Valid_request_def by (simp_all add: not_less split: if_split_asm)

lemma Valid_request_fields:
  assumes "Valid_request r"
  shows "fieldOk 35 (dqID r)" "fieldOk 71 (dqKeyDigest r)" "fieldOk 63 (dqAlias r)" "fieldOk 32 (dqTarget r)"
    "fieldOk 35 (dqDeviceID r)" "fieldOk 35 (dqBodyRef r)" "fieldOk 71 (dqBodyDigest r)"
    "fieldOk 35 (dqInspectionOperationID r)" "fieldOk 128 (dqObjectiveID r)" "fieldOk 35 (dqActiveOperationID r)"
    "fieldOk 35 (dqProcessID r)" "fieldOk 18 (dqState r)" "fieldOk 27 (dqReason r)"
  using Valid_request_parts [OF assms]
  by (blast intro: fieldOk_patterns fieldOk_objective fieldOk_state fieldOk_reason fieldOk_optional)+

text \<open>Storing the members of an encoded request one after the other rebuilds it.\<close>

abbreviation decodes :: "(string \<times> json) list \<Rightarrow> DevelopmentRequest \<Rightarrow> DevelopmentRequest option" where
  "decodes ms r \<equiv> decodeMembers storeField requestFields (map (\<lambda>(k, v). (k, valueOf v)) ms) r"

lemma decodes_append: "decodes (ms @ ns) r = (case decodes ms r of None \<Rightarrow> None | Some r' \<Rightarrow> decodes ns r')"
  by (induction ms arbitrary: r) (auto split: option.splits)

lemma decodes_optional:
  "dqInspectionOperationID r = [] \<Longrightarrow>
     decodes (omitEmpty ''inspection_operation_id'' v) r = Some (r\<lparr>dqInspectionOperationID := v\<rparr>)"
  "dqObjectiveID r = [] \<Longrightarrow> decodes (omitEmpty ''objective_id'' v) r = Some (r\<lparr>dqObjectiveID := v\<rparr>)"
  "dqActiveOperationID r = [] \<Longrightarrow>
     decodes (omitEmpty ''active_operation_id'' v) r = Some (r\<lparr>dqActiveOperationID := v\<rparr>)"
  "dqProcessID r = [] \<Longrightarrow> decodes (omitEmpty ''process_id'' v) r = Some (r\<lparr>dqProcessID := v\<rparr>)"
  "dqReason r = [] \<Longrightarrow> decodes (omitEmpty ''reason'' v) r = Some (r\<lparr>dqReason := v\<rparr>)"
  by (simp_all add: omitEmpty_def fieldFor_def requestFields_def storeField_def)

lemma fieldFor_names:
  "fieldFor requestFields ''request_id'' = Some ''request_id''" "fieldFor requestFields ''revision'' = Some ''revision''"
  "fieldFor requestFields ''key_digest'' = Some ''key_digest''" "fieldFor requestFields ''alias'' = Some ''alias''"
  "fieldFor requestFields ''target'' = Some ''target''" "fieldFor requestFields ''device_id'' = Some ''device_id''"
  "fieldFor requestFields ''body_ref'' = Some ''body_ref''" "fieldFor requestFields ''body_digest'' = Some ''body_digest''"
  "fieldFor requestFields ''state'' = Some ''state''"
  by (simp_all add: fieldFor_def requestFields_def)

lemma decodeRequest_encode:
  assumes "asciiJson (requestJson r)"
  shows "decodeRequest (encodeJson (requestJson r)) = Some r"
proof -
  have "nesting (requestJson r) \<le> 1"
    by (auto simp: requestJson_def omitEmpty_def)
  then have "decodeOnly (encodeJson (requestJson r)) = Some (valueOf (requestJson r))"
    using decodeOnly_encode [OF assms] by (simp add: maxNestingDepth_def)
  moreover have "decodeStruct storeField requestFields zeroRequest (valueOf (requestJson r)) = Some r"
    unfolding requestJson_def valueOf.simps decodeStruct_def jval.case
    by (simp only: decodes_append append.simps)
      (simp add: decodes_append decodes_optional fieldFor_names storeField_def zeroRequest_def
        del: map_append)
  ultimately show ?thesis by (simp add: decodeRequest_def)
qed

lemma fieldOk_ascii: "fieldOk n s \<Longrightarrow> ascii s"
  by (simp add: fieldOk_def verbatim_ascii)

lemma in_omitEmpty: "m \<in> set (omitEmpty k v) \<longleftrightarrow> v \<noteq> [] \<and> m = (k, JString v)"
  by (auto simp: omitEmpty_def)

text \<open>A member of the record of a valid request: its name and its value are short and plain.\<close>

definition memberOk :: "string \<times> json \<Rightarrow> bool" where
  "memberOk m \<longleftrightarrow> fieldOk 23 (fst m) \<and>
     (case snd m of JString s \<Rightarrow> fieldOk 128 s | JInt i \<Rightarrow> length (formatInt i) \<le> 128 | _ \<Rightarrow> False)"

lemma fieldOk_mono: "fieldOk n s \<Longrightarrow> n \<le> m \<Longrightarrow> fieldOk m s"
  by (simp add: fieldOk_def)

lemma fieldNames_ok: "list_all (fieldOk 23) requestFields"
  by code_simp

lemma length_formatNat: "n < 10 ^ Suc k \<Longrightarrow> length (formatNat n) \<le> Suc k"
proof (induction k arbitrary: n)
  case 0
  then show ?case by (subst formatNat.simps) simp
next
  case (Suc k)
  show ?case
  proof (cases "n < 10")
    case True
    then show ?thesis by (subst formatNat.simps) simp
  next
    case False
    from Suc.prems have "n div 10 < 10 ^ Suc k" by (simp add: less_mult_imp_div_less)
    with Suc.IH False show ?thesis by (subst formatNat.simps) simp
  qed
qed

lemma length_formatInt_word: "length (formatInt (uint (w :: 64 word))) \<le> 128"
proof -
  have "unat w < 2 ^ 64" using unsigned_less [of w, where ?'a = nat] by simp
  also have "(2 :: nat) ^ 64 \<le> 10 ^ Suc 19" by simp
  finally show ?thesis using length_formatNat [of "unat w" 19] by (simp add: formatInt_def flip: unat_eq_nat_uint)
qed

definition requestMembers :: "DevelopmentRequest \<Rightarrow> (string \<times> json) list" where
  "requestMembers r = (case requestJson r of JObject ms \<Rightarrow> ms | _ \<Rightarrow> [])"

lemma requestJson_members: "requestJson r = JObject (requestMembers r)"
  by (simp add: requestMembers_def requestJson_def)

lemma memberOk_request:
  assumes "Valid_request r"
  shows "list_all memberOk (requestMembers r)"
proof -
  note f = Valid_request_fields [OF assms, THEN fieldOk_mono, of 128, simplified]
  show ?thesis
    using fieldNames_ok length_formatInt_word [of "dqRevision r"] f
    by (simp add: list_all_iff requestMembers_def requestJson_def requestFields_def memberOk_def in_omitEmpty ball_Un)
qed

lemma length_requestMembers: "length (requestMembers r) \<le> 14"
  by (simp add: requestMembers_def requestJson_def omitEmpty_def)

lemma memberOk_length: "memberOk m \<Longrightarrow> length (encodeMember m) \<le> 156"
  by (auto simp: memberOk_def encodeMember_def fieldOk_def encodeString_def escapeString_verbatim split: json.splits)

lemma length_joinWith_bound: "\<forall>w \<in> set ws. length w \<le> n \<Longrightarrow> length (joinWith '','' ws) \<le> length ws * (n + 1)"
proof (induction ws rule: induct_list012)
  case (3 v w ws)
  then show ?case by simp
qed auto

lemma length_request:
  assumes "Valid_request r"
  shows "length (encodeJson (requestJson r)) \<le> MaxDevelopmentRequestRecordBytes"
proof -
  let ?ws = "map encodeMember (requestMembers r)"
  have "length (joinWith '','' ?ws) \<le> length ?ws * 157"
    using length_joinWith_bound [of ?ws 156] memberOk_request [OF assms] by (auto simp: list_all_iff memberOk_length)
  also have "\<dots> \<le> 14 * 157" using length_requestMembers [of r] by simp
  finally show ?thesis
    by (simp add: requestJson_members encodeJson_members MaxDevelopmentRequestRecordBytes_def del: encodeJson.simps)
qed

lemma asciiJson_request:
  assumes "Valid_request r"
  shows "asciiJson (requestJson r)"
proof -
  have "ascii k \<and> asciiJson v" if "memberOk (k, v)" for k v
    using that by (cases v) (auto simp: memberOk_def intro: fieldOk_ascii)
  then show ?thesis using memberOk_request [OF assms] by (auto simp: requestJson_members list_all_iff)
qed

end
