(* ===== verification/Request_Properties.thy ===== *)
theory Request_Properties
  imports Wq_Request Wq_Properties Systems "HOL-Library.Multiset"
begin

text \<open>
  The table of development requests as a system of steps: its invariant, the transactions
  of saving and touching as one relation on the rows, and what follows for the store - the
  history of a request, repeated saves, the rotation of the requests a dispatcher sees.
\<close>

subsection \<open>Rows of requests\<close>

definition requestBody :: "DevelopmentRequest \<Rightarrow> string" where
  "requestBody r = encodeJson (requestJson r)"

definition requestDigest :: "DevelopmentRequest \<Rightarrow> string" where
  "requestDigest r = sha256Digest (developmentRequestDigestDomain @ requestBody r)"

definition rowFor :: "DevelopmentRequest \<Rightarrow> requestRow \<Rightarrow> bool" where
  "rowFor r row \<longleftrightarrow> Valid_request r \<and> dwID row = dqID r \<and> dwKeyDigest row = dqKeyDigest r \<and>
     dwRevision row = uint (dqRevision r) \<and> dwState row = dqState r \<and> dwBody row = requestBody r \<and>
     dwDigest row = requestDigest r"

lemma requestBody_not_Nil: "requestBody r \<noteq> []"
  by (simp add: requestBody_def requestJson_def)

lemma marshal_valid: "Valid_request r \<Longrightarrow> marshalDevelopmentRequest r = Inr (requestBody r, requestDigest r)"
  using length_request [of r] requestBody_not_Nil [of r]
  by (simp add: marshalDevelopmentRequest_def requestBody_def requestDigest_def Let_def)

lemma marshal_Inr: "marshalDevelopmentRequest r = Inr (body, digest) \<longleftrightarrow>
  Valid_request r \<and> body = requestBody r \<and> digest = requestDigest r"
  using marshal_valid [of r] by (cases "Valid_request r") (auto simp: marshalDevelopmentRequest_def)

lemma recordDigest_body: "Valid_request r \<Longrightarrow> developmentRequestRecordDigest (requestBody r) = requestDigest r"
  using length_request [of r] requestBody_not_Nil [of r]
  by (simp add: developmentRequestRecordDigest_def requestDigest_def requestBody_def)

lemma requestDigest_not_Nil: "requestDigest r \<noteq> []"
  by (simp add: requestDigest_def sha256Digest_def)

lemma decodeRequest_body: "Valid_request r \<Longrightarrow> decodeRequest (requestBody r) = Some r"
  by (simp add: requestBody_def decodeRequest_encode asciiJson_request)

lemma Valid_request_revision:
  assumes "Valid_request r"
  shows "1 \<le> uint (dqRevision r)" "uint (dqRevision r) \<le> uint maxDevelopmentRequestRevision"
  using Valid_request_parts(6,7) [OF assms]
  by (simp_all add: word_le_def) (metis int_one_le_iff_zero_less uint_0_iff uint_ge_0 order_le_less)

text \<open>A row can be read exactly when it is the canonical row of a valid request.\<close>

lemma scan_iff: "scanDevelopmentRequest row = Inr r \<longleftrightarrow> rowFor r row"
proof
  assume "rowFor r row"
  moreover from this have v: "Valid_request r" by (simp add: rowFor_def)
  ultimately show "scanDevelopmentRequest row = Inr r"
    using Valid_request_revision [OF v] requestDigest_not_Nil [of r]
    by (simp add: scanDevelopmentRequest_def rowFor_def recordDigest_body decodeRequest_body marshal_valid)
next
  assume "scanDevelopmentRequest row = Inr r"
  then show "rowFor r row"
    by (auto simp: scanDevelopmentRequest_def rowFor_def Let_def marshal_Inr split: if_splits option.splits sum.splits prod.splits)
qed

lemma scan_row: "rowFor r row \<Longrightarrow> scanDevelopmentRequest row = Inr r"
  by (simp add: scan_iff)

lemma rowFor_unique: "rowFor r row \<Longrightarrow> rowFor r' row \<Longrightarrow> r = r'"
  by (metis Inr_inject scan_iff)

subsection \<open>The table\<close>

definition activeRows :: "requestRow list \<Rightarrow> requestRow list" where
  "activeRows rows = filter (\<lambda>row. \<not> developmentRequestTerminal (dwState row)) rows"

definition requestsOk :: "requestRow list \<Rightarrow> bool" where
  "requestsOk rows \<longleftrightarrow> distinct (map dwID rows) \<and> distinct (map dwKeyDigest rows) \<and>
     (\<forall>row \<in> set rows. \<exists>r. rowFor r row) \<and> length (activeRows rows) \<le> MaxDevelopmentRequests"

lemma requestsOk_filter: "requestsOk rows \<Longrightarrow> requestsOk (filter p rows)"
proof -
  assume ok: "requestsOk rows"
  have "length (activeRows (filter p rows)) \<le> length (activeRows rows)"
    by (induction rows) (auto simp: activeRows_def)
  with ok show "requestsOk (filter p rows)"
    by (auto simp: requestsOk_def intro: distinct_map_filter)
qed

lemma find_unique:
  "distinct (map f rows) \<Longrightarrow> row \<in> set rows \<Longrightarrow> find (\<lambda>x. f x = f row) rows = Some row"
  by (induction rows) (auto simp: image_iff)

lemma queryRequest_Some:
  "queryRequest p rows = Inr (Some r) \<longleftrightarrow> (\<exists>row. find p rows = Some row \<and> rowFor r row)"
  by (simp add: queryRequest_def scan_iff [symmetric] split: option.split sum.split)

lemma scan_ok: "requestsOk rows \<Longrightarrow> row \<in> set rows \<Longrightarrow> \<exists>r. scanDevelopmentRequest row = Inr r"
  by (simp add: requestsOk_def scan_iff)

lemma queryRequest_cases:
  assumes "requestsOk rows"
  obtains "queryRequest p rows = Inr None" "\<forall>row \<in> set rows. \<not> p row"
  | row r where "queryRequest p rows = Inr (Some r)" "row \<in> set rows" "p row" "rowFor r row"
proof (cases "find p rows")
  case None
  then have "queryRequest p rows = Inr None" by (simp add: queryRequest_def)
  moreover from None have "\<forall>row \<in> set rows. \<not> p row" by (simp add: find_None_iff)
  ultimately show thesis by (rule that(1))
next
  case (Some row)
  then have row: "row \<in> set rows" "p row" by (auto simp: find_Some_iff)
  from scan_ok [OF assms row(1)] obtain r where "scanDevelopmentRequest row = Inr r" ..
  with Some have "queryRequest p rows = Inr (Some r)" "rowFor r row"
    by (simp_all add: queryRequest_def flip: scan_iff)
  with row show thesis by (intro that(2))
qed

lemma byID_row:
  assumes "requestsOk rows" "row \<in> set rows" "rowFor r row"
  shows "developmentRequestByID rows (dwID row) = Inr (Some r)"
  using assms find_unique [of dwID rows row]
  by (simp add: developmentRequestByID_def queryRequest_Some requestsOk_def)

lemma byKey_row:
  assumes "requestsOk rows" "row \<in> set rows" "rowFor r row"
  shows "developmentRequestByKey rows (dwKeyDigest row) = Inr (Some r)"
  using assms find_unique [of dwKeyDigest rows row]
  by (simp add: developmentRequestByKey_def queryRequest_Some requestsOk_def)


subsection \<open>The operations keep the table\<close>

lemma requestsOk_prune: "requestsOk rows \<Longrightarrow> requestsOk (pruneExpiredDevelopmentRequests now rows)"
  by (simp add: pruneExpiredDevelopmentRequests_def requestsOk_filter)

lemma rowFor_new: "Valid_request r \<Longrightarrow> rowFor r (newRequestRow r (requestDigest r) (requestBody r) now)"
  by (simp add: rowFor_def newRequestRow_def)

lemma requestsOk_snoc:
  assumes "requestsOk rows" "rowFor r row" "length (activeRows rows) < MaxDevelopmentRequests"
    "\<not> list_ex (\<lambda>x. dwID x = dwID row \<or> dwKeyDigest x = dwKeyDigest row) rows"
  shows "requestsOk (rows @ [row])"
  using assms by (auto simp: requestsOk_def activeRows_def list_ex_iff)

lemma requestsOk_same_id:
  "requestsOk rows \<Longrightarrow> x \<in> set rows \<Longrightarrow> y \<in> set rows \<Longrightarrow> dwID x = dwID y \<Longrightarrow> x = y"
  by (auto simp: requestsOk_def distinct_map dest: inj_onD)

abbreviation changeRow :: "requestRow \<Rightarrow> requestRow \<Rightarrow> requestRow list \<Rightarrow> requestRow list" where
  "changeRow row row' rows \<equiv> map (\<lambda>x. if x = row then row' else x) rows"

lemma updateRequest_row:
  assumes "requestsOk rows" "row \<in> set rows" "rowFor r row"
  shows "updateRequest (dwID row) (uint (dqRevision r)) (requestDigest r) f rows = (changeRow row (f row) rows, 1)"
proof -
  have p: "dwID x = dwID row \<and> dwRevision x = uint (dqRevision r) \<and> dwDigest x = requestDigest r \<longleftrightarrow> x = row"
    if "x \<in> set rows" for x
    using that assms requestsOk_same_id [OF assms(1) that assms(2)] by (auto simp: rowFor_def)
  have "distinct rows" using assms(1) by (auto simp: requestsOk_def distinct_map)
  then have "length (filter (\<lambda>x. x = row) rows) = 1"
    using assms(2) by (simp add: distinct_length_filter Int_absorb2 Collect_conv_if)
  moreover have "filter (\<lambda>x. dwID x = dwID row \<and> dwRevision x = uint (dqRevision r) \<and> dwDigest x = requestDigest r) rows =
      filter (\<lambda>x. x = row) rows"
    using p by (intro filter_cong) auto
  ultimately show ?thesis using p by (auto simp: updateRequest_def Let_def)
qed

lemma length_activeRows_change:
  assumes "\<not> developmentRequestTerminal (dwState row)"
  shows "length (activeRows (changeRow row row' rows)) \<le> length (activeRows rows)"
  using assms by (induction rows) (auto simp: activeRows_def)

lemma requestsOk_change:
  assumes "requestsOk rows" "rowFor r row'" "dwID row' = dwID row" "dwKeyDigest row' = dwKeyDigest row"
    "\<not> developmentRequestTerminal (dwState row)"
  shows "requestsOk (changeRow row row' rows)"
proof -
  have "map dwID (changeRow row row' rows) = map dwID rows" "map dwKeyDigest (changeRow row row' rows) = map dwKeyDigest rows"
    using assms(3,4) by auto
  with assms(1,2) length_activeRows_change [OF assms(5), of row' rows] show ?thesis
    unfolding requestsOk_def by (auto simp del: map_map)
qed

text \<open>What a transaction of the table may do.\<close>

inductive requestTx :: "gotime \<Rightarrow> requestRow list \<Rightarrow> requestRow list \<Rightarrow> bool" for now where
  insert: "rows = pruneExpiredDevelopmentRequests now rows0 \<Longrightarrow> validInitialDevelopmentRequest r \<Longrightarrow>
    \<not> list_ex (\<lambda>x. dwID x = dqID r \<or> dwKeyDigest x = dqKeyDigest r) rows \<Longrightarrow>
    length (activeRows rows) < MaxDevelopmentRequests \<Longrightarrow>
    requestTx now rows0 (rows @ [newRequestRow r (requestDigest r) (requestBody r) now])"
| change: "rows = pruneExpiredDevelopmentRequests now rows0 \<or> rows = rows0 \<Longrightarrow> row \<in> set rows \<Longrightarrow> rowFor r row \<Longrightarrow>
    validDevelopmentRequestTransition r r' \<Longrightarrow> rowFor r' row' \<Longrightarrow> dwCreated row' = dwCreated row \<Longrightarrow>
    dwUpdated row < dwUpdated row' \<Longrightarrow> now \<le> dwUpdated row' \<Longrightarrow>
    requestTx now rows0 (changeRow row row' rows)"

lemma validTransition_facts:
  assumes "validDevelopmentRequestTransition r r'"
  shows "Valid_request r'" "\<not> developmentRequestTerminal (dqState r)" "dqID r' = dqID r" "dqKeyDigest r' = dqKeyDigest r"
    "dqRevision r' = dqRevision r + 1" "sameDevelopmentRequestBinding r' r"
  using assms unfolding validDevelopmentRequestTransition_def sameDevelopmentRequestBinding_def
  by (simp_all split: if_split_asm)

lemma requestTx_ok: "requestTx now rows0 rows \<Longrightarrow> requestsOk rows0 \<Longrightarrow> requestsOk rows"
proof (induction rule: requestTx.induct)
  case (insert rows rows0 r)
  then have "Valid_request r" by (simp add: validInitialDevelopmentRequest_def)
  from requestsOk_snoc [OF _ rowFor_new [OF this]] insert requestsOk_prune show ?case
    by (simp add: newRequestRow_def)
next
  case (change rows rows0 row r r' row')
  then have "requestsOk rows" using requestsOk_prune by blast
  moreover have "dwID row' = dwID row" "dwKeyDigest row' = dwKeyDigest row" "\<not> developmentRequestTerminal (dwState row)"
    using change validTransition_facts [OF change.hyps(4)] by (simp_all add: rowFor_def)
  ultimately show ?case using requestsOk_change [OF _ change.hyps(5)] by blast
qed

lemma nextUpdated_row:
  assumes "requestsOk rows" "row \<in> set rows" "nextDevelopmentRequestUpdatedAt rows (dwID row) now = Inr updated"
  shows "dwUpdated row < updated" "now \<le> updated"
  using assms find_unique [of dwID rows row]
  by (auto simp: nextDevelopmentRequestUpdatedAt_def requestsOk_def split: if_splits)

lemma insertRequest_tx:
  assumes "requestsOk rows0" "rows = pruneExpiredDevelopmentRequests now rows0"
    "insertRequest r (requestDigest r) (requestBody r) now rows = (Some rows', res)"
  shows "requestTx now rows0 rows' \<and> res = Inr (r, True) \<and> (\<exists>row \<in> set rows'. rowFor r row)"
  using assms(3)
  by (auto simp: insertRequest_def activeRows_def assms(2) validInitialDevelopmentRequest_def rowFor_new
      split: sum.splits option.splits if_splits intro!: requestTx.insert)

lemma advanceRequest_tx:
  assumes "requestsOk rows0" "rows = pruneExpiredDevelopmentRequests now rows0" "row \<in> set rows" "rowFor existing row"
    "dwID row = dqID r" "advanceRequest r (requestDigest r) (requestBody r) existing now rows = (Some rows', res)"
  shows "requestTx now rows0 rows' \<and> res = Inr (r, False) \<and> (\<exists>row \<in> set rows'. rowFor r row)"
proof -
  have ok: "requestsOk rows" using assms(1,2) requestsOk_prune by simp
  have v: "Valid_request existing" using assms(4) by (simp add: rowFor_def)
  from assms(6) obtain updated where tr: "validDevelopmentRequestTransition existing r"
    and up: "nextDevelopmentRequestUpdatedAt rows (dwID row) now = Inr updated" and res: "res = Inr (r, False)"
    and upd: "fst (updateRequest (dwID row) (uint (dqRevision existing)) (requestDigest existing)
      (\<lambda>row. row\<lparr>dwRevision := uint (dqRevision r), dwState := dqState r, dwDigest := requestDigest r,
         dwBody := requestBody r, dwUpdated := updated\<rparr>) rows) = rows'"
    by (auto simp: advanceRequest_def marshal_valid [OF v] assms(5) split: if_splits sum.splits prod.splits)
  let ?row = "row\<lparr>dwRevision := uint (dqRevision r), dwState := dqState r, dwDigest := requestDigest r,
    dwBody := requestBody r, dwUpdated := updated\<rparr>"
  have "rows' = changeRow row ?row rows" using upd updateRequest_row [OF ok assms(3,4)] by simp
  moreover have "rowFor r ?row"
    using assms(4,5) validTransition_facts [OF tr] by (simp add: rowFor_def)
  ultimately show ?thesis
    using requestTx.change [OF _ assms(3,4) tr, of now rows0 ?row] assms(2,3) nextUpdated_row [OF ok assms(3) up] res by auto
qed

lemma saveRequestTx_tx:
  assumes "requestsOk rows0" "saveRequestTx r (requestDigest r) (requestBody r) now rows0 = (Some rows', res)"
  shows "requestTx now rows0 rows' \<and> (\<exists>created. res = Inr (r, created)) \<and> (\<exists>row \<in> set rows'. rowFor r row)"
proof -
  let ?rows = "pruneExpiredDevelopmentRequests now rows0"
  have ok: "requestsOk ?rows" by (rule requestsOk_prune [OF assms(1)])
  show ?thesis
  proof (cases rule: queryRequest_cases [OF ok, of "\<lambda>row. dwID row = dqID r"])
    case 1
    with assms(2) insertRequest_tx [OF assms(1) refl, of r now rows' res] show ?thesis
      by (auto simp add: saveRequestTx_def developmentRequestByID_def Let_def)
  next
    case (2 row existing)
    with assms(2) advanceRequest_tx [OF assms(1) refl, of row now existing r rows' res] show ?thesis
      by (auto simp add: saveRequestTx_def developmentRequestByID_def Let_def)
  qed
qed

lemma touch_transition:
  assumes "Valid_request r" "Valid_request (r\<lparr>dqRevision := dqRevision r + 1\<rparr>)" "\<not> developmentRequestTerminal (dqState r)"
  shows "validDevelopmentRequestTransition r (r\<lparr>dqRevision := dqRevision r + 1\<rparr>)"
  using assms Valid_request_parts(2,3,5) [OF assms(1)]
  by (auto simp: validDevelopmentRequestTransition_def validDevelopmentRequestStateTransition_def setOnceDevelopmentRequestID_def)

lemma touchRequestTx_row:
  assumes "requestsOk rows" "touchRequestTx i expected now rows = (Some rows', res)"
  obtains row r row' where "row \<in> set rows" "rowFor r row" "dwID row = i" "dqRevision r = expected"
    "\<not> developmentRequestTerminal (dqState r)" "dqState r \<noteq> DevelopmentRequestAwaitingReasoning"
    "validDevelopmentRequestTransition r (r\<lparr>dqRevision := expected + 1\<rparr>)" "rowFor (r\<lparr>dqRevision := expected + 1\<rparr>) row'"
    "dwCreated row' = dwCreated row" "dwUpdated row < dwUpdated row'" "now \<le> dwUpdated row'"
    "rows' = changeRow row row' rows" "res = Inr (r\<lparr>dqRevision := expected + 1\<rparr>)"
proof (cases rule: queryRequest_cases [OF assms(1), of "\<lambda>row. dwID row = i"])
  case 1
  with assms(2) show thesis by (simp add: touchRequestTx_def developmentRequestByID_def Let_def)
next
  case (2 row r)
  let ?r = "r\<lparr>dqRevision := dqRevision r + 1\<rparr>"
  have v: "Valid_request r" "dqID r = i" using 2 by (auto simp: rowFor_def)
  from assms(2) 2 v obtain updated where v': "Valid_request ?r" "\<not> developmentRequestTerminal (dqState r)"
    and st: "dqState r \<noteq> DevelopmentRequestAwaitingReasoning"
    and up: "nextDevelopmentRequestUpdatedAt rows (dwID row) now = Inr updated"
    and res: "res = Inr ?r" "dqRevision r = expected"
    and upd: "fst (updateRequest (dwID row) (uint (dqRevision r)) (requestDigest r)
      (\<lambda>row. row\<lparr>dwRevision := uint (dqRevision ?r), dwDigest := requestDigest ?r, dwBody := requestBody ?r,
         dwUpdated := updated\<rparr>) rows) = rows'"
    by (auto simp: touchRequestTx_def developmentRequestByID_def marshal_valid Let_def marshal_Inr
        split: if_splits sum.splits prod.splits)
  let ?row = "row\<lparr>dwRevision := uint (dqRevision ?r), dwDigest := requestDigest ?r, dwBody := requestBody ?r,
    dwUpdated := updated\<rparr>"
  have "rows' = changeRow row ?row rows" using upd updateRequest_row [OF assms(1) 2(2,4)] by auto
  moreover have "rowFor ?r ?row" using 2 v'(1) by (simp add: rowFor_def)
  ultimately show thesis
    using 2 v'(2) st res touch_transition [OF v(1) v'] nextUpdated_row [OF assms(1) 2(2) up]
    by (intro that [of row r ?row]) simp_all
qed

lemma touchRequestTx_tx:
  assumes "requestsOk rows" "touchRequestTx i expected now rows = (Some rows', res)"
  shows "requestTx now rows rows'"
proof (rule touchRequestTx_row [OF assms])
  fix row r row'
  assume "row \<in> set rows" "rowFor r row" "validDevelopmentRequestTransition r (r\<lparr>dqRevision := expected + 1\<rparr>)"
    "rowFor (r\<lparr>dqRevision := expected + 1\<rparr>) row'" "dwCreated row' = dwCreated row" "dwUpdated row < dwUpdated row'"
    "now \<le> dwUpdated row'" "rows' = changeRow row row' rows"
  then show ?thesis using requestTx.change [of rows now rows row r] by blast
qed

subsection \<open>The store\<close>

definition requestRows :: "'m requestDB_scheme Store \<Rightarrow> requestRow list" where
  "requestRows s = (case stDB s of None \<Rightarrow> [] | Some db \<Rightarrow> qdRequests db)"

inductive requestStepAt :: "gotime \<Rightarrow> 'm requestDB_scheme Store \<Rightarrow> 'm requestDB_scheme Store \<Rightarrow> bool" for now where
  save: "requestStepAt now s (fst (SaveDevelopmentRequest s r now))"
| touch: "requestStepAt now s (fst (TouchDevelopmentRequest s i revision now))"

definition requestStep :: "'m requestDB_scheme Store \<Rightarrow> 'm requestDB_scheme Store \<Rightarrow> bool" where
  "requestStep s s' \<longleftrightarrow> (\<exists>now. requestStepAt now s s')"

lemma requestRows_commit:
  "stDB s = Some db \<Longrightarrow> requestRows (fst (commitRequests s db (c, e))) = (case c of None \<Rightarrow> qdRequests db | Some rows \<Rightarrow> rows)"
  by (simp add: requestRows_def commitRequests_def split: option.split)

lemma Save_tx:
  assumes "requestsOk (requestRows s)" "SaveDevelopmentRequest s r now = (s', res)"
  shows "s' = s \<or> requestTx now (requestRows s) (requestRows s') \<and> Valid_request r \<and> (\<exists>created. res = Inr (r, created))"
proof (cases "stDB s")
  case (Some db)
  show ?thesis
  proof (cases "Valid_request r")
    case True
    obtain c e where tx: "saveRequestTx r (requestDigest r) (requestBody r) now (qdRequests db) = (c, e)" by force
    have s: "commitRequests s db (c, e) = (s', res)"
      using assms(2) Some tx marshal_valid [OF True] by (simp add: SaveDevelopmentRequest_def)
    have rows: "requestRows s = qdRequests db" using Some by (simp add: requestRows_def)
    show ?thesis
    proof (cases c)
      case (Some rows')
      with saveRequestTx_tx [of "qdRequests db" r now rows' e] tx assms(1) rows True s requestRows_commit [OF \<open>stDB s = Some db\<close>, of c e]
      show ?thesis by (auto simp: commitRequests_def)
    qed (use s in \<open>simp add: commitRequests_def\<close>)
  qed (use assms(2) Some in \<open>simp add: SaveDevelopmentRequest_def marshalDevelopmentRequest_def\<close>)
qed (use assms in \<open>simp add: SaveDevelopmentRequest_def\<close>)

lemma Touch_tx:
  assumes "requestsOk (requestRows s)" "TouchDevelopmentRequest s i expected now = (s', res)"
  shows "s' = s \<or> requestTx now (requestRows s) (requestRows s') \<and>
    touchRequestTx i expected now (requestRows s) = (Some (requestRows s'), res)"
proof (cases "stDB s")
  case (Some db)
  obtain c e where tx: "touchRequestTx i expected now (qdRequests db) = (c, e)" by force
  have rows: "requestRows s = qdRequests db" using Some by (simp add: requestRows_def)
  show ?thesis
  proof (cases c)
    case None
    with assms(2) Some tx show ?thesis by (auto simp: TouchDevelopmentRequest_def commitRequests_def split: if_splits)
  next
    case (Some rows')
    with touchRequestTx_tx [of "qdRequests db" i expected now rows' e] tx assms rows \<open>stDB s = Some db\<close>
      requestRows_commit [OF \<open>stDB s = Some db\<close>, of c e]
    show ?thesis by (auto simp: TouchDevelopmentRequest_def commitRequests_def split: if_splits)
  qed
qed (use assms in \<open>simp add: TouchDevelopmentRequest_def\<close>)

text \<open>A touch that succeeds has committed.\<close>

lemma touchRequestTx_Inr: "touchRequestTx i expected now rows = (c, Inr r) \<Longrightarrow> c \<noteq> None"
  by (auto simp: touchRequestTx_def Let_def split: sum.splits option.splits if_splits prod.splits)

lemma Touch_committed:
  assumes "requestsOk (requestRows s)" "TouchDevelopmentRequest s i expected now = (s', Inr r)"
  shows "touchRequestTx i expected now (requestRows s) = (Some (requestRows s'), Inr r)"
proof -
  from assms(2) obtain db where db: "stDB s = Some db" by (cases "stDB s") (auto simp: TouchDevelopmentRequest_def)
  obtain c e where tx: "touchRequestTx i expected now (qdRequests db) = (c, e)" by force
  from assms(2) db tx have "commitRequests s db (c, e) = (s', Inr r)" by (simp add: TouchDevelopmentRequest_def split: if_splits)
  with tx touchRequestTx_Inr [of i expected now "qdRequests db" c r] db show ?thesis
    by (auto simp: commitRequests_def requestRows_def split: option.splits)
qed

lemma requestStep_tx:
  assumes "requestStepAt now s s'" "requestsOk (requestRows s)"
  shows "s' = s \<or> requestTx now (requestRows s) (requestRows s')"
  using assms(1)
proof cases
  case (save r)
  then show ?thesis using Save_tx [OF assms(2), of r now s'] by (metis prod.exhaust_sel)
next
  case (touch i revision)
  then show ?thesis using Touch_tx [OF assms(2), of i revision now s'] by (metis prod.exhaust_sel)
qed

interpretation requests: invariant_system "\<lambda>s. requestRows s = []" requestStep "\<lambda>s. requestsOk (requestRows s)"
proof
  fix s :: "'m requestDB_scheme Store"
  assume "requestRows s = []"
  then show "requestsOk (requestRows s)" by (simp add: requestsOk_def activeRows_def)
next
  fix s t :: "'m requestDB_scheme Store"
  assume "requestStep s t" "requestsOk (requestRows s)"
  then show "requestsOk (requestRows t)" unfolding requestStep_def using requestStep_tx requestTx_ok by blast
qed

abbreviation requestReach :: "'m requestDB_scheme Store \<Rightarrow> bool" where
  "requestReach \<equiv> reach (\<lambda>s. requestRows s = []) requestStep"

lemma get_rows:
  "stDB s \<noteq> None \<Longrightarrow> developmentRequestIDPattern i \<Longrightarrow> getDevelopmentRequest s i = developmentRequestByID (requestRows s) i"
  by (auto simp: getDevelopmentRequest_def requestRows_def)

lemma get_Some:
  assumes "requestsOk (requestRows s)"
  shows "getDevelopmentRequest s i = Inr (Some r) \<longleftrightarrow> (\<exists>row \<in> set (requestRows s). dwID row = i \<and> rowFor r row)"
proof
  assume "getDevelopmentRequest s i = Inr (Some r)"
  then have "developmentRequestByID (requestRows s) i = Inr (Some r)"
    by (auto simp: getDevelopmentRequest_def requestRows_def split: option.splits if_splits)
  then show "\<exists>row \<in> set (requestRows s). dwID row = i \<and> rowFor r row"
    by (auto simp: developmentRequestByID_def queryRequest_Some find_Some_iff)
next
  assume "\<exists>row \<in> set (requestRows s). dwID row = i \<and> rowFor r row"
  then obtain row where row: "row \<in> set (requestRows s)" "dwID row = i" "rowFor r row" by blast
  have "stDB s \<noteq> None" using row(1) by (cases "stDB s") (simp_all add: requestRows_def)
  moreover have "developmentRequestIDPattern i" using row Valid_request_parts(1) [of r] by (auto simp: rowFor_def)
  ultimately show "getDevelopmentRequest s i = Inr (Some r)" using row byID_row [OF assms row(1,3)] by (simp add: get_rows)
qed

lemma get_None:
  assumes "requestsOk (requestRows s)" "requestRows s \<noteq> []" "developmentRequestIDPattern i"
    "\<forall>row \<in> set (requestRows s). dwID row \<noteq> i"
  shows "getDevelopmentRequest s i = Inr None"
proof -
  have "stDB s \<noteq> None" using assms(2) by (cases "stDB s") (simp_all add: requestRows_def)
  moreover have "find (\<lambda>row. dwID row = i) (requestRows s) = None" using assms(4) by (simp add: find_None_iff)
  ultimately show ?thesis using assms(3) by (simp add: get_rows developmentRequestByID_def queryRequest_def)
qed

subsection \<open>Properties of the requests\<close>

lemma scanRequests_ok:
  "\<forall>row \<in> set rows. \<exists>r. rowFor r row \<Longrightarrow> \<exists>rs. scanRequests rows = Inr rs \<and> list_all2 rowFor rs rows"
proof (induction rows)
  case (Cons row rows)
  then obtain r rs where "rowFor r row" "scanRequests rows = Inr rs" "list_all2 rowFor rs rows"
    by auto
  then show ?case by (auto simp: scan_row)
qed simp

lemma set_listedRows: "set (listedRows n b rows) \<subseteq> set rows"
  by (auto simp: listedRows_def dest: in_set_takeD)

text \<open>
  C12: Every table of development requests that saving and touching produce passes the
  integrity check, and the goals of its active requests can be listed for the
  reconciliation at the start: their number stays within the bound.
\<close>

theorem request_table_sound:
  assumes "requestReach s" "stDB s = Some db"
  shows "developmentRequestIntegrity s = None \<and>
    (\<exists>owners. DevelopmentGoalOwners s = Inr owners \<and> length owners = length (activeRows (qdRequests db)))"
proof -
  have ok: "requestsOk (qdRequests db)" using requests.reach_inv [OF assms(1)] assms(2) by (simp add: requestRows_def)
  have "developmentRequestIntegrity s = None"
    using ok assms(2) by (auto simp: developmentRequestIntegrity_def list_all_iff requestsOk_def scan_row dest!: bspec)
      (simp add: rowFor_def)
  moreover
  let ?listed = "listedRows (MaxDevelopmentRequests + 1) True (qdRequests db)"
  have n: "length ?listed = length (activeRows (qdRequests db))" "length (activeRows (qdRequests db)) \<le> MaxDevelopmentRequests"
    using ok by (simp_all add: listedRows_def requestsOk_def activeRows_def)
  obtain rs where "scanRequests ?listed = Inr rs" "list_all2 rowFor rs ?listed"
    using scanRequests_ok [of ?listed] ok set_listedRows unfolding requestsOk_def by blast
  with n assms(2) have "\<exists>owners. DevelopmentGoalOwners s = Inr owners \<and> length owners = length (activeRows (qdRequests db))"
    by (simp add: DevelopmentGoalOwners_def listDevelopmentRequests_def list_all2_lengthD)
  ultimately show ?thesis ..
qed

text \<open>What a later revision of a request keeps of an earlier one.\<close>

definition requestLe :: "DevelopmentRequest \<Rightarrow> DevelopmentRequest \<Rightarrow> bool" where
  "requestLe r r' \<longleftrightarrow>
     dqID r' = dqID r \<and> sameDevelopmentRequestBinding r' r \<and> uint (dqRevision r') = uint (dqRevision r) + 1 \<and>
     \<not> developmentRequestTerminal (dqState r) \<and>
     dqInspectionOperationID r \<in> {[], dqInspectionOperationID r'} \<and> dqObjectiveID r \<in> {[], dqObjectiveID r'} \<and>
     dqProcessID r \<in> {[], dqProcessID r'} \<and>
     (dqState r' = DevelopmentRequestPreparing \<longrightarrow> dqState r = DevelopmentRequestPreparing) \<and>
     (dqState r = DevelopmentRequestCancelling \<longrightarrow>
        developmentRequestTerminal (dqState r') \<or>
        dqState r' = DevelopmentRequestCancelling \<and>
        (dqReason r = ReasonReconciliationRequired \<longrightarrow> dqReason r' = ReasonReconciliationRequired))"

lemma revision_next:
  assumes "Valid_request r"
  shows "uint (dqRevision r + 1) = uint (dqRevision r) + 1"
proof -
  have "uint (dqRevision r) \<le> 1048576"
    using Valid_request_revision(2) [OF assms] by (simp add: maxDevelopmentRequestRevision_def)
  then show ?thesis by (simp add: uint_word_ariths mod_pos_pos_trivial)
qed

lemma requestLe_transition:
  assumes "validDevelopmentRequestTransition r r'"
  shows "requestLe r r'"
proof -
  have v: "Valid_request r" using assms by (simp add: validDevelopmentRequestTransition_def split: if_split_asm)
  have "setOnceDevelopmentRequestID (dqInspectionOperationID r) (dqInspectionOperationID r') developmentRequestOp"
    "setOnceDevelopmentRequestID (dqObjectiveID r) (dqObjectiveID r') validDevelopmentRequestObjectiveID"
    "setOnceDevelopmentRequestID (dqProcessID r) (dqProcessID r') developmentRequestProcess"
    and st: "validDevelopmentRequestStateTransition (dqState r) (dqState r')"
    and re: "dqState r = DevelopmentRequestCancelling \<Longrightarrow> dqReason r = ReasonReconciliationRequired \<Longrightarrow>
      dqState r' = DevelopmentRequestCancelling \<Longrightarrow> dqReason r' = ReasonReconciliationRequired"
    using assms unfolding validDevelopmentRequestTransition_def by (simp_all split: if_split_asm)
  moreover have "dqState r' = DevelopmentRequestPreparing \<Longrightarrow> dqState r = DevelopmentRequestPreparing"
    using st by (auto simp: validDevelopmentRequestStateTransition_def request_states split: if_splits)
  moreover have "developmentRequestTerminal (dqState r') \<or> dqState r' = DevelopmentRequestCancelling"
    if "dqState r = DevelopmentRequestCancelling"
    using st that by (auto simp: validDevelopmentRequestStateTransition_def request_states developmentRequestTerminal_def split: if_splits)
  ultimately show ?thesis
    using validTransition_facts [OF assms] revision_next [OF v]
    by (auto simp: requestLe_def setOnceDevelopmentRequestID_def split: if_splits)
qed

text \<open>What a transaction does to one row.\<close>

lemma requestTx_row:
  assumes "requestTx now rows rows'" "requestsOk rows" "row \<in> set rows" "rowFor r row"
  obtains row' r' where "row' \<in> set rows'" "dwID row' = dwID row" "rowFor r' row'" "r' = r \<or> requestLe r r'"
  | "developmentRequestTerminal (dqState r)" "dwUpdated row \<le> now - DevelopmentRequestIdempotencyTTL"
    "\<forall>x \<in> set rows'. dwID x = dwID row \<longrightarrow> (\<exists>r'. rowFor r' x \<and> validInitialDevelopmentRequest r')"
  using assms(1)
proof cases
  case (insert rs r0)
  show ?thesis
  proof (cases "row \<in> set rs")
    case True
    with insert assms(4) show ?thesis by (intro that(1) [of row r]) auto
  next
    case False
    with insert assms(3,4) have gone: "developmentRequestTerminal (dqState r)" "dwUpdated row \<le> now - DevelopmentRequestIdempotencyTTL"
      by (auto simp: pruneExpiredDevelopmentRequests_def rowFor_def)
    have "Valid_request r0" using insert(3) by (simp add: validInitialDevelopmentRequest_def)
    then have "\<exists>r'. rowFor r' x \<and> validInitialDevelopmentRequest r'" if "x \<in> set rows'" "dwID x = dwID row" for x
      using that insert False requestsOk_same_id [OF assms(2) _ assms(3), of x] rowFor_new
      by (auto simp: pruneExpiredDevelopmentRequests_def)
    with gone show ?thesis by (intro that(2)) auto
  qed
next
  case (change rs row0 r0 r0' row0')
  have sub: "set rs \<subseteq> set rows" using change(2) by (auto simp: pruneExpiredDevelopmentRequests_def)
  have id0: "dwID row0' = dwID row0" using change validTransition_facts(3) [OF change(5)] by (simp add: rowFor_def)
  show ?thesis
  proof (cases "row \<in> set rs")
    case True
    show ?thesis
    proof (cases "row = row0")
      case True
      with change assms(4) have "r = r0" using rowFor_unique by blast
      with True change id0 requestLe_transition [OF change(5)] show ?thesis by (intro that(1) [of row0' r0']) auto
    qed (use True change assms(4) in \<open>intro that(1) [of row r], auto\<close>)
  next
    case False
    with change assms(3,4) have gone: "developmentRequestTerminal (dqState r)" "dwUpdated row \<le> now - DevelopmentRequestIdempotencyTTL"
      by (auto simp: pruneExpiredDevelopmentRequests_def rowFor_def)
    have "dwID x \<noteq> dwID row" if "x \<in> set rs" for x
      using that False sub requestsOk_same_id [OF assms(2) _ assms(3), of x] by auto
    with change id0 have "\<forall>x \<in> set rows'. dwID x \<noteq> dwID row" by auto
    with gone show ?thesis by (intro that(2)) auto
  qed
qed

text \<open>
  C34: A row of the table is read as a request exactly when the request is valid, the stored
  text is its canonical encoding with the digest of that text, and the columns repeat its
  identifier, key, revision and state. In particular what is written is read back.
\<close>

theorem scanDevelopmentRequest_exact:
  "scanDevelopmentRequest row = Inr r \<longleftrightarrow>
   marshalDevelopmentRequest r = Inr (dwBody row, dwDigest row) \<and> dwID row = dqID r \<and> dwKeyDigest row = dqKeyDigest r \<and>
   dwRevision row = uint (dqRevision r) \<and> dwState row = dqState r"
  by (auto simp: scan_iff rowFor_def marshal_Inr)

text \<open>
  C11: Saving or touching any request changes a stored one only to its next revision, which
  keeps its identifier and binding, and those of the identifiers of its inspection
  operation, its objective and its process that were set; the active operation may change.
  The next revision never leaves a final state, does not go back to preparation and does not
  leave a cancellation for further work. A request disappears, or gives
  its identifier to a new one, only when it is final and was not updated for thirty days.
\<close>

theorem request_history:
  assumes "requestReach s" "requestStepAt now s s'" "getDevelopmentRequest s i = Inr (Some r)"
  shows "(\<exists>r'. getDevelopmentRequest s' i = Inr (Some r') \<and> (r' = r \<or> requestLe r r')) \<or>
    developmentRequestTerminal (dqState r) \<and>
    (\<exists>row \<in> set (requestRows s). dwID row = i \<and> dwUpdated row \<le> now - DevelopmentRequestIdempotencyTTL) \<and>
    (getDevelopmentRequest s' i = Inr None \<or>
     (\<exists>r'. getDevelopmentRequest s' i = Inr (Some r') \<and> validInitialDevelopmentRequest r'))"
proof (cases "s' = s")
  case False
  have ok: "requestsOk (requestRows s)" by (rule requests.reach_inv [OF assms(1)])
  with False requestStep_tx [OF assms(2)] have tx: "requestTx now (requestRows s) (requestRows s')" by blast
  from requestTx_ok [OF tx ok] have ok': "requestsOk (requestRows s')" .
  from assms(3) obtain row where row: "row \<in> set (requestRows s)" "dwID row = i" "rowFor r row"
    unfolding get_Some [OF ok] by blast
  have ne: "requestRows s' \<noteq> []" using tx by cases auto
  have i: "developmentRequestIDPattern i" using row Valid_request_parts(1) [of r] by (auto simp: rowFor_def)
  from requestTx_row [OF tx ok row(1,3)] show ?thesis
  proof cases
    case (1 row' r')
    then show ?thesis using row get_Some [OF ok', of i r'] by blast
  next
    case 2
    show ?thesis
    proof (cases "\<exists>x \<in> set (requestRows s'). dwID x = i")
      case True
      then obtain x where x: "x \<in> set (requestRows s')" "dwID x = i" by blast
      with 2(3) row(2) obtain r' where "rowFor r' x" "validInitialDevelopmentRequest r'" by auto
      with x 2 row get_Some [OF ok', of i r'] show ?thesis by blast
    next
      case False
      then have "getDevelopmentRequest s' i = Inr None" using get_None [OF ok' ne i] by blast
      with 2 row show ?thesis by blast
    qed
  qed
qed (use assms(3) in blast)

text \<open>A lookup is not changed by pruning what it does not need.\<close>

lemma prune_kept: "row \<in> set rows \<Longrightarrow> \<not> developmentRequestTerminal (dwState row) \<Longrightarrow>
  row \<in> set (pruneExpiredDevelopmentRequests now rows)"
  by (simp add: pruneExpiredDevelopmentRequests_def)

lemma prune_mono: "now \<le> now' \<Longrightarrow> set (pruneExpiredDevelopmentRequests now' rows) \<subseteq> set (pruneExpiredDevelopmentRequests now rows)"
  by (auto simp: pruneExpiredDevelopmentRequests_def)

lemma saveRequestTx_existing:
  assumes "requestsOk rows" "row \<in> set rows" "rowFor r' row" "\<not> developmentRequestTerminal (dqState r')" "dqID r' = dqID r"
    "sameDevelopmentRequestBinding r r'" "dqRevision r = dqRevision r'" "requestDigest r = requestDigest r'"
  shows "saveRequestTx r (requestDigest r) (requestBody r) now rows = (None, Inr (r', False))"
proof -
  have row: "row \<in> set (pruneExpiredDevelopmentRequests now rows)" using assms(2-4) by (intro prune_kept) (simp_all add: rowFor_def)
  have "Valid_request r'" "dwID row = dqID r" using assms(3,5) by (simp_all add: rowFor_def)
  with byID_row [OF requestsOk_prune [OF assms(1)] row assms(3)] assms(6-8) show ?thesis
    by (simp add: saveRequestTx_def advanceRequest_def marshal_valid Let_def)
qed

lemma saveRequestTx_byKey:
  assumes "requestsOk rows" "row \<in> set rows" "rowFor r' row" "\<not> developmentRequestTerminal (dqState r')"
    "sameDevelopmentRequestBinding r r'" "\<forall>x \<in> set (pruneExpiredDevelopmentRequests now rows). dwID x \<noteq> dqID r"
  shows "saveRequestTx r (requestDigest r) (requestBody r) now rows = (None, Inr (r', False))"
proof -
  have row: "row \<in> set (pruneExpiredDevelopmentRequests now rows)" using assms(2-4) by (intro prune_kept) (simp_all add: rowFor_def)
  have "dwKeyDigest row = dqKeyDigest r" using assms(3,5) by (simp add: rowFor_def sameDevelopmentRequestBinding_def)
  moreover have "find (\<lambda>row. dwID row = dqID r) (pruneExpiredDevelopmentRequests now rows) = None"
    using assms(6) by (simp add: find_None_iff)
  ultimately show ?thesis
    using byKey_row [OF requestsOk_prune [OF assms(1)] row assms(3)] assms(5)
    by (simp add: saveRequestTx_def insertRequest_def developmentRequestByID_def queryRequest_def Let_def)
qed


text \<open>The ways in which a save succeeds.\<close>

lemma saveRequestTx_success:
  assumes "requestsOk rows" "Valid_request r"
    "saveRequestTx r (requestDigest r) (requestBody r) now rows = (c, Inr (r', created))"
  obtains rows' row where "c = Some rows'" "r' = r" "row \<in> set rows'" "rowFor r row"
  | row where "c = None" "row \<in> set rows" "rowFor r' row" "dqID r' = dqID r" "sameDevelopmentRequestBinding r r'"
      "dqRevision r = dqRevision r'" "requestDigest r = requestDigest r'"
  | row where "c = None" "row \<in> set rows" "rowFor r' row" "sameDevelopmentRequestBinding r r'"
      "\<forall>x \<in> set (pruneExpiredDevelopmentRequests now rows). dwID x \<noteq> dqID r"
proof (cases c)
  case (Some rows')
  with saveRequestTx_tx [OF assms(1), of r now rows'] assms(3) show thesis using that(1) by auto
next
  case None
  let ?rows = "pruneExpiredDevelopmentRequests now rows"
  have ok: "requestsOk ?rows" by (rule requestsOk_prune [OF assms(1)])
  have sub: "set ?rows \<subseteq> set rows" by (auto simp: pruneExpiredDevelopmentRequests_def)
  show thesis
  proof (cases rule: queryRequest_cases [OF ok, of "\<lambda>row. dwID row = dqID r"])
    case 1
    then have ins: "insertRequest r (requestDigest r) (requestBody r) now ?rows = (None, Inr (r', created))"
      using assms(3) None by (simp add: saveRequestTx_def developmentRequestByID_def Let_def)
    show thesis
    proof (cases rule: queryRequest_cases [OF ok, of "\<lambda>row. dwKeyDigest row = dqKeyDigest r", case_names none some])
      case none
      with ins show thesis by (simp add: insertRequest_def developmentRequestByKey_def split: if_splits)
    next
      case (some row existing)
      with ins have "r' = existing" "sameDevelopmentRequestBinding r existing"
        by (simp_all add: insertRequest_def developmentRequestByKey_def split: if_splits)
      with some 1 None sub show thesis by (intro that(3) [of row]) auto
    qed
  next
    case (2 row existing)
    then have v: "Valid_request existing" "dqID existing = dqID r" by (auto simp: rowFor_def)
    have adv: "advanceRequest r (requestDigest r) (requestBody r) existing now ?rows = (None, Inr (r', created))"
      using assms(3) None 2 by (simp add: saveRequestTx_def developmentRequestByID_def Let_def)
    have "r' = existing \<and> sameDevelopmentRequestBinding r existing \<and> dqRevision r = dqRevision existing \<and>
        requestDigest r = requestDigest existing"
      using adv by (simp add: advanceRequest_def marshal_valid [OF v(1)] split: if_split_asm sum.split_asm prod.split_asm)
    with 2 v None sub show thesis by (intro that(2) [of row]) auto
  qed
qed

text \<open>
  C32: After a save that succeeded, the request it returned is the one stored under its
  identifier, and while that request is not final the same save can be repeated at any later
  time: it returns the same request, creates nothing and changes nothing.
\<close>

theorem SaveDevelopmentRequest_idempotent:
  assumes "requestReach s" "SaveDevelopmentRequest s r now = (s', Inr (r', created))"
    "\<not> developmentRequestTerminal (dqState r')" "now \<le> now'"
  shows "getDevelopmentRequest s' (dqID r') = Inr (Some r') \<and> SaveDevelopmentRequest s' r now' = (s', Inr (r', False))"
proof -
  have ok: "requestsOk (requestRows s)" by (rule requests.reach_inv [OF assms(1)])
  have "requestStepAt now s s'" using requestStepAt.save [of now s r] assms(2) by simp
  with requestStep_tx [OF this ok] requestTx_ok ok have ok': "requestsOk (requestRows s')" by blast
  from assms(2) obtain db where db: "stDB s = Some db" and v: "Valid_request r"
    by (cases "stDB s"; cases "Valid_request r") (auto simp: SaveDevelopmentRequest_def marshalDevelopmentRequest_def)
  have rows: "requestRows s = qdRequests db" using db by (simp add: requestRows_def)
  obtain c where tx: "saveRequestTx r (requestDigest r) (requestBody r) now (requestRows s) = (c, Inr (r', created))"
    and s': "s' = (case c of None \<Rightarrow> s | Some rows' \<Rightarrow> s\<lparr>stDB := Some (db\<lparr>qdRequests := rows'\<rparr>)\<rparr>)"
    using assms(2) db v rows
    by (auto simp: SaveDevelopmentRequest_def marshal_valid commitRequests_def split: prod.splits option.splits)
  obtain db' where db': "stDB s' = Some db'" "requestRows s' = qdRequests db'"
    using s' db by (cases c) (simp_all add: requestRows_def)
  have again: "saveRequestTx r (requestDigest r) (requestBody r) now' (requestRows s') = (None, Inr (r', False)) \<and>
      (\<exists>row \<in> set (requestRows s'). rowFor r' row)"
    using saveRequestTx_success [OF ok v tx]
  proof cases
    case (1 rows' row)
    then have "requestRows s' = rows'" using s' by (simp add: requestRows_def)
    with 1 ok' assms(3) saveRequestTx_existing [of rows' row r r now'] show ?thesis
      by (auto simp: sameDevelopmentRequestBinding_def)
  next
    case (2 row)
    with s' ok assms(3) saveRequestTx_existing [of "requestRows s" row r' r now'] show ?thesis by auto
  next
    case (3 row)
    with s' ok assms(3) saveRequestTx_byKey [of "requestRows s" row r' r now'] prune_mono [OF assms(4)] show ?thesis by auto
  qed
  then have "getDevelopmentRequest s' (dqID r') = Inr (Some r')"
    unfolding get_Some [OF ok'] by (auto simp: rowFor_def)
  with again db' v show ?thesis by (simp add: SaveDevelopmentRequest_def marshal_valid commitRequests_def)
qed

text \<open>The identifiers of the requests a dispatcher sees, in their order.\<close>

definition dispatchable :: "requestRow \<Rightarrow> bool" where
  "dispatchable row \<longleftrightarrow> \<not> developmentRequestTerminal (dwState row) \<and> dwState row \<noteq> DevelopmentRequestAwaitingReasoning"

definition dispatchOrder :: "'m requestDB_scheme Store \<Rightarrow> string list" where
  "dispatchOrder s = map dwID (listedRows (length (requestRows s)) False (requestRows s))"

lemma listedRows_all:
  "length rows \<le> n \<Longrightarrow> listedRows n False rows = sort_key (\<lambda>row. (dwUpdated row, dwID row)) (filter dispatchable rows)"
  by (simp add: listedRows_def flip: dispatchable_def) (meson length_filter_le le_trans)

lemma filter_key_single:
  "distinct xs \<Longrightarrow> inj_on k (set xs) \<Longrightarrow> x \<in> set xs \<Longrightarrow> filter (\<lambda>y. k x = k y) xs = [x]"
  by (induction xs) (auto simp: filter_empty_conv inj_on_def)

lemma sort_key_unique:
  assumes "distinct xs" "inj_on k (set xs)" "mset ys = mset xs" "sorted (map k ys)"
  shows "sort_key k xs = ys"
proof (rule properties_for_sort_key)
  have "set ys = set xs" "distinct ys" using assms(1,3) by (auto dest: mset_eq_setD mset_eq_imp_distinct_iff)
  then show "filter (\<lambda>y. k x = k y) ys = filter (\<lambda>y. k x = k y) xs" if "x \<in> set ys" for x
    using that assms(1,2) by (simp add: filter_key_single)
qed (use assms in simp_all)

lemma sort_change_last:
  fixes k :: "requestRow \<Rightarrow> gotime \<times> string"
  assumes "distinct xs" "row \<in> set xs" "\<forall>x \<in> set xs. k x < k row'" "inj_on k (set xs)"
  shows "sort_key k (changeRow row row' xs) = filter (\<lambda>x. x \<noteq> row) (sort_key k xs) @ [row']"
proof (rule sort_key_unique)
  obtain ys zs where xs: "xs = ys @ row # zs" "row \<notin> set ys" "row \<notin> set zs"
    using assms(1,2) by (metis distinct.simps(2) distinct_append not_distinct_conv_prefix split_list_first)
  then have change: "changeRow row row' xs = ys @ row' # zs" by (auto intro: map_idI)
  have ne: "row' \<notin> set xs" "k row' \<notin> k ` set xs" using assms(3) by auto
  then show "distinct (changeRow row row' xs)" using assms(1) unfolding change by (auto simp: xs(1))
  from ne have "inj_on k (insert row' (set xs))" using assms(4) by simp
  then show "inj_on k (set (changeRow row row' xs))" by (rule inj_on_subset) auto
  have "filter (\<lambda>x. x \<noteq> row) ys = ys" "filter (\<lambda>x. x \<noteq> row) zs = zs" using xs(2,3) by (auto intro: filter_True)
  then have "filter (\<lambda>x. x \<noteq> row) xs = ys @ zs" using xs(1) by simp
  moreover have "mset (filter (\<lambda>x. x \<noteq> row) (sort_key k xs)) = mset (filter (\<lambda>x. x \<noteq> row) xs)" by simp
  ultimately have "mset (filter (\<lambda>x. x \<noteq> row) (sort_key k xs)) = mset (ys @ zs)" by (simp only:)
  then show "mset (filter (\<lambda>x. x \<noteq> row) (sort_key k xs) @ [row']) = mset (changeRow row row' xs)"
    unfolding change by (simp del: mset_filter)
  show "sorted (map k (filter (\<lambda>x. x \<noteq> row) (sort_key k xs) @ [row']))"
    using assms(3) sorted_filter [of k "sort_key k xs"] by (auto simp: sorted_append less_imp_le)
qed

lemma dispatch_keys:
  assumes "requestsOk rows"
  shows "distinct (filter dispatchable rows)" "inj_on (\<lambda>row. (dwUpdated row, dwID row)) (set (filter dispatchable rows))"
  using assms requestsOk_same_id [OF assms] by (auto simp: requestsOk_def distinct_map inj_on_def)

lemma filter_changeRow:
  assumes "dispatchable row" "dispatchable row'"
  shows "filter dispatchable (changeRow row row' rows) = changeRow row row' (filter dispatchable rows)"
  using assms by (induction rows) auto

text \<open>
  C33: A dispatcher that touches a request, at a time after every update, moves it to the end
  of the order in which requests are listed, and keeps the order of the others: polling the
  front and touching it serves every request in turn.
\<close>

theorem TouchDevelopmentRequest_rotates:
  assumes "requestReach s" "TouchDevelopmentRequest s i revision now = (s', Inr r)"
    "\<forall>row \<in> set (requestRows s). dwUpdated row < now"
  shows "i \<in> set (dispatchOrder s) \<and> dispatchOrder s' = filter (\<lambda>j. j \<noteq> i) (dispatchOrder s) @ [i]"
proof -
  let ?k = "\<lambda>row. (dwUpdated row, dwID row)"
  have ok: "requestsOk (requestRows s)" by (rule requests.reach_inv [OF assms(1)])
  have "touchRequestTx i revision now (requestRows s) = (Some (requestRows s'), Inr r)"
    using Touch_committed [OF ok assms(2)] .
  then obtain row row' where row: "row \<in> set (requestRows s)" "dwID row = i" "dwID row' = i"
    "dispatchable row" "dispatchable row'" "now \<le> dwUpdated row'" "requestRows s' = changeRow row row' (requestRows s)"
    by (rule touchRequestTx_row [OF ok]) (auto simp: rowFor_def dispatchable_def)
  let ?xs = "filter dispatchable (requestRows s)"
  have keys: "\<forall>x \<in> set ?xs. ?k x < ?k row'" using assms(3) row(6) by (auto simp: less_prod_def)
  have same: "dwID x = i \<longleftrightarrow> x = row" if "x \<in> set (sort_key ?k ?xs)" for x
    using that row(1,2) requestsOk_same_id [OF ok, of x row] by auto
  have "dispatchOrder s' = map dwID (sort_key ?k (changeRow row row' ?xs))"
    using row by (simp add: dispatchOrder_def listedRows_all filter_changeRow del: filter_map)
  also have "\<dots> = map dwID (filter (\<lambda>x. x \<noteq> row) (sort_key ?k ?xs) @ [row'])"
    using sort_change_last [OF dispatch_keys(1) [OF ok] _ keys dispatch_keys(2) [OF ok], of row] row(1,4) by simp
  also have "\<dots> = filter (\<lambda>j. j \<noteq> i) (map dwID (sort_key ?k ?xs)) @ [i]"
  proof -
    have "filter (\<lambda>x. x \<noteq> row) (sort_key ?k ?xs) = filter (\<lambda>x. dwID x \<noteq> i) (sort_key ?k ?xs)"
      using same by (intro filter_cong) auto
    with row(3) show ?thesis by (simp add: filter_map comp_def)
  qed
  finally show ?thesis
    using row(1,2,4) by (auto simp: dispatchOrder_def listedRows_all)
qed

subsection \<open>An example\<close>

definition exampleDevRequest :: DevelopmentRequest where
  "exampleDevRequest = zeroRequest\<lparr>dqID := ''dr_'' @ replicate 32 CHR ''0'', dqRevision := 1,
     dqKeyDigest := ''sha256:'' @ replicate 64 CHR ''a'', dqAlias := ''aeontra'', dqTarget := ''edge'',
     dqDeviceID := ''ed_'' @ replicate 32 CHR ''0'', dqBodyRef := ''mb_'' @ replicate 32 CHR ''0'',
     dqBodyDigest := ''sha256:'' @ replicate 64 CHR ''b'', dqState := DevelopmentRequestPreparing\<rparr>"

definition exampleRow :: requestRow where
  "exampleRow = newRequestRow exampleDevRequest (requestDigest exampleDevRequest) (requestBody exampleDevRequest) 1000"

definition requestStore :: "requestRow list \<Rightarrow> requestDB Store" where
  "requestStore rows = \<lparr>stConfig = exampleConfig, stDB = Some \<lparr>qdJobs = [], qdDeps = [], qdRequests = rows\<rparr>,
     stFair = exampleScheduler\<rparr>"

abbreviation touchedRequest :: DevelopmentRequest where
  "touchedRequest \<equiv> exampleDevRequest\<lparr>dqRevision := 2\<rparr>"

definition touchedRow :: requestRow where
  "touchedRow = exampleRow\<lparr>dwRevision := 2, dwDigest := requestDigest touchedRequest, dwBody := requestBody touchedRequest,
     dwUpdated := 2000\<rparr>"

lemma exampleDevRequest_valid: "validInitialDevelopmentRequest exampleDevRequest" "Valid_request touchedRequest"
  "\<not> developmentRequestTerminal (dqState exampleDevRequest)"
  by code_simp+

lemma exampleDevRequest_Valid: "Valid_request exampleDevRequest"
  using exampleDevRequest_valid(1) by (simp add: validInitialDevelopmentRequest_def)

lemma exampleRow_for: "rowFor exampleDevRequest exampleRow"
  using rowFor_new [OF exampleDevRequest_Valid] by (simp add: exampleRow_def)

lemma requestRows_store [simp]: "requestRows (requestStore rows) = rows"
  by (simp add: requestRows_def requestStore_def)

lemma example_save: "SaveDevelopmentRequest (requestStore []) exampleDevRequest 1000 =
  (requestStore [exampleRow], Inr (exampleDevRequest, True))"
  using exampleDevRequest_valid(1) marshal_valid [OF exampleDevRequest_Valid]
  by (simp add: SaveDevelopmentRequest_def requestStore_def saveRequestTx_def pruneExpiredDevelopmentRequests_def
      developmentRequestByID_def developmentRequestByKey_def queryRequest_def insertRequest_def commitRequests_def
      MaxDevelopmentRequests_def exampleRow_def)

lemma example_reached: "requestReach (requestStore [exampleRow])"
proof (rule reach.next_state)
  show "requestReach (requestStore [])" by (rule reach.start) simp
  show "requestStep (requestStore []) (requestStore [exampleRow])"
    unfolding requestStep_def using requestStepAt.save [of 1000 "requestStore []" exampleDevRequest] example_save by auto
qed

lemma example_get: "getDevelopmentRequest (requestStore [exampleRow]) (dqID exampleDevRequest) = Inr (Some exampleDevRequest)"
  using exampleRow_for requests.reach_inv [OF example_reached] by (subst get_Some) (auto simp: rowFor_def)

lemma example_touch: "TouchDevelopmentRequest (requestStore [exampleRow]) (dqID exampleDevRequest) 1 2000 =
  (requestStore [touchedRow], Inr touchedRequest)"
proof -
  have cols: "dwID exampleRow = dqID exampleDevRequest" "dwRevision exampleRow = 1" "dwUpdated exampleRow = 1000"
    "dwDigest exampleRow = requestDigest exampleDevRequest" "dqRevision exampleDevRequest = 1"
    by (simp_all add: exampleRow_def newRequestRow_def exampleDevRequest_def)
  have "developmentRequestIDPattern (dqID exampleDevRequest)"
    using Valid_request_parts(1) [OF exampleDevRequest_Valid] by simp
  moreover have "\<not> maxDevelopmentRequestRevision \<le> 1" by code_simp
  moreover have "dqState exampleDevRequest \<noteq> DevelopmentRequestAwaitingReasoning" by code_simp
  ultimately show ?thesis
    using exampleDevRequest_valid(3) cols scan_row [OF exampleRow_for] marshal_valid [OF exampleDevRequest_Valid]
      marshal_valid [OF exampleDevRequest_valid(2)]
    by (simp add: TouchDevelopmentRequest_def requestStore_def touchRequestTx_def developmentRequestByID_def queryRequest_def
        nextDevelopmentRequestUpdatedAt_def updateRequest_def commitRequests_def
        touchedRow_def Let_def)
qed

theorem request_table_sound_witness:
  "developmentRequestIntegrity (requestStore [exampleRow]) = None \<and>
   (\<exists>owners. DevelopmentGoalOwners (requestStore [exampleRow]) = Inr owners \<and> length owners = 1)"
  using request_table_sound [OF example_reached, of "\<lparr>qdJobs = [], qdDeps = [], qdRequests = [exampleRow]\<rparr>"]
    exampleDevRequest_valid(3) exampleRow_for
  by (simp add: requestStore_def activeRows_def rowFor_def)

theorem request_history_witness:
  "\<exists>r'. getDevelopmentRequest (requestStore [touchedRow]) (dqID exampleDevRequest) = Inr (Some r') \<and>
     (r' = exampleDevRequest \<or> requestLe exampleDevRequest r')"
proof -
  have "requestStepAt 2000 (requestStore [exampleRow]) (requestStore [touchedRow])"
    using requestStepAt.touch [of 2000 "requestStore [exampleRow]" "dqID exampleDevRequest" 1] example_touch by simp
  from request_history [OF example_reached this example_get] exampleDevRequest_valid(3) show ?thesis by blast
qed

theorem SaveDevelopmentRequest_idempotent_witness:
  "SaveDevelopmentRequest (requestStore [exampleRow]) exampleDevRequest 5000 =
     (requestStore [exampleRow], Inr (exampleDevRequest, False))"
proof -
  have "requestReach (requestStore [])" by (rule reach.start) simp
  from SaveDevelopmentRequest_idempotent [OF this example_save exampleDevRequest_valid(3), of 5000] show ?thesis by simp
qed

theorem TouchDevelopmentRequest_rotates_witness:
  "dqID exampleDevRequest \<in> set (dispatchOrder (requestStore [exampleRow])) \<and>
   dispatchOrder (requestStore [touchedRow]) =
     filter (\<lambda>j. j \<noteq> dqID exampleDevRequest) (dispatchOrder (requestStore [exampleRow])) @ [dqID exampleDevRequest]"
  by (rule TouchDevelopmentRequest_rotates [OF example_reached example_touch])
    (simp add: exampleRow_def newRequestRow_def)

end
