(* ===== verification/Spec2Isabelle.thy ===== *)
theory Spec2Isabelle
  imports Wq_Properties Wq_Admission Dev_Transition Policy_Gate Rollout_Properties Request_Properties
begin

text \<open>
  Verification of Aeontra: the durable work queue, the development objectives, the policy
  layer and the catalog rollout.

  \<^bold>\<open>The program.\<close> Aeontra is a server that gives a model tools over a machine. Four of its
  parts decide what may happen and in which order, and are modelled here.
  \<^item> The work queue (\<open>internal/workqueue\<close>) keeps jobs with dependencies in SQLite, leases them
    to workers with fences, recovers expired leases and is fair between workspaces. Beside the
    jobs it keeps the requests for development work.
  \<^item> The development package (\<open>internal/development\<close>) keeps objectives: immutable revisions
    of steps, attempts and provisioning, with an authority that bounds the environments.
  \<^item> The policy (\<open>internal/policy\<close>, \<open>internal/config\<close>) confines paths to a workspace, asks for
    access to secret files, filters commands and redacts output.
  \<^item> The rollout runner (\<open>internal/catalogrollout\<close>) moves a deployment from one catalog of
    tools to the next and compensates failures.

  \<^bold>\<open>Conventions.\<close> A Go string is a \<open>string\<close>, a time or a duration an integer of nanoseconds,
  a \<open>uint64\<close> a \<open>64 word\<close>, an \<open>int64\<close> an integer with its wrap-around written out. A struct is
  a record, a table the list of its rows, NULL is \<open>None\<close>. An operation takes the state and
  returns it with a result; an error is the left side of a sum type, or its text. The clock
  and random bytes are arguments. A transaction that fails returns the database it was
  given. Names are those of the source, with a suffix where two types share a method name.

  \<^bold>\<open>Theories of the language and its library.\<close> \<open>Prelude\<close> (characters, options, lists),
  \<open>Go_Strings\<close>, \<open>Go_Sha256\<close>, \<open>Go_Sort\<close>, \<open>Go_Json\<close> (the encoder), \<open>Go_JsonParse\<close> (the decoder),
  \<open>Go_Filepath\<close> (\<open>path/filepath\<close> on Unix) and \<open>Systems\<close> (locales for invariants and monotone
  histories of step systems, which the queue, the fences of its rows, the objectives, their
  revisions and the requests interpret).

  \<^bold>\<open>The work queue.\<close> \<open>Wq_Types\<close> is \<open>types.go\<close>; \<open>Wq_Fairness\<close> the scheduler of
  \<open>fairness.go\<close>; \<open>Wq_Rows\<close> and \<open>Wq_Store\<close> the rows and the operations of \<open>store.go\<close> and
  \<open>cleanup.go\<close>; \<open>Wq_Invariant\<close> the invariant of the database and its preservation;
  \<open>Wq_Properties\<close> what follows for every reachable database; \<open>Wq_Admission\<close> the resource
  pools of \<open>admission.go\<close>. The steps are the calls of \<open>store.go\<close> and \<open>cleanup.go\<close> on a store
  that stays open. Shown: stored rows are readable and valid, a job runs after its
  dependencies, a blocked job waits for a live one, terminal states are final, leases are
  fenced over the whole life of a job and granted when there is work, and the scheduler
  serves every workspace.

  \<^bold>\<open>Development requests.\<close> \<open>Wq_Request\<close> is \<open>development_request.go\<close>: the request, its
  canonical JSON record, the strict reading of a stored record and the operations on the
  table. \<open>Request_Properties\<close> shows which rows are read back, that every reachable table passes
  the integrity check and its bounds, how a request may change, that saving is idempotent and
  that touching a request rotates it behind the others.

  \<^bold>\<open>Development objectives.\<close> \<open>Dev_Capability\<close>, \<open>Dev_Resolver\<close>, \<open>Dev_Attempt\<close>,
  \<open>Dev_Provision\<close>, \<open>Dev_Objective\<close> (data and snapshot validator), \<open>Dev_Operations\<close> and
  \<open>Dev_Transition\<close> follow the files of the package. \<open>runOperation\<close> applies any operation with any
  arguments, and \<open>storedStep\<close> keeps what the transition check accepts. Shown: exactly which
  results of the operations the check accepts (a refinement), the check makes histories
  immutable and bounds the authority, accepted objectives carry their evidence, an objective
  can be cancelled until it ends, and the resolver keeps a sufficient current environment or
  picks one of the lowest authority.

  \<^bold>\<open>Policy.\<close> \<open>Policy_Redact\<close> is \<open>scan.go\<close>, \<open>Policy_Jail\<close> is \<open>secrets.go\<close> and \<open>jail.go\<close>,
  \<open>Policy_Grants\<close> is \<open>grants.go\<close>, \<open>Policy_Gate\<close> is \<open>policy.go\<close>, \<open>commands.go\<close> and
  \<open>config.go\<close>. The file system is the parameter \<open>evalSymlinks\<close>, of which only is assumed that
  an absolute path resolves to an absolute one, and which is the same when a jail is built and
  when it is used. Shown: resolved paths stay in the jail, secret
  files are read with an approved, unexpired and unused grant for that path only, and the
  form of the commands that pass.

  \<^bold>\<open>Rollout.\<close> \<open>Catalog_Rollout\<close> is \<open>runner.go\<close> with the identities of
  \<open>internal/catalogidentity\<close>; the platform is a record of functions over any world, and the
  runner records its calls. \<open>Rollout_Properties\<close> shows that each change is one the last
  observation allows, what a result means, a bound on the calls, and convergence on a platform
  that does what it is asked, also after an interruption.

  \<^bold>\<open>Bounds and termination.\<close> Loops are recursive functions with termination proofs: the
  propagation by the number of blocked rows and the length of its worklist, the search for an
  existing ancestor by the length of the path. The loops that count in the source count here:
  the 24 rounds of a rollout and the rounds of the scheduler. The decoder counts down
  the 10000 levels of nesting that \<open>encoding/json\<close> allows. No other fuel is used.

  \<^bold>\<open>Not modelled.\<close> SHA-256 is defined, and no property assumes that it is injective. The
  decoders of the records other than requests are outside the model, as are the journal's
  file format, the SQLite engine, locks (operations are atomic steps, as under the store's
  mutex), floating point estimates, and the parts that are processes, HTTP, files or
  presentation: the edge client and server, the tools, the MCP server, model turns, OAuth,
  the front door, the console and the commands. The persistence of objectives in the queue
  and the tasks are not translated; \<open>task.go\<close> writes job rows in \<open>CreateTask\<close>,
  \<open>LeaseTaskWorker\<close> and \<open>FailUnstartedTaskWorker\<close>, and what is shown of reachable queues does not
  speak of those calls, nor of a store that is opened again.
\<close>

end
